(* ===== verification/Prelude.thy ===== *)
theory Prelude
  imports Main "HOL-Library.Sublist"
begin

text \<open>
  Shared vocabulary of the development.

  Go strings are byte sequences: \<open>string\<close> (a list of 8-bit \<open>char\<close>) models them exactly, and
  \<open>length\<close> counts bytes as Go's \<open>len\<close> does. This theory holds the functions of Go's
  \<open>strings\<close> package that the source calls (\<open>TrimSpace\<close>, \<open>ToUpper\<close>, \<open>ToLower\<close>,
  \<open>EqualFold\<close>, \<open>HasPrefix\<close>, \<open>HasSuffix\<close>, \<open>Contains\<close>, \<open>Index\<close>, \<open>Split\<close>, \<open>Join\<close>,
  \<open>ReplaceAll\<close>, \<open>TrimSuffix\<close>), the generic list and error lemmas the components share, and the
  development's fact collections.

  Scope: case mapping is the ASCII one, which is what Go computes on ASCII strings; bytes above
  127 are left alone. \<open>TrimSpace\<close> is the full Unicode one (every UTF-8 encoding of a white-space
  code point is trimmed).
\<close>

named_theorems go_simps \<open>unfolding rules of the Go string functions\<close>
named_theorems inv_intros \<open>invariant preservation rules\<close>
named_theorems err_simps \<open>rules for computations in the error sum\<close>

subsection \<open>Bytes\<close>

type_synonym 'a result = "string + 'a"

abbreviation byte :: "nat \<Rightarrow> char" where
  "byte n \<equiv> char_of n"

definition newline :: char where "newline = CHR 0x0A"
definition quote :: char where "quote = CHR 0x27"
definition dquote :: char where "dquote = CHR 0x22"
definition backtick :: char where "backtick = CHR 0x60"
definition backslash :: char where "backslash = CHR 0x5C"

lemma special_char_code [simp]:
  "of_char newline = (10::nat)" "of_char quote = (39::nat)" "of_char dquote = (34::nat)"
  "of_char backtick = (96::nat)" "of_char backslash = (92::nat)"
  by (simp_all add: newline_def quote_def dquote_def backtick_def backslash_def)

lemmas special_char_defs = newline_def quote_def dquote_def backtick_def backslash_def

definition upper_char :: "char \<Rightarrow> char" where
  "upper_char c = (let n = (of_char c :: nat) in if 97 \<le> n \<and> n \<le> 122 then char_of (n - 32) else c)"

definition lower_char :: "char \<Rightarrow> char" where
  "lower_char c = (let n = (of_char c :: nat) in if 65 \<le> n \<and> n \<le> 90 then char_of (n + 32) else c)"

definition to_upper :: "string \<Rightarrow> string" where
  "to_upper = map upper_char"

definition to_lower :: "string \<Rightarrow> string" where
  "to_lower = map lower_char"

definition equal_fold :: "string \<Rightarrow> string \<Rightarrow> bool" where
  "equal_fold a b \<longleftrightarrow> to_lower a = to_lower b"

definition is_digit :: "char \<Rightarrow> bool" where
  "is_digit c = (let n = (of_char c :: nat) in 48 \<le> n \<and> n \<le> 57)"

definition is_alpha :: "char \<Rightarrow> bool" where
  "is_alpha c = (let n = (of_char c :: nat) in 65 \<le> n \<and> n \<le> 90 \<or> 97 \<le> n \<and> n \<le> 122)"

text \<open>The ASCII word characters of RE2's \<open>\b\<close>, and RE2's \<open>\s\<close>.\<close>

definition is_word :: "char \<Rightarrow> bool" where
  "is_word c \<longleftrightarrow> is_alpha c \<or> is_digit c \<or> c = CHR ''_''"

definition is_re_space :: "char \<Rightarrow> bool" where
  "is_re_space c = (let n = (of_char c :: nat) in n = 9 \<or> n = 10 \<or> n = 12 \<or> n = 13 \<or> n = 32)"

lemma length_to_upper [simp]: "length (to_upper s) = length s"
  by (simp add: to_upper_def)

lemma length_to_lower [simp]: "length (to_lower s) = length s"
  by (simp add: to_lower_def)

lemma to_upper_Nil [simp]: "to_upper [] = []" and to_lower_Nil [simp]: "to_lower [] = []"
  by (simp_all add: to_upper_def to_lower_def)

lemma to_lower_append: "to_lower (a @ b) = to_lower a @ to_lower b"
  by (simp add: to_lower_def)

lemma to_upper_append: "to_upper (a @ b) = to_upper a @ to_upper b"
  by (simp add: to_upper_def)

lemma lower_char_idem [simp]: "lower_char (lower_char c) = lower_char c"
  by (auto simp: lower_char_def Let_def)

lemma upper_char_idem [simp]: "upper_char (upper_char c) = upper_char c"
  by (auto simp: upper_char_def Let_def)

lemma to_lower_idem [simp]: "to_lower (to_lower s) = to_lower s"
  by (simp add: to_lower_def)

lemma to_upper_idem [simp]: "to_upper (to_upper s) = to_upper s"
  by (simp add: to_upper_def)

lemma equal_fold_refl [simp]: "equal_fold s s"
  by (simp add: equal_fold_def)

lemma equal_fold_sym: "equal_fold a b \<longleftrightarrow> equal_fold b a"
  by (auto simp: equal_fold_def)

lemma equal_fold_trans: "equal_fold a b \<Longrightarrow> equal_fold b c \<Longrightarrow> equal_fold a c"
  by (simp add: equal_fold_def)

subsection \<open>White space: \<open>strings.TrimSpace\<close>\<close>

text \<open>The UTF-8 encodings of the code points for which \<open>unicode.IsSpace\<close> holds.\<close>

definition space_runes :: "string list" where
  "space_runes =
     [[CHR 0x09], [CHR 0x0A], [CHR 0x0B], [CHR 0x0C], [CHR 0x0D], [CHR 0x20],
      [CHR 0xC2, CHR 0x85], [CHR 0xC2, CHR 0xA0],
      [CHR 0xE1, CHR 0x9A, CHR 0x80], [CHR 0xE2, CHR 0x80, CHR 0x80],
      [CHR 0xE2, CHR 0x80, CHR 0x81], [CHR 0xE2, CHR 0x80, CHR 0x82],
      [CHR 0xE2, CHR 0x80, CHR 0x83], [CHR 0xE2, CHR 0x80, CHR 0x84],
      [CHR 0xE2, CHR 0x80, CHR 0x85], [CHR 0xE2, CHR 0x80, CHR 0x86],
      [CHR 0xE2, CHR 0x80, CHR 0x87], [CHR 0xE2, CHR 0x80, CHR 0x88],
      [CHR 0xE2, CHR 0x80, CHR 0x89], [CHR 0xE2, CHR 0x80, CHR 0x8A],
      [CHR 0xE2, CHR 0x80, CHR 0xA8], [CHR 0xE2, CHR 0x80, CHR 0xA9],
      [CHR 0xE2, CHR 0x80, CHR 0xAF], [CHR 0xE2, CHR 0x81, CHR 0x9F],
      [CHR 0xE3, CHR 0x80, CHR 0x80]]"

text \<open>Drop leading words of a set as long as there is one.\<close>

function strip_words :: "string list \<Rightarrow> string \<Rightarrow> string" where
  "strip_words ws s =
     (case find (\<lambda>w. w \<noteq> [] \<and> prefix w s) ws of
        None \<Rightarrow> s
      | Some w \<Rightarrow> strip_words ws (drop (length w) s))"
  by pat_completeness auto
termination
  proof (relation "measure (\<lambda>(ws, s). length s)", goal_cases)
  case (2 ws s w)
  then have "w \<noteq> []" and "length w \<le> length s"
    by (auto simp: find_Some_iff dest: prefix_length_le)
  then show ?case by (cases w) auto
qed simp

declare strip_words.simps [simp del]

definition trim_left :: "string \<Rightarrow> string" where
  "trim_left s = strip_words space_runes s"

definition trim_right :: "string \<Rightarrow> string" where
  "trim_right s = rev (strip_words (map rev space_runes) (rev s))"

definition trim_space :: "string \<Rightarrow> string" where
  "trim_space s = trim_right (trim_left s)"

definition starts_with_any :: "string list \<Rightarrow> string \<Rightarrow> bool" where
  "starts_with_any ws s \<longleftrightarrow> (\<exists>w \<in> set ws. w \<noteq> [] \<and> prefix w s)"

lemma strip_words_done: "\<not> starts_with_any ws (strip_words ws s)"
proof (induction ws s rule: strip_words.induct)
  case (1 ws s)
  show ?case
  proof (cases "find (\<lambda>w. w \<noteq> [] \<and> prefix w s) ws")
    case None
    then have "strip_words ws s = s"
      by (simp add: strip_words.simps [of ws s])
    with None show ?thesis
      by (auto simp: starts_with_any_def find_None_iff)
  next
    case (Some w)
    with "1.IH" show ?thesis by (simp add: strip_words.simps [of ws s])
  qed
qed

lemma strip_words_id: "\<not> starts_with_any ws s \<Longrightarrow> strip_words ws s = s"
  by (subst strip_words.simps) (auto simp: starts_with_any_def find_Some_iff split: option.split)

lemma strip_words_suffix: "suffix (strip_words ws s) s"
proof (induction ws s rule: strip_words.induct)
  case (1 ws s)
  show ?case
    by (subst strip_words.simps)
       (auto split: option.split intro: suffix_order.trans [OF "1.IH"] suffix_drop)
qed

lemma starts_with_any_prefix: "starts_with_any ws p \<Longrightarrow> prefix p s \<Longrightarrow> starts_with_any ws s"
  by (meson prefix_order.trans starts_with_any_def)

lemma trim_right_prefix: "prefix (trim_right s) s"
  using strip_words_suffix [of "map rev space_runes" "rev s"]
  by (simp add: trim_right_def suffix_to_prefix)

lemma trim_left_idem: "trim_left (trim_left s) = trim_left s"
  by (simp add: strip_words_done strip_words_id trim_left_def)

lemma trim_right_idem: "trim_right (trim_right s) = trim_right s"
  by (simp add: strip_words_done strip_words_id trim_right_def)

lemma trim_space_idem [simp]: "trim_space (trim_space s) = trim_space s"
proof -
  have "\<not> starts_with_any space_runes (trim_left s)"
    by (simp add: strip_words_done trim_left_def)
  then have "\<not> starts_with_any space_runes (trim_space s)"
    using starts_with_any_prefix trim_right_prefix trim_space_def by metis
  then have "trim_left (trim_space s) = trim_space s"
    by (simp add: strip_words_id trim_left_def)
  then show ?thesis
    by (simp add: trim_space_def trim_right_idem)
qed

lemma strip_words_Nil [simp]: "strip_words ws [] = []"
  using strip_words_suffix [of ws "[]"] by simp

lemma trim_space_Nil [simp]: "trim_space [] = []"
  by (simp add: trim_space_def trim_left_def trim_right_def)

subsection \<open>Searching and cutting\<close>

definition has_prefix :: "string \<Rightarrow> string \<Rightarrow> bool" where
  "has_prefix s p \<longleftrightarrow> prefix p s"

definition has_suffix :: "string \<Rightarrow> string \<Rightarrow> bool" where
  "has_suffix s p \<longleftrightarrow> suffix p s"

fun contains_sub :: "string \<Rightarrow> string \<Rightarrow> bool" where
  "contains_sub [] p \<longleftrightarrow> p = []"
| "contains_sub (c # s) p \<longleftrightarrow> prefix p (c # s) \<or> contains_sub s p"

lemma contains_sub_iff: "contains_sub s p \<longleftrightarrow> (\<exists>a b. s = a @ p @ b)"
proof (induction s)
  case Nil
  then show ?case by simp
next
  case (Cons c s)
  show ?case
  proof
    assume "contains_sub (c # s) p"
    then consider "prefix p (c # s)" | "contains_sub s p" by auto
    then show "\<exists>a b. c # s = a @ p @ b"
    proof cases
      case 1
      then obtain b where "c # s = p @ b" by (auto simp: prefix_def)
      then have "c # s = [] @ p @ b" by simp
      then show ?thesis by blast
    next
      case 2
      with Cons.IH obtain a b where "s = a @ p @ b" by blast
      then have "c # s = (c # a) @ p @ b" by simp
      then show ?thesis by blast
    qed
  next
    assume "\<exists>a b. c # s = a @ p @ b"
    then obtain a b where eq: "c # s = a @ p @ b" by blast
    show "contains_sub (c # s) p"
    proof (cases a)
      case Nil
      with eq have "prefix p (c # s)" by simp
      then show ?thesis by simp
    next
      case (Cons a' as)
      with eq have "s = as @ p @ b" by simp
      with Cons.IH show ?thesis by auto
    qed
  qed
qed

fun split_on :: "'a \<Rightarrow> 'a list \<Rightarrow> 'a list list" where
  "split_on d [] = [[]]"
| "split_on d (c # s) =
     (if c = d then [] # split_on d s
      else (case split_on d s of [] \<Rightarrow> [[c]] | w # ws \<Rightarrow> (c # w) # ws))"

fun join_with :: "'a list \<Rightarrow> 'a list list \<Rightarrow> 'a list" where
  "join_with d [] = []"
| "join_with d [s] = s"
| "join_with d (s # t # ts) = s @ d @ join_with d (t # ts)"

lemma split_on_not_Nil [simp]: "split_on d s \<noteq> []"
  by (induction s) (auto split: list.splits)

lemma join_with_Cons: "xs \<noteq> [] \<Longrightarrow> join_with d (x # xs) = x @ d @ join_with d xs"
  by (cases xs) auto

lemma join_split: "join_with [d] (split_on d s) = s"
proof (induction s)
  case (Cons c s)
  show ?case
  proof (cases "c = d")
    case True
    with Cons show ?thesis by (simp add: join_with_Cons)
  next
    case False
    with Cons show ?thesis
      by (cases "split_on d s"; cases "tl (split_on d s)") (auto split: list.splits)
  qed
qed simp

lemma split_on_no_delim: "w \<in> set (split_on d s) \<Longrightarrow> d \<notin> set w"
  by (induction s arbitrary: w) (auto split: if_splits list.splits)

lemma split_on_part: "d \<notin> set w \<Longrightarrow> split_on d (w @ d # s) = w # split_on d s"
  by (induction w) auto

lemma split_on_whole: "d \<notin> set w \<Longrightarrow> split_on d w = [w]"
  by (induction w) auto

lemma split_join_parts: "xs \<noteq> [] \<Longrightarrow> \<forall>w \<in> set xs. d \<notin> set w \<Longrightarrow> split_on d (join_with [d] xs) = xs"
proof (induction xs)
  case (Cons w xs)
  then show ?case
    by (cases xs) (simp_all add: split_on_whole split_on_part)
qed simp

text \<open>White space is not trimmed across a separator that no white space contains.\<close>

lemma starts_with_any_append:
  assumes "starts_with_any ws (w @ d # s)" "\<forall>v \<in> set ws. d \<notin> set v"
  shows "starts_with_any ws w"
proof -
  obtain v where v: "v \<in> set ws" "v \<noteq> []" "prefix v (w @ d # s)"
    using assms(1) by (auto simp: starts_with_any_def)
  have "prefix v w"
    using v(3) assms(2) v(1) by (auto simp: prefix_append prefix_Cons)
  then show ?thesis
    using v by (auto simp: starts_with_any_def)
qed

lemma trimmed_iff:
  "trim_space s = s \<longleftrightarrow> \<not> starts_with_any space_runes s \<and> \<not> starts_with_any (map rev space_runes) (rev s)"
proof
  assume s: "trim_space s = s"
  have "\<not> starts_with_any space_runes (trim_left s)"
    by (simp add: strip_words_done trim_left_def)
  then have "\<not> starts_with_any space_runes (trim_space s)"
    using starts_with_any_prefix trim_right_prefix trim_space_def by metis
  moreover have "\<not> starts_with_any (map rev space_runes) (rev (trim_space s))"
    by (simp add: trim_space_def trim_right_def strip_words_done)
  ultimately show "\<not> starts_with_any space_runes s \<and> \<not> starts_with_any (map rev space_runes) (rev s)"
    by (simp add: s)
qed (simp add: trim_space_def trim_left_def trim_right_def strip_words_id)

lemma trim_space_join:
  assumes "xs \<noteq> []" "\<forall>w \<in> set xs. trim_space w = w" "\<forall>v \<in> set space_runes. d \<notin> set v"
  shows "trim_space (join_with [d] xs) = join_with [d] xs"
  using assms(1,2)
proof (induction xs)
  case (Cons w xs)
  show ?case
  proof (cases "xs = []")
    case False
    let ?s = "join_with [d] xs"
    have "\<not> starts_with_any space_runes (w @ d # ?s)"
      using Cons.prems starts_with_any_append [of space_runes w d ?s] assms(3) by (auto simp: trimmed_iff)
    moreover have "\<not> starts_with_any (map rev space_runes) (rev ?s @ d # rev w)"
      using Cons False starts_with_any_append [of "map rev space_runes" "rev ?s" d "rev w"] assms(3) by (auto simp: trimmed_iff)
    ultimately show ?thesis
      using False by (simp add: join_with_Cons trimmed_iff)
  qed (use Cons in simp)
qed simp

definition trim_suffix :: "string \<Rightarrow> string \<Rightarrow> string" where
  "trim_suffix s p = (if suffix p s then take (length s - length p) s else s)"

definition trim_prefix :: "string \<Rightarrow> string \<Rightarrow> string" where
  "trim_prefix s p = (if prefix p s then drop (length p) s else s)"

lemma trim_suffix_append [simp]: "trim_suffix (s @ p) p = s"
  by (simp add: trim_suffix_def suffix_def)

lemma trim_prefix_append [simp]: "trim_prefix (p @ s) p = s"
  by (simp add: trim_prefix_def)

text \<open>\<open>strings.ReplaceAll\<close> for a one-byte pattern, the only form the modelled code uses.\<close>

definition replace_char :: "char \<Rightarrow> string \<Rightarrow> string \<Rightarrow> string" where
  "replace_char c r s = concat (map (\<lambda>x. if x = c then r else [x]) s)"

lemma replace_char_absent: "c \<notin> set r \<Longrightarrow> c \<notin> set (replace_char c r s)"
  by (auto simp: replace_char_def split: if_splits)

lemma replace_char_id: "c \<notin> set s \<Longrightarrow> replace_char c r s = s"
  by (induction s) (auto simp: replace_char_def)

subsection \<open>Decimal rendering of integers\<close>

fun digits_nat :: "nat \<Rightarrow> string" where
  "digits_nat n = (if n < 10 then [char_of (48 + n)] else digits_nat (n div 10) @ [char_of (48 + n mod 10)])"

declare digits_nat.simps [simp del]

definition show_int :: "int \<Rightarrow> string" where
  "show_int i = (if i < 0 then CHR ''-'' # digits_nat (nat (- i)) else digits_nat (nat i))"

definition show_nat :: "nat \<Rightarrow> string" where
  "show_nat n = digits_nat n"

lemma digits_nat_not_Nil [simp]: "digits_nat n \<noteq> []"
  by (subst digits_nat.simps) simp

text \<open>Rendering loses nothing, and no other character than digits and a sign occurs in it.\<close>

lemma digits_nat_value: "foldl (\<lambda>a c. 10 * a + (of_char c - 48)) 0 (digits_nat n) = n"
proof (induction n rule: digits_nat.induct)
  case (1 n)
  show ?case
  proof (cases "n < 10")
    case False
    then show ?thesis
      using 1 by (subst digits_nat.simps) simp
  qed (subst digits_nat.simps, simp)
qed

lemma digits_nat_range: "c \<in> set (digits_nat n) \<Longrightarrow> 48 \<le> (of_char c :: nat)"
proof (induction n rule: digits_nat.induct)
  case (1 n)
  then show ?case
    by (subst (asm) (2) digits_nat.simps) (auto split: if_splits)
qed

lemma minus_below_digits: "\<not> 48 \<le> (of_char (CHR ''-'') :: nat)"
  by simp

lemma show_int_inj: "show_int i = show_int j \<Longrightarrow> i = j"
proof -
  assume eq: "show_int i = show_int j"
  have minus: "CHR ''-'' # x \<noteq> digits_nat n" for x n
    using digits_nat_range [of "CHR ''-''" n] by (metis list.set_intros(1) minus_below_digits)
  have inj: "digits_nat m = digits_nat n \<Longrightarrow> m = n" for m n
    by (metis digits_nat_value)
  show ?thesis
    using eq minus [symmetric] minus by (auto simp: show_int_def dest!: inj split: if_splits)
qed

lemma show_int_no_NUL: "CHR 0x00 \<notin> set (show_int i)"
  using digits_nat_range [of "CHR 0x00"] by (auto simp: show_int_def)

subsection \<open>Lists\<close>

text \<open>Append a value unless it is there (\<open>appendUnique\<close>, \<open>appendUniqueStr\<close>).\<close>

definition append_unique :: "'a list \<Rightarrow> 'a \<Rightarrow> 'a list" where
  "append_unique xs v = (if v \<in> set xs then xs else xs @ [v])"

lemma set_append_unique [simp]: "set (append_unique xs v) = insert v (set xs)"
  by (auto simp: append_unique_def)

lemma distinct_append_unique [simp]: "distinct (append_unique xs v) = distinct xs"
  by (auto simp: append_unique_def)

text \<open>Stable sort by a comparison \<open>lt\<close> (\<open>sort.SliceStable\<close>): insertion behind equal elements.\<close>

fun insort_by :: "('a \<Rightarrow> 'a \<Rightarrow> bool) \<Rightarrow> 'a \<Rightarrow> 'a list \<Rightarrow> 'a list" where
  "insort_by lt x [] = [x]"
| "insort_by lt x (y # ys) = (if lt y x then y # insort_by lt x ys else x # y # ys)"

definition sort_by :: "('a \<Rightarrow> 'a \<Rightarrow> bool) \<Rightarrow> 'a list \<Rightarrow> 'a list" where
  "sort_by lt xs = foldr (insort_by lt) xs []"

lemma set_insort_by [simp]: "set (insort_by lt x ys) = insert x (set ys)"
  by (induction ys) auto

lemma length_insort_by [simp]: "length (insort_by lt x ys) = Suc (length ys)"
  by (induction ys) auto

lemma set_sort_by [simp]: "set (sort_by lt xs) = set xs"
  by (induction xs) (auto simp: sort_by_def)

lemma length_sort_by [simp]: "length (sort_by lt xs) = length xs"
  by (induction xs) (auto simp: sort_by_def)

lemma distinct_insort_by [simp]: "distinct (insort_by lt x ys) \<longleftrightarrow> x \<notin> set ys \<and> distinct ys"
  by (induction ys) auto

lemma distinct_sort_by [simp]: "distinct (sort_by lt xs) \<longleftrightarrow> distinct xs"
proof (induction xs)
  case (Cons x xs)
  have "set (foldr (insort_by lt) xs []) = set xs"
    using set_sort_by [of lt xs] by (simp add: sort_by_def)
  with Cons show ?case by (simp add: sort_by_def)
qed (simp add: sort_by_def)

text \<open>The interface of a comparison that a sort needs: a strict weak order.\<close>

locale strict_weak =
  fixes lt :: "'a \<Rightarrow> 'a \<Rightarrow> bool"
  assumes irrefl: "\<not> lt a a"
    and trans: "lt a b \<Longrightarrow> lt b c \<Longrightarrow> lt a c"
    and incomp_trans: "\<not> lt a b \<Longrightarrow> \<not> lt b c \<Longrightarrow> \<not> lt a c"
begin

lemma asym: "lt a b \<Longrightarrow> \<not> lt b a"
  using irrefl trans by blast

lemma sorted_insort_by:
  "sorted_wrt (\<lambda>a b. \<not> lt b a) ys \<Longrightarrow> sorted_wrt (\<lambda>a b. \<not> lt b a) (insort_by lt x ys)"
proof (induction ys)
  case (Cons y ys)
  then show ?case
    by (auto dest: asym) (metis incomp_trans)
qed simp

lemma sorted_sort_by: "sorted_wrt (\<lambda>a b. \<not> lt b a) (sort_by lt xs)"
  by (induction xs) (auto simp: sort_by_def sorted_insort_by)

end

text \<open>Insertion sort by a key is the library's \<open>sort_key\<close>.\<close>

lemma insort_by_key: "(\<And>a b. lt a b \<longleftrightarrow> key a < key b) \<Longrightarrow> insort_by lt x ys = insort_key (key :: 'a \<Rightarrow> 'b :: linorder) x ys"
  by (induction ys) (auto simp: not_less)

lemma sort_by_key: "(\<And>a b. lt a b \<longleftrightarrow> key a < key b) \<Longrightarrow> sort_by lt xs = sort_key (key :: 'a \<Rightarrow> 'b :: linorder) xs"
  by (induction xs) (simp_all add: sort_by_def insort_by_key)

subsection \<open>The error sum\<close>

definition bind_err :: "'e + 'a \<Rightarrow> ('a \<Rightarrow> 'e + 'b) \<Rightarrow> 'e + 'b" where
  "bind_err m f = (case m of Inl e \<Rightarrow> Inl e | Inr a \<Rightarrow> f a)"

lemma bind_err_simps [simp, err_simps]:
  "bind_err (Inl e) f = Inl e" "bind_err (Inr a) f = f a"
  by (simp_all add: bind_err_def)

lemma bind_err_Inr_iff [err_simps]: "bind_err m f = Inr b \<longleftrightarrow> (\<exists>a. m = Inr a \<and> f a = Inr b)"
  by (cases m) auto

fun mapM_err :: "('a \<Rightarrow> 'e + 'b) \<Rightarrow> 'a list \<Rightarrow> 'e + 'b list" where
  "mapM_err f [] = Inr []"
| "mapM_err f (x # xs) = bind_err (f x) (\<lambda>y. bind_err (mapM_err f xs) (\<lambda>ys. Inr (y # ys)))"

lemma mapM_err_Inr: "mapM_err f xs = Inr ys \<Longrightarrow> list_all2 (\<lambda>x y. f x = Inr y) xs ys"
  by (induction xs arbitrary: ys) (auto simp: err_simps)

text \<open>First error of a list of checks, as a chain of early returns.\<close>

fun first_error :: "'e option list \<Rightarrow> 'e option" where
  "first_error [] = None"
| "first_error (None # es) = first_error es"
| "first_error (Some e # es) = Some e"

lemma first_error_None [simp]: "first_error es = None \<longleftrightarrow> (\<forall>e \<in> set es. e = None)"
  by (induction es rule: first_error.induct) auto

text \<open>Finding by a key that the mapped function keeps.\<close>

lemma find_map_key:
  "(\<And>x. key (f x) = key x) \<Longrightarrow> find (\<lambda>x. key x = k) (map f xs) = map_option f (find (\<lambda>x. key x = k) xs)"
  by (induction xs) auto

lemma find_append_Some: "find P xs = Some x \<Longrightarrow> find P (xs @ ys) = Some x"
  by (induction xs) auto

end
