(* ===== verification/Sql_Guard.thy ===== *)
theory Sql_Guard
  imports Prelude
begin

text \<open>
  The keyword guard of the read-only connector (\<open>internal/dbconn/sqlguard.go\<close>): the scanner
  \<open>stripSQL\<close> that blanks comments and single-quoted literals, and \<open>ValidateReadOnlySQL\<close>, which
  checks the masked text. The scanner is refined against a segment grammar of SQL text
  (\<open>sql_seg\<close>), and the verdict of the guard is characterised independently of its loops.
\<close>

subsection \<open>Masking comments and literals\<close>

datatype strip_mode = Normal | In_Single | In_Line | In_Block

text \<open>
  One call is one iteration of the loop; the mode stands for the three flags (at most one is
  ever set). The two-byte cases are those that do \<open>i++\<close> inside the body.
\<close>

fun strip_go :: "strip_mode \<Rightarrow> string \<Rightarrow> string" where
  "strip_go m [] = []"
| "strip_go In_Line (c # cs) =
     (if c = newline then c # strip_go Normal cs else CHR '' '' # strip_go In_Line cs)"
| "strip_go In_Block (c # cs) =
     (case cs of
        d # ds \<Rightarrow>
          if c = CHR ''*'' \<and> d = CHR ''/'' then CHR '' '' # CHR '' '' # strip_go Normal ds
          else CHR '' '' # strip_go In_Block cs
      | [] \<Rightarrow> CHR '' '' # strip_go In_Block cs)"
| "strip_go In_Single (c # cs) =
     (if c = quote then
        (case cs of
           d # ds \<Rightarrow>
             if d = quote then CHR '' '' # CHR '' '' # strip_go In_Single ds
             else CHR '' '' # strip_go Normal cs
         | [] \<Rightarrow> CHR '' '' # strip_go Normal cs)
      else CHR '' '' # strip_go In_Single cs)"
| "strip_go Normal (c # cs) =
     (case cs of
        d # ds \<Rightarrow>
          if c = CHR ''-'' \<and> d = CHR ''-'' then CHR '' '' # CHR '' '' # strip_go In_Line ds
          else if c = CHR ''/'' \<and> d = CHR ''*'' then CHR '' '' # CHR '' '' # strip_go In_Block ds
          else if c = quote then CHR '' '' # strip_go In_Single cs
          else c # strip_go Normal cs
      | [] \<Rightarrow> if c = quote then CHR '' '' # strip_go In_Single cs else c # strip_go Normal cs)"

definition strip_sql :: "string \<Rightarrow> string" where
  "strip_sql sql = strip_go Normal sql"

lemma length_strip_go [simp]: "length (strip_go m s) = length s"
  by (induction m s rule: strip_go.induct) (auto split: list.splits)

lemma length_strip_sql [simp]: "length (strip_sql s) = length s"
  by (simp add: strip_sql_def)

text \<open>Every byte of the result is the byte of the source at that place, or a blank.\<close>

lemma strip_go_pointwise: "list_all2 (\<lambda>r c. r = c \<or> r = CHR '' '') (strip_go m s) s"
  by (induction m s rule: strip_go.induct) (auto split: list.splits)

subsection \<open>The segment grammar\<close>

datatype sql_seg = Code string | Literal string | Line_Comment string | Block_Comment string

fun escape_quotes :: "string \<Rightarrow> string" where
  "escape_quotes [] = []"
| "escape_quotes (c # s) = (if c = quote then quote # quote # escape_quotes s else c # escape_quotes s)"

fun render_seg :: "sql_seg \<Rightarrow> string" where
  "render_seg (Code s) = s"
| "render_seg (Literal b) = quote # escape_quotes b @ [quote]"
| "render_seg (Line_Comment b) = ''--'' @ b @ [newline]"
| "render_seg (Block_Comment b) = ''/*'' @ b @ ''*/''"

definition blanks :: "nat \<Rightarrow> string" where
  "blanks n = replicate n (CHR '' '')"

fun mask_seg :: "sql_seg \<Rightarrow> string" where
  "mask_seg (Code s) = s"
| "mask_seg (Literal b) = blanks (length (escape_quotes b) + 2)"
| "mask_seg (Line_Comment b) = blanks (length b + 2) @ [newline]"
| "mask_seg (Block_Comment b) = blanks (length b + 4)"

definition render_segs :: "sql_seg list \<Rightarrow> string" where
  "render_segs gs = concat (map render_seg gs)"

definition mask_segs :: "sql_seg list \<Rightarrow> string" where
  "mask_segs gs = concat (map mask_seg gs)"

definition code_ok :: "string \<Rightarrow> bool" where
  "code_ok s \<longleftrightarrow> s \<noteq> [] \<and> quote \<notin> set s \<and> \<not> contains_sub s ''--'' \<and> \<not> contains_sub s ''/*''"

text \<open>
  What may follow what: code segments are maximal, two literals do not touch (that would be an
  escaped quote), and a dash does not run into a line comment.
\<close>

fun wf_segs :: "sql_seg list \<Rightarrow> bool" where
  "wf_segs [] \<longleftrightarrow> True"
| "wf_segs (Code s # gs) \<longleftrightarrow>
     code_ok s \<and> wf_segs gs \<and>
     (case gs of
        Code _ # _ \<Rightarrow> False
      | Line_Comment _ # _ \<Rightarrow> last s \<noteq> CHR ''-''
      | _ \<Rightarrow> True)"
| "wf_segs (Literal b # gs) \<longleftrightarrow>
     wf_segs gs \<and> (case gs of Literal _ # _ \<Rightarrow> False | _ \<Rightarrow> True)"
| "wf_segs (Line_Comment b # gs) \<longleftrightarrow> newline \<notin> set b \<and> wf_segs gs"
| "wf_segs (Block_Comment b # gs) \<longleftrightarrow> \<not> contains_sub (b @ ''*'') ''*/'' \<and> wf_segs gs"

lemma blanks_simps [simp]:
  "blanks 0 = []" "blanks (Suc n) = CHR '' '' # blanks n"
  by (simp_all add: blanks_def)

lemma blanks_add: "blanks (m + n) = blanks m @ blanks n"
  by (simp add: blanks_def replicate_add)

lemma strip_line: "newline \<notin> set b \<Longrightarrow>
    strip_go In_Line (b @ newline # r) = blanks (length b) @ newline # strip_go Normal r"
  by (induction b) auto

lemma quote_neq_chars [simp]:
  "quote \<noteq> CHR ''-''" "quote \<noteq> CHR ''/''" "quote \<noteq> CHR ''*''"
  "CHR ''-'' \<noteq> quote" "CHR ''/'' \<noteq> quote" "CHR ''*'' \<noteq> quote"
  by (simp_all add: quote_def)

lemma strip_single:
  assumes "r = [] \<or> hd r \<noteq> quote"
  shows "strip_go In_Single (escape_quotes b @ quote # r) =
    blanks (length (escape_quotes b) + 1) @ strip_go Normal r"
proof (induction b)
  case Nil
  with assms show ?case by (cases r) auto
next
  case (Cons c b)
  then show ?case by (cases "escape_quotes b @ quote # r") auto
qed

lemma strip_block: "\<not> contains_sub (b @ ''*'') ''*/'' \<Longrightarrow>
    strip_go In_Block (b @ CHR ''*'' # CHR ''/'' # r) = blanks (length b + 2) @ strip_go Normal r"
proof (induction b)
  case (Cons c b)
  then show ?case by (cases b) (auto simp: prefix_def)
qed simp

lemma strip_code:
  assumes "quote \<notin> set s" "\<not> contains_sub s ''--''" "\<not> contains_sub s ''/*''"
    and "s \<noteq> [] \<Longrightarrow> r \<noteq> [] \<Longrightarrow> \<not> (last s = CHR ''-'' \<and> hd r = CHR ''-'')"
    and "s \<noteq> [] \<Longrightarrow> r \<noteq> [] \<Longrightarrow> \<not> (last s = CHR ''/'' \<and> hd r = CHR ''*'')"
  shows "strip_go Normal (s @ r) = s @ strip_go Normal r"
  using assms
proof (induction s)
  case (Cons c s)
  show ?case
  proof (cases s)
    case Nil
    with Cons.prems show ?thesis by (cases r) auto
  next
    case (Cons d s')
    with Cons.prems Cons.IH show ?thesis by (auto simp: prefix_def)
  qed
qed simp

lemma hd_render_segs:
  assumes "wf_segs gs" and "gs \<noteq> []"
  shows "render_segs gs \<noteq> [] \<and> hd (render_segs gs) =
    (case hd gs of Code s \<Rightarrow> hd s | Literal _ \<Rightarrow> quote
       | Line_Comment _ \<Rightarrow> CHR ''-'' | Block_Comment _ \<Rightarrow> CHR ''/'')"
  using assms by (cases gs; cases "hd gs") (auto simp: render_segs_def code_ok_def)

text \<open>
  C1. The scanner is correct: on any text built from code, string literals (with doubled
  quotes inside), line comments and block comments, \<open>stripSQL\<close> leaves the code untouched and
  blanks every literal and comment byte for byte, keeping the length of the text.
\<close>

theorem strip_sql_masks_segments:
  "wf_segs gs \<Longrightarrow> strip_sql (render_segs gs) = mask_segs gs"
  unfolding strip_sql_def
proof (induction gs)
  case Nil
  then show ?case by (simp add: render_segs_def mask_segs_def)
next
  case (Cons g gs)
  have wf: "wf_segs gs" using Cons.prems by (cases g) auto
  note IH = Cons.IH [OF wf]
  have hd: "gs \<noteq> [] \<Longrightarrow> render_segs gs \<noteq> [] \<and> hd (render_segs gs) =
    (case hd gs of Code s \<Rightarrow> hd s | Literal _ \<Rightarrow> quote
       | Line_Comment _ \<Rightarrow> CHR ''-'' | Block_Comment _ \<Rightarrow> CHR ''/'')"
    using hd_render_segs [OF wf] by blast
  have step: "render_segs (g # gs) = render_seg g @ render_segs gs"
    "mask_segs (g # gs) = mask_seg g @ mask_segs gs"
    by (simp_all add: render_segs_def mask_segs_def)
  show ?case
  proof (cases g)
    case (Code s)
    have "strip_go Normal (s @ render_segs gs) = s @ strip_go Normal (render_segs gs)"
      using Cons.prems Code hd
      by (intro strip_code) (cases gs; cases "hd gs"; auto simp: code_ok_def render_segs_def)+
    with Code IH step show ?thesis by simp
  next
    case (Literal b)
    have "render_segs gs = [] \<or> hd (render_segs gs) \<noteq> quote"
      using Cons.prems Literal hd
      by (cases gs; cases "hd gs") (auto simp: code_ok_def render_segs_def dest: hd_in_set)
    then have "strip_go In_Single (escape_quotes b @ quote # render_segs gs) =
        blanks (length (escape_quotes b) + 1) @ strip_go Normal (render_segs gs)"
      by (rule strip_single)
    with Literal IH step show ?thesis
      by (cases "escape_quotes b @ quote # render_segs gs") auto
  next
    case (Line_Comment b)
    with Cons.prems IH step strip_line [of b "render_segs gs"] show ?thesis by simp
  next
    case (Block_Comment b)
    with Cons.prems IH step strip_block [of b "render_segs gs"] show ?thesis
      by (simp add: eval_nat_numeral)
  qed
qed

theorem strip_sql_masks_segments_witness:
  "strip_sql (render_segs [Code ''SELECT a, '', Literal ''it is; DROP'', Block_Comment '' x '', Code '' FROM t'']) =
   mask_segs [Code ''SELECT a, '', Literal ''it is; DROP'', Block_Comment '' x '', Code '' FROM t'']"
  by (rule strip_sql_masks_segments) (simp add: code_ok_def quote_def prefix_def)

subsection \<open>The checks on the masked text\<close>

datatype guard_error =
    Sql_Empty
  | Not_Select_With
  | Multiple_Statements
  | Denied_Keyword string

definition denied_keywords :: "string list" where
  "denied_keywords =
    [''INSERT'', ''UPDATE'', ''DELETE'', ''MERGE'',
     ''CREATE'', ''ALTER'', ''DROP'', ''TRUNCATE'', ''RENAME'',
     ''BEGIN'', ''DECLARE'', ''EXEC'', ''EXECUTE'', ''CALL'', ''PREPARE'',
     ''GRANT'', ''REVOKE'',
     ''COMMIT'', ''ROLLBACK'', ''SAVEPOINT'',
     ''LOCK'', ''SET'', ''USE'']"

definition denied_prefixes :: "string list" where
  "denied_prefixes = []"

definition denied_keywords_merged :: "string list \<Rightarrow> string list" where
  "denied_keywords_merged extra =
     denied_keywords @ denied_prefixes @
     filter (\<lambda>kw. kw \<noteq> []) (map (\<lambda>kw. to_upper (trim_space kw)) extra)"

text \<open>The regular expression \<open>(?is)^\s*(SELECT|WITH)\b\<close>.\<close>

definition ends_word :: "string \<Rightarrow> bool" where
  "ends_word s = (case s of [] \<Rightarrow> True | c # _ \<Rightarrow> \<not> is_word c)"

definition keyword_at :: "string \<Rightarrow> string \<Rightarrow> bool" where
  "keyword_at kw s \<longleftrightarrow>
     length kw \<le> length s \<and> to_upper (take (length kw) s) = kw \<and> ends_word (drop (length kw) s)"

definition select_with_re :: "string \<Rightarrow> bool" where
  "select_with_re masked =
     (let t = dropWhile is_re_space masked in keyword_at ''SELECT'' t \<or> keyword_at ''WITH'' t)"

definition single_statement :: "string \<Rightarrow> bool" where
  "single_statement masked =
     (case dropWhile (\<lambda>c. c \<noteq> CHR '';'') masked of
        [] \<Rightarrow> True
      | _ # rest \<Rightarrow> trim_space rest = [])"

text \<open>
  \<open>\bKW\b\<close> anywhere in the text. \<open>prev\<close> tells whether the byte before the current position is
  a word byte; a boundary lies between a word byte and a non-word byte or an end of the text.
\<close>

definition starts_word :: "string \<Rightarrow> bool" where
  "starts_word s = (case s of [] \<Rightarrow> False | c # _ \<Rightarrow> is_word c)"

fun word_find :: "string \<Rightarrow> bool \<Rightarrow> string \<Rightarrow> bool" where
  "word_find kw prev s \<longleftrightarrow>
     (prefix kw s \<and> prev \<noteq> starts_word s \<and> is_word (last kw) \<noteq> starts_word (drop (length kw) s)) \<or>
     (case s of [] \<Rightarrow> False | c # cs \<Rightarrow> word_find kw (is_word c) cs)"

declare word_find.simps [simp del]

definition keyword_hit :: "string \<Rightarrow> string \<Rightarrow> bool" where
  "keyword_hit upper kw =
     (if has_suffix kw ''_'' \<or> has_suffix kw ''.'' \<or> has_suffix kw ''$''
      then contains_sub upper kw
      else word_find kw False upper)"

definition validate_read_only_sql :: "string \<Rightarrow> string list \<Rightarrow> guard_error option" where
  "validate_read_only_sql sql extra =
     (if trim_space sql = [] then Some Sql_Empty
      else
        let masked = strip_sql sql in
        if \<not> select_with_re masked then Some Not_Select_With
        else if \<not> single_statement masked then Some Multiple_Statements
        else
          (case find (keyword_hit (to_upper masked)) (denied_keywords_merged extra) of
             Some kw \<Rightarrow> Some (Denied_Keyword kw)
           | None \<Rightarrow> None))"

subsection \<open>What an accepted statement looks like\<close>

text \<open>A whole-word occurrence, stated without the loop.\<close>

definition whole_word :: "string \<Rightarrow> string \<Rightarrow> bool" where
  "whole_word kw s \<longleftrightarrow>
     (\<exists>a b. s = a @ kw @ b \<and> (a = [] \<or> \<not> is_word (last a)) \<and> (b = [] \<or> \<not> is_word (hd b)))"

lemma word_find_iff:
  assumes kw: "kw \<noteq> []" "is_word (hd kw)" "is_word (last kw)"
  shows "word_find kw prev s \<longleftrightarrow>
    (\<exists>a b. s = a @ kw @ b \<and> (a = [] \<longrightarrow> \<not> prev) \<and> (a \<noteq> [] \<longrightarrow> \<not> is_word (last a)) \<and>
       (b = [] \<or> \<not> is_word (hd b)))" (is "?L prev s \<longleftrightarrow> ?R prev s")
proof (induction s arbitrary: prev)
  case Nil
  with kw show ?case by (simp add: word_find.simps)
next
  case (Cons c cs)
  have here: "prefix kw (c # cs) \<and> prev \<noteq> starts_word (c # cs) \<and>
      is_word (last kw) \<noteq> starts_word (drop (length kw) (c # cs)) \<longleftrightarrow>
      (\<exists>b. c # cs = kw @ b \<and> \<not> prev \<and> (b = [] \<or> \<not> is_word (hd b)))"
    using kw by (cases kw) (auto simp: prefix_def starts_word_def split: list.splits)
  have split: "?R prev (c # cs) \<longleftrightarrow>
      (\<exists>b. c # cs = kw @ b \<and> \<not> prev \<and> (b = [] \<or> \<not> is_word (hd b))) \<or> ?R (is_word c) cs"
    (is "_ \<longleftrightarrow> ?H \<or> _")
  proof
    assume "?R prev (c # cs)"
    then obtain a b where ab: "c # cs = a @ kw @ b" "a = [] \<longrightarrow> \<not> prev"
      "a \<noteq> [] \<longrightarrow> \<not> is_word (last a)" "b = [] \<or> \<not> is_word (hd b)" by blast
    show "?H \<or> ?R (is_word c) cs"
    proof (cases a)
      case Nil
      with ab show ?thesis by auto
    next
      case (Cons x as)
      with ab have "cs = as @ kw @ b" "as = [] \<longrightarrow> \<not> is_word c" "as \<noteq> [] \<longrightarrow> \<not> is_word (last as)"
        by auto
      with ab(4) show ?thesis by blast
    qed
  next
    assume "?H \<or> ?R (is_word c) cs"
    then show "?R prev (c # cs)"
    proof
      assume ?H
      then show ?thesis by (metis append_Nil)
    next
      assume "?R (is_word c) cs"
      then obtain a b where "cs = a @ kw @ b" "a = [] \<longrightarrow> \<not> is_word c"
        "a \<noteq> [] \<longrightarrow> \<not> is_word (last a)" "b = [] \<or> \<not> is_word (hd b)" by blast
      then have "c # cs = (c # a) @ kw @ b" "\<not> is_word (last (c # a))" by auto
      with \<open>b = [] \<or> \<not> is_word (hd b)\<close> show ?thesis by blast
    qed
  qed
  have "word_find kw prev (c # cs) \<longleftrightarrow>
      (prefix kw (c # cs) \<and> prev \<noteq> starts_word (c # cs) \<and>
        is_word (last kw) \<noteq> starts_word (drop (length kw) (c # cs))) \<or> word_find kw (is_word c) cs"
    by (subst word_find.simps) (simp only: list.case)
  then show ?case unfolding here split Cons.IH .
qed

lemma word_find_whole_word:
  "kw \<noteq> [] \<Longrightarrow> is_word (hd kw) \<Longrightarrow> is_word (last kw) \<Longrightarrow> word_find kw False s = whole_word kw s"
  by (auto simp: word_find_iff whole_word_def)

lemma builtin_keyword_shape:
  "kw \<in> set denied_keywords \<Longrightarrow> kw \<noteq> [] \<and> is_word (hd kw) \<and> is_word (last kw) \<and>
     \<not> has_suffix kw ''_'' \<and> \<not> has_suffix kw ''.'' \<and> \<not> has_suffix kw ''$''"
  by (auto simp: denied_keywords_def is_word_def is_alpha_def has_suffix_def suffix_def
      append_eq_Cons_conv Cons_eq_append_conv)

lemma validate_None_iff:
  "validate_read_only_sql sql extra = None \<longleftrightarrow>
     trim_space sql \<noteq> [] \<and> select_with_re (strip_sql sql) \<and> single_statement (strip_sql sql) \<and>
     (\<forall>kw \<in> set (denied_keywords_merged extra). \<not> keyword_hit (to_upper (strip_sql sql)) kw)"
proof (cases "find (keyword_hit (to_upper (strip_sql sql))) (denied_keywords_merged extra)")
  case None
  then have "\<forall>kw \<in> set (denied_keywords_merged extra). \<not> keyword_hit (to_upper (strip_sql sql)) kw"
    by (auto simp: find_None_iff)
  with None show ?thesis by (simp add: validate_read_only_sql_def Let_def)
next
  case (Some kw)
  then have "kw \<in> set (denied_keywords_merged extra)" "keyword_hit (to_upper (strip_sql sql)) kw"
    by (auto simp: find_Some_iff)
  with Some show ?thesis by (auto simp: validate_read_only_sql_def Let_def)
qed

lemma builtin_keyword_absent:
  assumes "kw \<in> set denied_keywords"
    and "\<forall>kw \<in> set (denied_keywords_merged extra). \<not> keyword_hit (to_upper m) kw"
  shows "\<not> whole_word kw (to_upper m)"
proof -
  have "\<not> keyword_hit (to_upper m) kw"
    using assms by (simp add: denied_keywords_merged_def)
  with builtin_keyword_shape [OF assms(1)] show ?thesis
    by (simp add: keyword_hit_def word_find_whole_word)
qed

lemma single_statement_end:
  assumes "single_statement (a @ CHR '';'' # b)" and "CHR '';'' \<notin> set a"
  shows "trim_space b = []"
proof -
  have "dropWhile (\<lambda>c. c \<noteq> CHR '';'') a = []"
    using assms(2) by (auto simp: dropWhile_eq_Nil_conv)
  with assms(1) show ?thesis by (simp add: single_statement_def dropWhile_append)
qed

text \<open>
  C2. Safety of the guard: in an accepted statement no built-in keyword (DML, DDL, routine,
  privilege, transaction or session statement) stands as a whole word outside comments and
  literals, the code starts with SELECT or WITH, and nothing but white space follows the first
  semicolon.
\<close>

theorem accepted_sql_is_clean:
  assumes "validate_read_only_sql sql extra = None"
  shows "select_with_re (strip_sql sql) \<and>
    (\<forall>kw \<in> set denied_keywords. \<not> whole_word kw (to_upper (strip_sql sql))) \<and>
    (\<forall>a b. strip_sql sql = a @ CHR '';'' # b \<longrightarrow> CHR '';'' \<notin> set a \<longrightarrow> trim_space b = [])"
proof (intro conjI ballI allI impI)
  note ok = assms [unfolded validate_None_iff]
  show "select_with_re (strip_sql sql)" using ok by blast
  show "\<not> whole_word kw (to_upper (strip_sql sql))" if "kw \<in> set denied_keywords" for kw
    using ok that builtin_keyword_absent by blast
  show "trim_space b = []" if "strip_sql sql = a @ CHR '';'' # b" "CHR '';'' \<notin> set a" for a b
    using ok that single_statement_end by metis
qed

theorem accepted_sql_is_clean_witness:
  "select_with_re (strip_sql ''SELECT 1--drop'') \<and>
    \<not> whole_word ''DROP'' (to_upper (strip_sql ''SELECT 1--drop''))"
proof -
  have "validate_read_only_sql ''SELECT 1--drop'' [] = None" by code_simp
  from accepted_sql_is_clean [OF this] show ?thesis by (simp add: denied_keywords_def)
qed

lemma validate_mono:
  "validate_read_only_sql sql (e1 @ e2) = None \<Longrightarrow> validate_read_only_sql sql e1 = None"
  by (auto simp: validate_None_iff denied_keywords_merged_def)

text \<open>The verdict depends on the masked text only.\<close>

lemma validate_masked_cong:
  assumes "trim_space s \<noteq> []" "trim_space t \<noteq> []" "strip_sql s = strip_sql t"
  shows "validate_read_only_sql s extra = validate_read_only_sql t extra"
  using assms by (simp add: validate_read_only_sql_def)

end
