(* ===== verification/Web_Markdown.thy ===== *)
theory Web_Markdown
  imports Prelude
begin

text \<open>
  The Markdown renderer of the web console (\<open>esc\<close> and \<open>mdToHtml\<close> of
  \<open>internal/mcp/webui/nav.js\<close>). A JavaScript string is the list of its UTF-16 code units
  (natural numbers below 65536), so \<open>length\<close> is JavaScript's \<open>length\<close>. \<open>html += x\<close> appends a
  chunk to the list of chunks; the result is their concatenation.

  The regular expressions are matchers with their greedy choices written out; none of them can
  succeed with a shorter choice, because each repetition stops at a unit it cannot match.
  What the lemmas show: escaping is complete, the output is built from escaped text and a fixed
  set of tags, and the block tags nest properly.
\<close>

type_synonym js = "nat list"

abbreviation jl :: "string \<Rightarrow> js" where
  "jl s \<equiv> map of_char s"

subsection \<open>Escaping\<close>

definition esc_unit :: "nat \<Rightarrow> js" where
  "esc_unit c =
     (if c = 38 then jl ''&amp;''
      else if c = 60 then jl ''&lt;''
      else if c = 62 then jl ''&gt;''
      else if c = 34 then jl ''&quot;''
      else if c = 39 then jl ''&#39;''
      else [c])"

definition esc :: "js \<Rightarrow> js" where
  "esc s = concat (map esc_unit s)"

definition safe_unit :: "nat \<Rightarrow> bool" where
  "safe_unit c \<longleftrightarrow> c \<noteq> 34 \<and> c \<noteq> 39 \<and> c \<noteq> 60 \<and> c \<noteq> 62"

lemma esc_unit_safe: "list_all safe_unit (esc_unit c)"
proof -
  consider "c = 38" | "c = 60" | "c = 62" | "c = 34" | "c = 39" | "c \<notin> {38, 60, 62, 34, 39}" by blast
  then show ?thesis by cases (simp_all add: esc_unit_def safe_unit_def)
qed

lemma esc_safe: "c \<in> set (esc s) \<Longrightarrow> safe_unit c"
  using esc_unit_safe by (auto simp: esc_def list_all_iff)

lemma esc_Nil [simp]: "esc [] = []" and esc_append: "esc (a @ b) = esc a @ esc b"
  by (simp_all add: esc_def)

text \<open>Reading the entities back: the escape loses nothing.\<close>

fun unesc :: "js \<Rightarrow> js" where
  "unesc [] = []"
| "unesc (c # cs) =
     (if c = 38 then
        (if prefix (jl ''amp;'') cs then 38 # unesc (drop 4 cs)
         else if prefix (jl ''lt;'') cs then 60 # unesc (drop 3 cs)
         else if prefix (jl ''gt;'') cs then 62 # unesc (drop 3 cs)
         else if prefix (jl ''quot;'') cs then 34 # unesc (drop 5 cs)
         else if prefix (jl ''#39;'') cs then 39 # unesc (drop 4 cs)
         else c # unesc cs)
      else c # unesc cs)"

lemma unesc_esc_unit: "unesc (esc_unit c @ r) = c # unesc r"
proof -
  consider "c = 38" | "c = 60" | "c = 62" | "c = 34" | "c = 39" | "c \<notin> {38, 60, 62, 34, 39}" by blast
  then show ?thesis
    by cases (simp_all add: esc_unit_def)
qed

lemma unesc_esc: "unesc (esc s) = s"
  by (induction s) (simp_all add: esc_def unesc_esc_unit)

subsection \<open>Global replacement\<close>

text \<open>
  \<open>replace_all m\<close> is \<open>String.replace\<close> with a global pattern: at each place the matcher says
  what replaces the match and how many units it takes beyond the first one.
\<close>

fun replace_all :: "(js \<Rightarrow> (js \<times> nat) option) \<Rightarrow> js \<Rightarrow> js" where
  "replace_all m [] = []"
| "replace_all m (c # cs) =
     (case m (c # cs) of
        None \<Rightarrow> c # replace_all m cs
      | Some (rep, k) \<Rightarrow> rep @ replace_all m (drop k cs))"

text \<open>\<open>/`([^`]+)`/g\<close>\<close>

definition code_match :: "js \<Rightarrow> (js \<times> nat) option" where
  "code_match s = (case s of
     [] \<Rightarrow> None
   | c # cs \<Rightarrow>
       let body = takeWhile (\<lambda>d. d \<noteq> 96) cs in
       if c = 96 \<and> body \<noteq> [] \<and> length body < length cs
       then Some (jl ''<code>'' @ body @ jl ''</code>'', length body + 1) else None)"

text \<open>\<open>/\*\*([^*]+)\*\*/g\<close>\<close>

definition bold_match :: "js \<Rightarrow> (js \<times> nat) option" where
  "bold_match s = (case s of
     c # d # cs \<Rightarrow>
       let body = takeWhile (\<lambda>d. d \<noteq> 42) cs; r = drop (length body) cs in
       if c = 42 \<and> d = 42 \<and> body \<noteq> [] \<and> prefix [42, 42] r
       then Some (jl ''<strong>'' @ body @ jl ''</strong>'', length body + 3) else None
   | _ \<Rightarrow> None)"

definition anchor_open :: "js \<Rightarrow> js" where
  "anchor_open url = jl ''<a href='' @ [34] @ url @ [34] @ jl '' target='' @ [34] @ jl ''_blank'' @ [34]
     @ jl '' rel='' @ [34] @ jl ''noopener'' @ [34] @ jl ''>''"

text \<open>\<open>/\[([^\]]+)\]\(([^)]+)\)/g\<close>\<close>

definition link_match :: "js \<Rightarrow> (js \<times> nat) option" where
  "link_match s = (case s of
     [] \<Rightarrow> None
   | c # cs \<Rightarrow>
       let label = takeWhile (\<lambda>d. d \<noteq> 93) cs; r = drop (length label) cs;
           url = takeWhile (\<lambda>d. d \<noteq> 41) (drop 2 r); r' = drop (length url + 2) r in
       if c = 91 \<and> label \<noteq> [] \<and> prefix [93, 40] r \<and> url \<noteq> [] \<and> prefix [41] r'
       then Some (anchor_open url @ label @ jl ''</a>'', length label + length url + 3) else None)"

definition inline :: "js \<Rightarrow> js" where
  "inline t = replace_all link_match (replace_all bold_match (replace_all code_match (esc t)))"

subsection \<open>Lines\<close>

text \<open>The units of \<open>\s\<close> (and of \<open>trim\<close>), and those that \<open>.\<close> matches.\<close>

definition js_space :: "nat \<Rightarrow> bool" where
  "js_space c \<longleftrightarrow> c \<in> {9, 10, 11, 12, 13, 32, 160, 5760, 8232, 8233, 8239, 8287, 12288, 65279} \<or>
     8192 \<le> c \<and> c \<le> 8202"

definition js_dot :: "nat \<Rightarrow> bool" where
  "js_dot c \<longleftrightarrow> c \<notin> {10, 13, 8232, 8233}"

definition js_digit :: "nat \<Rightarrow> bool" where
  "js_digit c \<longleftrightarrow> 48 \<le> c \<and> c \<le> 57"

definition spaced_rest :: "js \<Rightarrow> js option" where
  "spaced_rest r =
     (if r \<noteq> [] \<and> js_space (hd r) then Some (takeWhile js_dot (dropWhile js_space r)) else None)"

text \<open>\<open>/^(#{1,4})\s+(.*)/\<close>, \<open>/^\s*[-*]\s+(.*)/\<close>, \<open>/^\s*\d+\.\s+(.*)/\<close>, \<open>/^>\s?(.*)/\<close>\<close>

definition heading_match :: "js \<Rightarrow> (nat \<times> js) option" where
  "heading_match ln =
     (let h = takeWhile (\<lambda>c. c = 35) ln in
      if 1 \<le> length h \<and> length h \<le> 4
      then map_option (\<lambda>t. (length h, t)) (spaced_rest (drop (length h) ln)) else None)"

definition bullet_match :: "js \<Rightarrow> js option" where
  "bullet_match ln = (case dropWhile js_space ln of
     c # r \<Rightarrow> if c = 45 \<or> c = 42 then spaced_rest r else None
   | [] \<Rightarrow> None)"

definition ordered_match :: "js \<Rightarrow> js option" where
  "ordered_match ln =
     (let r = dropWhile js_space ln; n = takeWhile js_digit r in
      case drop (length n) r of
        c # r' \<Rightarrow> if n \<noteq> [] \<and> c = 46 then spaced_rest r' else None
      | [] \<Rightarrow> None)"

definition quote_match :: "js \<Rightarrow> js option" where
  "quote_match ln = (case ln of
     c # r \<Rightarrow> if c = 62
              then Some (takeWhile js_dot (if r \<noteq> [] \<and> js_space (hd r) then tl r else r)) else None
   | [] \<Rightarrow> None)"

definition fence :: "js \<Rightarrow> bool" where
  "fence ln \<longleftrightarrow> prefix [96, 96, 96] ln"

subsection \<open>The renderer\<close>

definition wrap :: "string \<Rightarrow> js \<Rightarrow> js" where
  "wrap tag t = jl (''<'' @ tag @ ''>'') @ t @ jl (''</'' @ tag @ ''>'')"

definition heading_tag :: "nat \<Rightarrow> string" where
  "heading_tag n = CHR ''h'' # show_nat (n + 2)"

text \<open>The chunks so far, \<open>inUl\<close>, \<open>inCode\<close>.\<close>

type_synonym md_state = "js list \<times> bool \<times> bool"

definition close_ul :: "bool \<Rightarrow> js list" where
  "close_ul in_ul = (if in_ul then [jl ''</ul>''] else [])"

definition open_ul :: "bool \<Rightarrow> js list" where
  "open_ul in_ul = (if in_ul then [] else [jl ''<ul>''])"

definition md_step :: "md_state \<Rightarrow> js \<Rightarrow> md_state" where
  "md_step st ln = (case st of (html, in_ul, in_code) \<Rightarrow>
     if fence ln then
       (if in_code then (html @ [jl ''</pre>''], in_ul, False)
        else (html @ close_ul in_ul @ [jl ''<pre>''], False, True))
     else if in_code then (html @ [esc ln @ [10]], in_ul, in_code)
     else case heading_match ln of
       Some (n, t) \<Rightarrow> (html @ close_ul in_ul @ [wrap (heading_tag n) (inline t)], False, in_code)
     | None \<Rightarrow> (case bullet_match ln of
       Some t \<Rightarrow> (html @ open_ul in_ul @ [wrap ''li'' (inline t)], True, in_code)
     | None \<Rightarrow> (case ordered_match ln of
       Some t \<Rightarrow> (html @ open_ul in_ul @ [wrap ''li'' (inline t)], True, in_code)
     | None \<Rightarrow> (case quote_match ln of
       Some t \<Rightarrow> (html @ close_ul in_ul @ [wrap ''blockquote'' (inline t)], False, in_code)
     | None \<Rightarrow>
       if list_all js_space ln then (html @ close_ul in_ul, False, in_code)
       else (html @ close_ul in_ul @ [wrap ''p'' (inline ln)], False, in_code)))))"

definition md_chunks :: "js \<Rightarrow> js list" where
  "md_chunks md = (case foldl md_step ([], False, False) (split_on 10 md) of
     (html, in_ul, in_code) \<Rightarrow> html @ close_ul in_ul @ (if in_code then [jl ''</pre>''] else []))"

definition md_to_html :: "js \<Rightarrow> js" where
  "md_to_html md = concat (md_chunks md)"

subsection \<open>Inert markup\<close>

text \<open>
  Text built from single units other than quotes and angle brackets, and from whole tags of a
  set \<open>T\<close>: the only markup in it is that of \<open>T\<close>.
\<close>

definition frag :: "js set \<Rightarrow> js \<Rightarrow> bool" where
  "frag T s \<longleftrightarrow> (\<exists>ps. s = concat ps \<and> (\<forall>p \<in> set ps. p \<in> T \<or> (\<exists>c. p = [c] \<and> safe_unit c)))"

lemma frag_Nil [simp, intro]: "frag T []"
  unfolding frag_def by (rule exI [of _ "[]"]) simp

lemma frag_append [intro]: "frag T a \<Longrightarrow> frag T b \<Longrightarrow> frag T (a @ b)"
  unfolding frag_def by (metis Un_iff concat_append set_append)

lemma frag_tag [intro]: "t \<in> T \<Longrightarrow> frag T t"
  unfolding frag_def by (rule exI [of _ "[t]"]) simp

lemma frag_unit: "safe_unit c \<Longrightarrow> frag T [c]"
  unfolding frag_def by (rule exI [of _ "[[c]]"]) simp

lemma frag_Cons: "safe_unit c \<Longrightarrow> frag T s \<Longrightarrow> frag T (c # s)"
  using frag_append [OF frag_unit, of c T s] by simp

lemma frag_plain: "\<forall>c \<in> set s. safe_unit c \<Longrightarrow> frag T s"
  by (induction s) (auto intro: frag_Cons)

lemma frag_esc [simp, intro]: "frag T (esc s)"
  by (rule frag_plain) (auto dest: esc_safe)

lemma frag_mono: "frag T s \<Longrightarrow> T \<subseteq> U \<Longrightarrow> frag U s"
  unfolding frag_def by blast

lemma frag_concat: "\<forall>s \<in> set ss. frag T s \<Longrightarrow> frag T (concat ss)"
  by (induction ss) auto

lemma frag_split:
  assumes "\<forall>t \<in> T. x \<notin> set t" and "frag T (a @ x # b)"
  shows "frag T a \<and> frag T b"
proof -
  obtain ps where "a @ x # b = concat ps" "\<forall>p \<in> set ps. p \<in> T \<or> (\<exists>c. p = [c] \<and> safe_unit c)"
    using assms(2) unfolding frag_def by blast
  then show ?thesis
  proof (induction ps arbitrary: a)
    case (Cons p ps)
    have rest: "frag T (concat ps)" and one: "frag T p"
      using Cons.prems(2) by (auto intro!: frag_concat frag_unit)
    consider us where "a = p @ us" "concat ps = us @ x # b"
      | us where "p = a @ x # us" "b = us @ concat ps"
      | "p = a" "concat ps = x # b"
      using Cons.prems(1) by (auto simp: append_eq_append_conv2 Cons_eq_append_conv)
    then show ?case
    proof cases
      case 1
      with Cons.IH [of us] Cons.prems(2) one show ?thesis by auto
    next
      case 2
      with assms(1) Cons.prems(2) have "a = [] \<and> us = []"
        by (auto simp: append_eq_Cons_conv Cons_eq_append_conv)
      with 2 rest show ?thesis by simp
    next
      case 3
      with Cons.IH [of "[]"] Cons.prems(2) one show ?thesis by simp
    qed
  qed simp
qed

lemma concat_nonempty: "concat (filter (\<lambda>p. p \<noteq> []) ps) = concat ps"
  by (induction ps) auto

lemma replace_all_skip:
  "\<forall>c \<in> set p. \<forall>r. m (c # r) = None \<Longrightarrow> replace_all m (p @ r) = p @ replace_all m r"
  by (induction p) simp_all

text \<open>The contract of a replacement pass that works on inert markup.\<close>

locale markup_pass =
  fixes m :: "js \<Rightarrow> (js \<times> nat) option" and x :: nat and T U :: "js set"
  assumes starts: "m (c # r) \<noteq> None \<Longrightarrow> c = x"
    and whole: "t \<in> T \<Longrightarrow> x \<notin> set t"
    and grows: "T \<subseteq> U"
    and emits: "frag T s \<Longrightarrow> m s = Some (rep, k) \<Longrightarrow> frag U rep \<and> frag T (drop (Suc k) s)"
begin

lemma frag_replace: "frag T s \<Longrightarrow> frag U (replace_all m s)"
proof (induction "length s" arbitrary: s rule: less_induct)
  case less
  then obtain ps where ps: "s = concat ps" "\<forall>p \<in> set ps. p \<in> T \<or> (\<exists>c. p = [c] \<and> safe_unit c)"
    unfolding frag_def by blast
  define qs where "qs = filter (\<lambda>p. p \<noteq> []) ps"
  have qs: "s = concat qs" "\<forall>p \<in> set qs. p \<noteq> [] \<and> (p \<in> T \<or> (\<exists>c. p = [c] \<and> safe_unit c))"
    using ps unfolding qs_def by (auto simp: concat_nonempty)
  show ?case
  proof (cases qs)
    case Nil
    with qs show ?thesis by simp
  next
    case (Cons p rs)
    have tail: "frag T (concat rs)"
      using qs(2) Cons by (auto intro!: frag_concat frag_unit)
    have len: "length (concat rs) < length s"
      using qs Cons by simp
    have IH: "frag U (replace_all m (concat rs))"
      using less.hyps [OF len tail] .
    have s_eq: "s = p @ concat rs" using qs Cons by simp
    consider "p \<in> T" | c where "p = [c]" "safe_unit c" using qs Cons by auto
    then show ?thesis
    proof cases
      case 1
      then have "replace_all m s = p @ replace_all m (concat rs)"
        unfolding s_eq using whole starts by (intro replace_all_skip) blast
      with 1 grows IH show ?thesis by auto
    next
      case 2
      show ?thesis
      proof (cases "m s")
        case None
        with 2 s_eq IH show ?thesis by (simp add: frag_Cons)
      next
        case (Some q)
        obtain rep k where q: "q = (rep, k)" by (cases q)
        have out: "frag U rep" "frag T (drop (Suc k) s)"
          using emits [OF less.prems] Some q by auto
        have "frag U (replace_all m (drop (Suc k) s))"
          by (rule less.hyps) (use out s_eq 2 in auto)
        with out Some q 2 s_eq show ?thesis by auto
      qed
    qed
  qed
qed

end

text \<open>The tags each pass may add.\<close>

definition code_tags :: "js set" where
  "code_tags = {jl ''<code>'', jl ''</code>''}"

definition inline_tags :: "js set" where
  "inline_tags = code_tags \<union> {jl ''<strong>'', jl ''</strong>''}"

definition anchor_tags :: "js set" where
  "anchor_tags = inline_tags \<union> {jl ''</a>''} \<union> {anchor_open url |url. frag inline_tags url}"

lemma takeWhile_split:
  "length (takeWhile P s) < length s \<Longrightarrow>
     s = takeWhile P s @ s ! length (takeWhile P s) # drop (Suc (length (takeWhile P s))) s"
  by (metis Cons_nth_drop_Suc append_take_drop_id takeWhile_eq_take)

lemma drop_takeWhile [simp]: "drop (length (takeWhile P s)) s = dropWhile P s"
  by (induction s) auto

lemma prefix_Cons_dest: "prefix (a # p) s \<Longrightarrow> \<exists>r. s = a # r \<and> prefix p r"
  by (cases s) auto

lemma code_match_Some:
  assumes "code_match s = Some (rep, k)"
  obtains body r where "s = 96 # body @ 96 # r" "k = length body + 1"
    "rep = jl ''<code>'' @ body @ jl ''</code>''"
proof (cases s)
  case Nil
  with assms show ?thesis by (simp add: code_match_def)
next
  case (Cons c cs)
  let ?body = "takeWhile (\<lambda>d. d \<noteq> 96) cs"
  have c: "c = 96" "length ?body < length cs" "k = length ?body + 1"
    "rep = jl ''<code>'' @ ?body @ jl ''</code>''"
    using assms Cons by (auto simp: code_match_def Let_def split: if_splits)
  moreover have "cs ! length ?body = 96"
    using nth_length_takeWhile [OF c(2)] by simp
  ultimately have "s = 96 # ?body @ 96 # drop (Suc (length ?body)) cs"
    using takeWhile_split [OF c(2)] Cons by simp
  then show ?thesis using c that by blast
qed

lemma bold_match_Some:
  assumes "bold_match s = Some (rep, k)"
  obtains body r where "s = 42 # 42 # body @ 42 # 42 # r" "k = length body + 3"
    "rep = jl ''<strong>'' @ body @ jl ''</strong>''"
proof -
  obtain d cs where s: "s = 42 # 42 # cs"
    and m: "prefix [42, 42] (dropWhile (\<lambda>d. d \<noteq> 42) cs)" "k = length (takeWhile (\<lambda>d. d \<noteq> 42) cs) + 3"
      "rep = jl ''<strong>'' @ takeWhile (\<lambda>d. d \<noteq> 42) cs @ jl ''</strong>''"
    using assms by (auto simp: bold_match_def Let_def split: list.splits if_splits)
  obtain r where "dropWhile (\<lambda>d. d \<noteq> 42) cs = 42 # 42 # r"
    using m(1) by (auto dest!: prefix_Cons_dest)
  then have "cs = takeWhile (\<lambda>d. d \<noteq> 42) cs @ 42 # 42 # r"
    by (metis takeWhile_dropWhile_id)
  with s m that show ?thesis by metis
qed

lemma link_match_Some:
  assumes "link_match s = Some (rep, k)"
  obtains label url r where "s = 91 # label @ 93 # 40 # url @ 41 # r" "k = length label + length url + 3"
    "rep = anchor_open url @ label @ jl ''</a>''"
proof -
  define label where "label = (\<lambda>cs :: js. takeWhile (\<lambda>d. d \<noteq> 93) cs)"
  obtain cs where s: "s = 91 # cs"
    using assms by (cases s) (auto simp: link_match_def Let_def split: if_splits)
  define l where "l = takeWhile (\<lambda>d. d \<noteq> 93) cs"
  define r where "r = dropWhile (\<lambda>d. d \<noteq> 93) cs"
  define u where "u = takeWhile (\<lambda>d. d \<noteq> 41) (drop 2 r)"
  have m: "prefix [93, 40] r" "prefix [41] (drop (length u + 2) r)"
    "k = length l + length u + 3" "rep = anchor_open u @ l @ jl ''</a>''"
    using assms s by (auto simp: link_match_def Let_def l_def r_def u_def simp del: drop_drop split: if_splits)
  obtain r2 where r2: "r = 93 # 40 # r2" using m(1) by (auto dest!: prefix_Cons_dest)
  then have u: "u = takeWhile (\<lambda>d. d \<noteq> 41) r2" by (simp add: u_def)
  have "prefix [41] (dropWhile (\<lambda>d. d \<noteq> 41) r2)"
    using m(2) r2 u by (simp add: eval_nat_numeral)
  then obtain r3 where "dropWhile (\<lambda>d. d \<noteq> 41) r2 = 41 # r3" by (auto dest!: prefix_Cons_dest)
  then have "r2 = u @ 41 # r3" using u by (metis takeWhile_dropWhile_id)
  moreover have "cs = l @ r" by (simp add: l_def r_def)
  ultimately have "s = 91 # l @ 93 # 40 # u @ 41 # r3" using s r2 by simp
  then show ?thesis using m that by blast
qed

lemma tag_units:
  "\<forall>t \<in> code_tags. 96 \<notin> set t \<and> 42 \<notin> set t"
  "\<forall>t \<in> inline_tags. 42 \<notin> set t \<and> 91 \<notin> set t \<and> 93 \<notin> set t \<and> 40 \<notin> set t \<and> 41 \<notin> set t"
  by (simp_all add: code_tags_def inline_tags_def)

interpretation code_pass: markup_pass code_match 96 "{}" code_tags
proof
  fix s rep k
  assume s: "frag {} s" and m: "code_match s = Some (rep, k)"
  obtain body r where b: "s = 96 # body @ 96 # r" "k = length body + 1"
    "rep = jl ''<code>'' @ body @ jl ''</code>''" using m by (rule code_match_Some)
  have "frag {} (body @ 96 # r)" using frag_split [of "{}" 96 "[]" "body @ 96 # r"] s b by simp
  then have "frag {} body" "frag {} r" using frag_split [of "{}" 96 body r] by simp_all
  then show "frag code_tags rep \<and> frag {} (drop (Suc k) s)"
    using b by (auto simp: code_tags_def simp del: list.map intro: frag_mono)
qed (auto simp: code_match_def Let_def split: if_splits)

interpretation bold_pass: markup_pass bold_match 42 code_tags inline_tags
proof
  fix s rep k
  assume s: "frag code_tags s" and m: "bold_match s = Some (rep, k)"
  obtain body r where b: "s = 42 # 42 # body @ 42 # 42 # r" "k = length body + 3"
    "rep = jl ''<strong>'' @ body @ jl ''</strong>''" using m by (rule bold_match_Some)
  have t: "\<forall>t \<in> code_tags. 42 \<notin> set t" using tag_units by blast
  have "frag code_tags (body @ 42 # 42 # r)"
    using frag_split [OF t, of "[42]" "body @ 42 # 42 # r"] s b by simp
  then have "frag code_tags body" "frag code_tags (42 # r)"
    using frag_split [OF t, of body "42 # r"] by simp_all
  moreover from this have "frag code_tags r" using frag_split [OF t, of "[]" r] by simp
  ultimately show "frag inline_tags rep \<and> frag code_tags (drop (Suc k) s)"
    using b by (auto simp: inline_tags_def eval_nat_numeral simp del: list.map intro: frag_mono)
next
  show "t \<in> code_tags \<Longrightarrow> 42 \<notin> set t" for t using tag_units by blast
qed (auto simp: bold_match_def inline_tags_def Let_def split: if_splits list.splits)

interpretation link_pass: markup_pass link_match 91 inline_tags anchor_tags
proof
  fix s rep k
  assume s: "frag inline_tags s" and m: "link_match s = Some (rep, k)"
  obtain label url r where b: "s = 91 # label @ 93 # 40 # url @ 41 # r"
    "k = length label + length url + 3" "rep = anchor_open url @ label @ jl ''</a>''"
    using m by (rule link_match_Some)
  have t: "\<forall>t \<in> inline_tags. 93 \<notin> set t" "\<forall>t \<in> inline_tags. 40 \<notin> set t" "\<forall>t \<in> inline_tags. 41 \<notin> set t"
    "\<forall>t \<in> inline_tags. 91 \<notin> set t" using tag_units by blast+
  have 1: "frag inline_tags (label @ 93 # 40 # url @ 41 # r)"
    using frag_split [OF t(4), of "[]"] s b by simp
  have 2: "frag inline_tags label" "frag inline_tags (40 # url @ 41 # r)"
    using frag_split [OF t(1) 1] by simp_all
  have 3: "frag inline_tags (url @ 41 # r)" using frag_split [OF t(2), of "[]"] 2 by simp
  have 4: "frag inline_tags url" "frag inline_tags r" using frag_split [OF t(3) 3] by simp_all
  have "anchor_open url \<in> anchor_tags" "jl ''</a>'' \<in> anchor_tags"
    using 4 by (auto simp: anchor_tags_def)
  then have "frag anchor_tags rep"
    unfolding b(3) using 2(1) by (auto simp: anchor_tags_def simp del: list.map intro: frag_mono)
  with 4 b show "frag anchor_tags rep \<and> frag inline_tags (drop (Suc k) s)"
    by (simp add: eval_nat_numeral)
next
  show "t \<in> inline_tags \<Longrightarrow> 91 \<notin> set t" for t using tag_units by blast
qed (auto simp: link_match_def anchor_tags_def Let_def split: if_splits list.splits)

lemma frag_inline: "frag anchor_tags (inline t)"
proof -
  have "frag {} (esc t)" by simp
  then show ?thesis
    unfolding inline_def by (intro link_pass.frag_replace bold_pass.frag_replace code_pass.frag_replace)
qed

subsection \<open>The document is inert\<close>

definition block_names :: "string list" where
  "block_names = [''h3'', ''h4'', ''h5'', ''h6'', ''ul'', ''li'', ''blockquote'', ''p'', ''pre'']"

definition open_tag :: "string \<Rightarrow> js" where
  "open_tag n = jl (''<'' @ n @ ''>'')"

definition close_tag :: "string \<Rightarrow> js" where
  "close_tag n = jl (''</'' @ n @ ''>'')"

definition doc_tags :: "js set" where
  "doc_tags = anchor_tags \<union> open_tag ` set block_names \<union> close_tag ` set block_names"

lemma wrap_tags: "wrap n t = open_tag n @ t @ close_tag n"
  by (simp only: wrap_def open_tag_def close_tag_def)

lemma frag_wrap: "n \<in> set block_names \<Longrightarrow> frag anchor_tags t \<Longrightarrow> frag doc_tags (wrap n t)"
  unfolding wrap_tags doc_tags_def
  by (intro frag_append) (auto elim: frag_mono)

lemma block_literals:
  "jl ''<ul>'' = open_tag ''ul''" "jl ''</ul>'' = close_tag ''ul''"
  "jl ''<pre>'' = open_tag ''pre''" "jl ''</pre>'' = close_tag ''pre''"
  by (simp_all add: open_tag_def close_tag_def)

lemma frag_block: "n \<in> set block_names \<Longrightarrow> frag doc_tags (open_tag n) \<and> frag doc_tags (close_tag n)"
  by (auto simp: doc_tags_def)

lemma heading_level: "heading_match ln = Some (n, t) \<Longrightarrow> heading_tag n \<in> {''h3'', ''h4'', ''h5'', ''h6''}"
proof -
  assume "heading_match ln = Some (n, t)"
  then have "n = 1 \<or> n = 2 \<or> n = 3 \<or> n = 4"
    by (auto simp: heading_match_def Let_def split: if_splits)
  moreover have "heading_tag 1 = ''h3''" "heading_tag 2 = ''h4''" "heading_tag 3 = ''h5''" "heading_tag 4 = ''h6''"
    by code_simp+
  ultimately show ?thesis by auto
qed

definition chunks_ok :: "js list \<Rightarrow> bool" where
  "chunks_ok cs \<longleftrightarrow> (\<forall>c \<in> set cs. frag doc_tags c)"

lemma chunks_ok_simps [simp]:
  "chunks_ok []" "chunks_ok (a @ b) \<longleftrightarrow> chunks_ok a \<and> chunks_ok b"
  "chunks_ok (c # cs) \<longleftrightarrow> frag doc_tags c \<and> chunks_ok cs"
  "chunks_ok (close_ul ul)" "chunks_ok (open_ul ul)"
  using frag_block [of "''ul''"]
  by (auto simp: chunks_ok_def close_ul_def open_ul_def block_literals block_names_def simp del: list.map)

lemma chunk_frags:
  "frag doc_tags (jl ''<pre>'')" "frag doc_tags (jl ''</pre>'')"
  "frag doc_tags (wrap ''li'' (inline t))" "frag doc_tags (wrap ''p'' (inline t))"
  "frag doc_tags (wrap ''blockquote'' (inline t))" "frag doc_tags (esc t @ [10])"
  "heading_match ln = Some (n, t) \<Longrightarrow> frag doc_tags (wrap (heading_tag n) (inline t))"
  using frag_block [of "''pre''"] heading_level [of ln n t]
  by (auto simp: block_literals block_names_def safe_unit_def simp del: list.map intro!: frag_wrap frag_inline frag_unit)

lemma md_step_ok: "chunks_ok (fst st) \<Longrightarrow> chunks_ok (fst (md_step st ln))"
  by (cases st)
     (auto simp: md_step_def chunk_frags simp del: list.map map_append split: option.split)

lemma foldl_invariant:
  assumes "P s" and "\<And>s x. P s \<Longrightarrow> P (f s x)"
  shows "P (foldl f s xs)"
  using assms(1) by (induction xs arbitrary: s) (auto intro: assms(2))

text \<open>
  C34. The renderer is inert: whatever the Markdown text, the produced HTML consists of escaped
  text (no quote and no angle bracket in it) and of the renderer's own tags; the only tag with
  an attribute is the anchor, whose address cannot close the attribute.
\<close>

theorem md_to_html_inert: "frag doc_tags (md_to_html md)"
proof -
  have "chunks_ok (fst (foldl md_step ([], False, False) (split_on 10 md)))"
    by (rule foldl_invariant) (simp_all add: md_step_ok)
  then have "chunks_ok (md_chunks md)"
    by (auto simp: md_chunks_def chunk_frags simp del: list.map split: prod.split)
  then show ?thesis
    unfolding md_to_html_def by (intro frag_concat) (simp add: chunks_ok_def)
qed

subsection \<open>Block tags nest\<close>

text \<open>Replaying the chunks: which of \<open><ul>\<close> and \<open><pre>\<close> is open; \<open>None\<close> is a nesting error.\<close>

definition block_step :: "bool \<times> bool \<Rightarrow> js \<Rightarrow> (bool \<times> bool) option" where
  "block_step st ch = (case st of (ul, pre) \<Rightarrow>
     if pre then
       (if ch = jl ''</pre>'' then Some (ul, False) else if list_all safe_unit ch then Some st else None)
     else if ch = jl ''<ul>'' then (if ul then None else Some (True, pre))
     else if ch = jl ''</ul>'' then (if ul then Some (False, pre) else None)
     else if ch = jl ''<pre>'' then (if ul then None else Some (ul, True))
     else if prefix (jl ''</'') ch then None
     else if prefix (jl ''<li>'') ch then (if ul then Some st else None)
     else if ul then None else Some st)"

fun block_run :: "bool \<times> bool \<Rightarrow> js list \<Rightarrow> (bool \<times> bool) option" where
  "block_run st [] = Some st"
| "block_run st (c # cs) = (case block_step st c of None \<Rightarrow> None | Some st' \<Rightarrow> block_run st' cs)"

lemma block_run_append:
  "block_run st (a @ b) = (case block_run st a of None \<Rightarrow> None | Some st' \<Rightarrow> block_run st' b)"
  by (induction a arbitrary: st) (auto split: option.split)

lemma block_step_literals [simp]:
  "block_step (False, False) (jl ''<ul>'') = Some (True, False)"
  "block_step (True, False) (jl ''</ul>'') = Some (False, False)"
  "block_step (False, False) (jl ''<pre>'') = Some (False, True)"
  "block_step (False, True) (jl ''</pre>'') = Some (False, False)"
  "block_step (True, False) (wrap ''li'' t) = Some (True, False)"
  "block_step (False, False) (wrap ''p'' t) = Some (False, False)"
  "block_step (False, False) (wrap ''blockquote'' t) = Some (False, False)"
  "block_step (False, True) (esc t @ [10]) = Some (False, True)"
  by (simp_all add: block_step_def wrap_def safe_unit_def list_all_iff esc_safe [unfolded safe_unit_def])

lemma block_step_heading:
  "heading_match ln = Some (n, t) \<Longrightarrow> block_step (False, False) (wrap (heading_tag n) u) = Some (False, False)"
  by (drule heading_level) (auto simp: block_step_def wrap_def)

definition md_inv :: "md_state \<Rightarrow> bool" where
  "md_inv st = (case st of (html, ul, pre) \<Rightarrow>
     block_run (False, False) html = Some (ul, pre) \<and> \<not> (ul \<and> pre))"

lemma block_run_close_ul [simp]:
  "block_run (ul, False) (close_ul ul @ cs) = block_run (False, False) cs"
  by (simp add: close_ul_def del: list.map)

lemma block_run_open_ul [simp]:
  "block_run (ul, False) (open_ul ul @ cs) = block_run (True, False) cs"
  by (simp add: open_ul_def del: list.map)

lemma md_inv_close:
  assumes "md_inv (html, ul, False)"
  shows "md_inv (html @ close_ul ul, False, False)"
    and "md_inv (html @ close_ul ul @ [jl ''<pre>''], False, True)"
    and "block_step (False, False) c = Some (False, False) \<Longrightarrow> md_inv (html @ close_ul ul @ [c], False, False)"
    and "block_step (True, False) c = Some (True, False) \<Longrightarrow> md_inv (html @ open_ul ul @ [c], True, False)"
  using assms block_run_close_ul [of ul "[]"] block_run_open_ul [of ul "[]"]
  by (simp_all add: md_inv_def block_run_append del: list.map)

lemma md_inv_code:
  assumes "md_inv (html, ul, True)"
  shows "md_inv (html @ [jl ''</pre>''], ul, False)" and "md_inv (html @ [esc ln @ [10]], ul, True)"
  using assms by (cases ul; simp add: md_inv_def block_run_append del: list.map)+

lemma md_step_inv:
  assumes "md_inv st" shows "md_inv (md_step st ln)"
proof -
  obtain html ul pre where st: "st = (html, ul, pre)" by (cases st)
  show ?thesis
  proof (cases pre)
    case True
    with assms show ?thesis
      by (simp add: st md_step_def md_inv_code del: list.map)
  next
    case False
    with assms have inv: "md_inv (html, ul, False)" by (simp add: st)
    show ?thesis
      using False
      by (simp add: st md_step_def md_inv_close [OF inv] block_step_heading del: list.map split: option.split)
  qed
qed

text \<open>
  The block structure is well formed: lists and code blocks are opened and closed in turn,
  never inside one another; list items stand only inside a list, headings, quotes and paragraphs
  only outside; code blocks hold nothing but escaped text; and at the end everything is closed.
\<close>

theorem md_blocks_balanced: "block_run (False, False) (md_chunks md) = Some (False, False)"
proof -
  obtain html ul pre where st: "foldl md_step ([], False, False) (split_on 10 md) = (html, ul, pre)"
    by (metis prod_cases3)
  have "md_inv (foldl md_step ([], False, False) (split_on 10 md))"
    by (rule foldl_invariant) (simp_all only: md_step_inv, simp add: md_inv_def)
  then have inv: "md_inv (html, ul, pre)" by (simp only: st)
  show ?thesis
  proof (cases pre)
    case True
    with inv md_inv_code(1) [of html ul] show ?thesis
      by (cases ul) (auto simp: md_chunks_def st md_inv_def close_ul_def simp del: list.map)
  next
    case False
    with inv md_inv_close(1) [of html ul] show ?thesis
      by (simp add: md_chunks_def st md_inv_def del: list.map)
  qed
qed

text \<open>A link address may use any scheme: escaping does not look at it.\<close>

lemma md_link_keeps_javascript_scheme:
  "md_to_html (jl ''[x](javascript:run%28%29)'') =
     jl ''<p>'' @ anchor_open (jl ''javascript:run%28%29'') @ jl ''x</a></p>''"
  by (simp add: md_to_html_def md_chunks_def md_step_def fence_def heading_match_def bullet_match_def
      ordered_match_def quote_match_def js_space_def js_digit_def close_ul_def inline_def esc_def
      esc_unit_def code_match_def bold_match_def link_match_def wrap_def Let_def)

end
