(* ===== verification/Web_Shell.thy ===== *)
theory Web_Shell
  imports Web_Markdown
begin

text \<open>
  The shell of the web console (\<open>internal/mcp/webui/nav.js\<close>): the navigation table and its
  visibility rules, the sidebar's markup, the profile menu, the password form, the request
  headers, the guide dialogs, and \<open>mount\<close>, which ties them together on the page. The page is
  the record \<open>shell\<close>: what the code reads and writes of the document and of \<open>window\<close>. A missing
  JavaScript string is the empty one where the code only tests truthiness.
\<close>

subsection \<open>Payload of \<open>/auth/me\<close>\<close>

record user_info =
  ui_username :: js
  ui_display :: js
  ui_email :: js
  ui_role :: js
  ui_provider :: js

record me_info =
  me_auth_enabled :: bool
  me_authenticated :: bool
  me_user :: "user_info option"
  me_version :: js

definition standalone :: me_info where
  "standalone = \<lparr>me_auth_enabled = False, me_authenticated = False, me_user = None, me_version = []\<rparr>"

subsection \<open>The navigation table\<close>

datatype show_rule = Show_Always | Show_Auth | Show_Admin | Show_Dba

record nav_item =
  ni_key :: js
  ni_href :: "js option"
  ni_icon :: js
  ni_label :: js
  ni_show :: show_rule
  ni_target :: "js option"
  ni_onboarding :: bool

record nav_group =
  ng_title :: js
  ng_items :: "nav_item list"

definition nav_link :: "js \<Rightarrow> js \<Rightarrow> js \<Rightarrow> js \<Rightarrow> show_rule \<Rightarrow> nav_item" where
  "nav_link k h i l s = \<lparr>ni_key = k, ni_href = Some h, ni_icon = i, ni_label = l, ni_show = s,
     ni_target = None, ni_onboarding = False\<rparr>"

definition nav_onboarding :: "js \<Rightarrow> js \<Rightarrow> js \<Rightarrow> nav_item" where
  "nav_onboarding k i l = \<lparr>ni_key = k, ni_href = None, ni_icon = i, ni_label = l, ni_show = Show_Always,
     ni_target = None, ni_onboarding = True\<rparr>"

text \<open>Korean labels and icons are given by their code units.\<close>

definition groups :: "nav_group list" where
  "groups =
   [\<lparr>ng_title = [51089, 50629],
      ng_items =
       [nav_link (jl ''ask'') (jl ''/admin/ask'') ([55357, 56492]) ([51656, 51032]) Show_Always,
        nav_link (jl ''history'') (jl ''/admin/history'') ([55357, 56664]) ([45236] @ jl '' '' @ [51060, 47141]) Show_Auth,
        nav_link (jl ''stats'') (jl ''/admin/stats'') ([55357, 56522]) ([53685, 44228]) Show_Auth,
        nav_link (jl ''datasets'') (jl ''/admin'') ([55357, 56770]) ([45936, 51060, 53552, 49483]) Show_Always,
        nav_link (jl ''editor'') (jl ''/admin/editor'') ([9999, 65039]) ([53580, 51060, 48660] @ jl '' '' @ [54200, 51665]) Show_Always,
        nav_link (jl ''db'') (jl ''/admin/db'') ([55357, 56588]) (jl ''DB '' @ [183] @ jl '' '' @ [53244, 47532]) Show_Always,
        nav_link (jl ''dba'') (jl ''/admin/dba'') ([55358, 56954]) (jl ''DBA '' @ [53076, 54028, 51068, 47103]) Show_Always,
        nav_link (jl ''dba-console'') (jl ''/admin/dba-console'') ([55357, 57058]) (jl ''DBA '' @ [53080, 49556]) Show_Dba,
        nav_link (jl ''reviews'') (jl ''/admin/reviews'') ([55358, 56830]) ([47700, 53440] @ jl '' '' @ [44160, 53664]) Show_Always]\<rparr>,
    \<lparr>ng_title = [44288, 47532],
      ng_items =
       [nav_link (jl ''quality'') (jl ''/admin/quality'') ([55357, 56520]) ([47700, 53440] @ jl '' '' @ [54408, 51656]) Show_Always,
        nav_link (jl ''openmetadata'') (jl ''/admin/openmetadata'') ([55357, 56599]) (jl ''OpenMetadata'') Show_Always,
        nav_link (jl ''profcat'') (jl ''/admin/profile-catalogs'') ([55357, 56771]) ([54532, 47196, 54028, 51068] @ jl '' '' @ [52852, 53448, 47196, 44536]) Show_Always,
        nav_link (jl ''users'') (jl ''/admin/users'') ([55357, 56421]) ([49324, 50857, 51088]) Show_Admin,
        nav_link (jl ''settings'') (jl ''/admin/settings'') ([9881, 65039]) ([49436, 48260] @ jl '' '' @ [49444, 51221]) Show_Admin,
        nav_link (jl ''keys'') (jl ''/admin/keys'') ([55357, 56593]) (jl ''MCP '' @ [53412]) Show_Auth]\<rparr>,
    \<lparr>ng_title = [47928, 49436],
      ng_items =
       [nav_onboarding (jl ''onboarding'') ([55357, 56534]) ([50728, 48372, 46377] @ jl '' '' @ [44032, 51060, 46300]),
        (nav_link (jl ''docs'') (jl ''/docs'') ([55357, 56536]) (jl ''API '' @ [47928, 49436]) Show_Always) \<lparr>ni_target := Some (jl ''_blank'')\<rparr>]\<rparr>]"

definition role_of :: "me_info \<Rightarrow> js" where
  "role_of me =
     (if me_auth_enabled me \<and> me_authenticated me
      then (case me_user me of Some u \<Rightarrow> ui_role u | None \<Rightarrow> []) else [])"

fun show_item :: "me_info \<Rightarrow> show_rule \<Rightarrow> bool" where
  "show_item me Show_Dba \<longleftrightarrow>
     role_of me = jl ''admin'' \<or> role_of me = jl ''dba'' \<or> \<not> me_auth_enabled me"
| "show_item me Show_Always \<longleftrightarrow> True"
| "show_item me Show_Auth \<longleftrightarrow> me_auth_enabled me"
| "show_item me Show_Admin \<longleftrightarrow> role_of me = jl ''admin''"

text \<open>The groups as rendered: hidden items dropped, then groups without items.\<close>

definition visible_groups :: "me_info \<Rightarrow> nav_group list" where
  "visible_groups me =
     filter (\<lambda>g. ng_items g \<noteq> [])
       (map (\<lambda>g. g \<lparr>ng_items := filter (\<lambda>it. show_item me (ni_show it)) (ng_items g)\<rparr>) groups)"

definition visible_keys :: "me_info \<Rightarrow> js list" where
  "visible_keys me = map ni_key (concat (map ng_items (visible_groups me)))"

subsection \<open>Markup of the sidebar\<close>

definition attr :: "string \<Rightarrow> js \<Rightarrow> js" where
  "attr n v = 32 # jl n @ [61, 34] @ v @ [34]"

definition brand_html :: js where
  "brand_html = jl ''<a'' @ attr ''class'' (jl ''jbrand'') @ attr ''href'' (jl ''/'') @ jl ''><img''
     @ attr ''src'' (jl ''/admin/logo-transparent.png'')
     @ attr ''style'' (jl ''width:24px;height:24px;object-fit:contain;border-radius:4px;'')
     @ jl ''/> jamypg</a><nav>''"

definition item_body :: "nav_item \<Rightarrow> js" where
  "item_body it = jl ''<span'' @ attr ''class'' (jl ''ic'') @ jl ''>'' @ ni_icon it
     @ jl ''</span><span>'' @ esc (ni_label it) @ jl ''</span></a>''"

definition item_html :: "js \<Rightarrow> nav_item \<Rightarrow> js" where
  "item_html cur it =
     (if ni_onboarding it
      then jl ''<a'' @ attr ''class'' (jl ''jlink'') @ attr ''href'' (jl ''#'')
        @ attr ''data-onboarding'' (jl ''1'') @ jl ''>'' @ item_body it
      else jl ''<a'' @ attr ''class'' (jl ''jlink'' @ (if ni_key it = cur then jl '' active'' else []))
        @ attr ''href'' (case ni_href it of Some h \<Rightarrow> h | None \<Rightarrow> jl ''undefined'')
        @ (case ni_target it of Some t \<Rightarrow> attr ''target'' t | None \<Rightarrow> []) @ jl ''>'' @ item_body it)"

definition group_html :: "js \<Rightarrow> nav_group \<Rightarrow> js" where
  "group_html cur g = jl ''<div'' @ attr ''class'' (jl ''jgrp'') @ jl ''>'' @ esc (ng_title g) @ jl ''</div>''
     @ concat (map (item_html cur) (ng_items g))"

definition standalone_note :: js where
  "standalone_note = jl '' '' @ [183] @ jl '' '' @ [45800, 46021] @ jl '' '' @ [47784, 46300]"

definition foot_html :: "me_info \<Rightarrow> js" where
  "foot_html me = jl ''<div'' @ attr ''class'' (jl ''jfoot'') @ jl ''>jamypg ''
     @ esc (if me_version me \<noteq> [] then jl ''v'' @ me_version me else [])
     @ (if me_auth_enabled me then [] else standalone_note) @ jl ''</div>''"

definition sidebar_html :: "me_info \<Rightarrow> js \<Rightarrow> js" where
  "sidebar_html me cur =
     brand_html @ concat (map (group_html cur) (visible_groups me)) @ jl ''</nav>'' @ foot_html me"

text \<open>The links that carry the class \<open>active\<close>.\<close>

definition active_links :: "me_info \<Rightarrow> js \<Rightarrow> nav_item list" where
  "active_links me cur = filter (\<lambda>it. \<not> ni_onboarding it \<and> ni_key it = cur)
     (concat (map ng_items (visible_groups me)))"

subsection \<open>Visibility\<close>

definition always_keys :: "js list" where
  "always_keys = [jl ''ask'', jl ''datasets'', jl ''editor'', jl ''db'', jl ''dba'', jl ''reviews'',
     jl ''quality'', jl ''openmetadata'', jl ''profcat'', jl ''onboarding'', jl ''docs'']"

definition auth_keys :: "js list" where
  "auth_keys = [jl ''history'', jl ''stats'', jl ''keys'']"

definition admin_keys :: "js list" where
  "admin_keys = [jl ''users'', jl ''settings'']"

definition all_items :: "nav_item list" where
  "all_items = concat (map ng_items groups)"

lemma visible_items_filter:
  "concat (map ng_items (filter (\<lambda>g. ng_items g \<noteq> []) (map (\<lambda>g. g \<lparr>ng_items := filter P (ng_items g)\<rparr>) gs)))
   = filter P (concat (map ng_items gs))"
  by (induction gs) (auto simp: filter_concat)

lemma visible_items:
  "concat (map ng_items (visible_groups me)) = filter (\<lambda>it. show_item me (ni_show it)) all_items"
  by (simp only: visible_groups_def all_items_def visible_items_filter)

text \<open>The table as key, rule, whether it is a link.\<close>

definition item_rules :: "(js \<times> show_rule \<times> bool) list" where
  "item_rules = map (\<lambda>it. (ni_key it, ni_show it, \<not> ni_onboarding it)) all_items"

lemma item_rules_table:
  "item_rules =
    [(jl ''ask'', Show_Always, True), (jl ''history'', Show_Auth, True), (jl ''stats'', Show_Auth, True),
     (jl ''datasets'', Show_Always, True), (jl ''editor'', Show_Always, True), (jl ''db'', Show_Always, True),
     (jl ''dba'', Show_Always, True), (jl ''dba-console'', Show_Dba, True), (jl ''reviews'', Show_Always, True),
     (jl ''quality'', Show_Always, True), (jl ''openmetadata'', Show_Always, True),
     (jl ''profcat'', Show_Always, True), (jl ''users'', Show_Admin, True), (jl ''settings'', Show_Admin, True),
     (jl ''keys'', Show_Auth, True), (jl ''onboarding'', Show_Always, False), (jl ''docs'', Show_Always, True)]"
  by (simp add: item_rules_def all_items_def groups_def nav_link_def nav_onboarding_def)

lemma visible_keys_rules:
  "visible_keys me = map fst (filter (\<lambda>(k, r, l). show_item me r) item_rules)"
  by (simp add: visible_keys_def visible_items item_rules_def filter_map comp_def)

lemma distinct_keys: "distinct (map fst item_rules)"
  by (simp add: item_rules_table)

lemma length_filter_unique:
  "distinct (map f xs) \<Longrightarrow>
     length (filter (\<lambda>x. P x \<and> f x = k) xs) = (if \<exists>x \<in> set xs. P x \<and> f x = k then 1 else 0)"
proof (induction xs)
  case (Cons x xs)
  show ?case
  proof (cases "f x = k")
    case True
    with Cons.prems have "\<forall>y \<in> set xs. f y \<noteq> k" by (auto simp: image_iff)
    then have "filter (\<lambda>y. P y \<and> f y = k) xs = []" by (auto simp: filter_empty_conv)
    with True Cons.prems show ?thesis by (auto simp: image_iff)
  next
    case False
    with Cons show ?thesis by auto
  qed
qed simp

definition keys_of :: "show_rule \<Rightarrow> js list" where
  "keys_of r = map fst (filter (\<lambda>(k, r', l). r' = r) item_rules)"

lemma keys_of_table:
  "keys_of Show_Always = always_keys" "keys_of Show_Auth = auth_keys"
  "keys_of Show_Admin = admin_keys" "keys_of Show_Dba = [jl ''dba-console'']"
  by (simp_all add: keys_of_def item_rules_table always_keys_def auth_keys_def admin_keys_def)

lemma ex_show_rule:
  "(\<exists>r. P r) \<longleftrightarrow> P Show_Always \<or> P Show_Auth \<or> P Show_Admin \<or> P Show_Dba"
proof
  assume "\<exists>r. P r"
  then obtain r where "P r" ..
  then show "P Show_Always \<or> P Show_Auth \<or> P Show_Admin \<or> P Show_Dba" by (cases r) simp_all
qed auto

lemma visible_by_rule: "k \<in> set (visible_keys me) \<longleftrightarrow> (\<exists>r. show_item me r \<and> k \<in> set (keys_of r))"
  unfolding visible_keys_rules keys_of_def by force

text \<open>
  Who sees what: the eleven common pages are always listed; history, statistics and keys
  exactly when accounts are enabled; the user and server settings pages exactly for a signed-in
  administrator; the DBA console for administrators, DBAs, and on a stand-alone server.
\<close>

theorem sidebar_visibility:
  "k \<in> set (visible_keys me) \<longleftrightarrow>
     k \<in> set always_keys \<or>
     me_auth_enabled me \<and> k \<in> set auth_keys \<or>
     role_of me = jl ''admin'' \<and> k \<in> set admin_keys \<or>
     (if me_auth_enabled me then role_of me \<in> {jl ''admin'', jl ''dba''} else True) \<and> k = jl ''dba-console''"
proof -
  have "(\<exists>r. show_item me r \<and> k \<in> set (keys_of r)) \<longleftrightarrow>
      show_item me Show_Always \<and> k \<in> set (keys_of Show_Always) \<or>
      show_item me Show_Auth \<and> k \<in> set (keys_of Show_Auth) \<or>
      show_item me Show_Admin \<and> k \<in> set (keys_of Show_Admin) \<or>
      show_item me Show_Dba \<and> k \<in> set (keys_of Show_Dba)"
    by (rule ex_show_rule)
  then show ?thesis
    unfolding visible_by_rule keys_of_table
    by (cases "me_auth_enabled me")
       (simp_all only: show_item.simps list.set insert_iff empty_iff simp_thms disj_assoc if_True if_False)
qed

text \<open>
  The current page is highlighted once: exactly one link of the sidebar is active when the
  page's key is visible and is not the onboarding entry, otherwise none is.
\<close>

theorem sidebar_one_active:
  "length (active_links me cur) =
     (if cur \<in> set (visible_keys me) \<and> cur \<noteq> jl ''onboarding'' then 1 else 0)"
proof -
  define ob where "ob = jl ''onboarding''"
  have dist: "distinct (map ni_key all_items)"
    using distinct_keys by (simp add: item_rules_def comp_def)
  have onb: "\<forall>it \<in> set all_items. ni_onboarding it \<longleftrightarrow> ni_key it = ob"
  proof -
    have "\<forall>(k, r, l) \<in> set item_rules. \<not> l \<longleftrightarrow> k = ob"
      by (simp add: item_rules_table ob_def)
    then show ?thesis by (simp add: item_rules_def)
  qed
  have "active_links me cur =
      filter (\<lambda>it. (show_item me (ni_show it) \<and> \<not> ni_onboarding it) \<and> ni_key it = cur) all_items"
    unfolding active_links_def visible_items by (simp add: conj_ac)
  then have "length (active_links me cur) =
      (if \<exists>it \<in> set all_items. (show_item me (ni_show it) \<and> \<not> ni_onboarding it) \<and> ni_key it = cur
       then 1 else 0)"
    by (simp only: length_filter_unique [OF dist, of "\<lambda>it. show_item me (ni_show it) \<and> \<not> ni_onboarding it"])
  moreover have "set (visible_keys me) = {ni_key it |it. it \<in> set all_items \<and> show_item me (ni_show it)}"
    unfolding visible_keys_def visible_items by auto
  ultimately have "length (active_links me cur) = (if cur \<in> set (visible_keys me) \<and> cur \<noteq> ob then 1 else 0)"
    using onb by auto
  then show ?thesis unfolding ob_def .
qed

end
