(* ===== verification/Web_Texts.thy ===== *)
theory Web_Texts
  imports Web_Markdown
begin

text \<open>
  The constant texts of \<open>internal/mcp/webui/nav.js\<close>: the rules of the shell's style sheet, in the
  order and with the line breaks of the array they are joined from, and the guides of the
  console's pages (\<open>GUIDES\<close>), which the header's guide button renders with \<open>mdToHtml\<close>. Characters
  outside the plain ASCII range are given by their UTF-16 code units.
\<close>

subsection \<open>Style sheet\<close>

text \<open>\<open>SBW\<close>, the sidebar's width in pixels.\<close>

definition sidebar_width :: js where
  "sidebar_width = jl ''224''"

definition style_page :: "js list" where
  "style_page =
    [jl '':root{--jsb-w:'' @ sidebar_width @ jl ''px;--jsb-bg:#0d1626;--jsb-bg2:#111f38;--jsb-ink:#e8eefc;--jsb-sub:#8fa3c4;--jsb-active:#25''
     @ jl ''63eb;}'',
     jl ''body{padding-left:var(--jsb-w);transition:padding-left .18s ease;}'',
     jl ''@media(max-width:860px){body{padding-left:0;}}'']"

definition style_sidebar :: "js list" where
  "style_sidebar =
    [jl ''.jsb{position:fixed;top:0;left:0;width:var(--jsb-w);height:100vh;background:linear-gradien''
     @ jl ''t(180deg,#0d1626,#0f1c33);'',
     jl ''  color:var(--jsb-ink);display:flex;flex-direction:column;z-index:60;border-right:1px soli''
     @ jl ''d #1e2f4d;transition:transform .18s ease;}'',
     jl ''.jsb .jbrand{display:flex;align-items:center;gap:9px;padding:16px 18px;font-size:17px;font''
     @ jl ''-weight:800;color:#fff;text-decoration:none;letter-spacing:.3px;}'',
     jl ''.jsb .jbrand .dot{font-size:20px;}'',
     jl ''.jsb nav{flex:1;overflow-y:auto;padding:6px 10px;}'',
     jl ''.jsb .jgrp{margin:10px 4px 4px;font-size:11px;letter-spacing:.6px;text-transform:uppercase''
     @ jl '';color:var(--jsb-sub);}'',
     jl ''.jsb a.jlink{display:flex;align-items:center;gap:10px;padding:9px 12px;margin:2px 0;border''
     @ jl ''-radius:9px;color:#c6d4ec;'',
     jl ''  text-decoration:none;font-size:14px;line-height:1.2;}'',
     jl ''.jsb a.jlink .ic{width:20px;text-align:center;font-size:15px;}'',
     jl ''.jsb a.jlink:hover{background:#17294690;color:#fff;}'',
     jl ''.jsb a.jlink.active{background:var(--jsb-active);color:#fff;font-weight:700;box-shadow:0 2''
     @ jl ''px 10px rgba(37,99,235,.4);}'',
     jl ''.jsb .jfoot{padding:12px 16px;border-top:1px solid #1e2f4d;font-size:11.5px;color:var(--js''
     @ jl ''b-sub);}'']"

definition style_mobile :: "js list" where
  "style_mobile =
    [jl ''.jsb-toggle{display:none;position:fixed;top:10px;left:10px;z-index:70;background:#0d1626;c''
     @ jl ''olor:#fff;border:1px solid #35507f;'',
     jl ''  border-radius:8px;padding:7px 11px;font-size:16px;cursor:pointer;}'',
     jl ''@media(max-width:860px){.jsb{transform:translateX(-100%);} body.jsb-open .jsb{transform:tr''
     @ jl ''anslateX(0);} .jsb-toggle{display:block;}'',
     jl ''  header{padding-left:56px !important;}}'',
     jl ''.jsb-scrim{display:none;position:fixed;inset:0;background:rgba(3,8,18,.5);z-index:55;}'',
     jl ''body.jsb-open .jsb-scrim{display:block;}'']"

definition style_profile :: "js list" where
  "style_profile =
    [jl ''.jprofile{position:relative;}'',
     jl ''.jprofile>button.javatar{display:flex;align-items:center;gap:8px;background:#1d2b47;border''
     @ jl '':1px solid #35507f;color:#e8eefc;'',
     jl ''  border-radius:20px;padding:5px 12px 5px 6px;font-size:13px;cursor:pointer;}'',
     jl ''.jprofile>button.javatar:hover{background:#26375a;}'',
     jl ''.jprofile .jav{width:26px;height:26px;border-radius:50%;background:#2563eb;color:#fff;disp''
     @ jl ''lay:flex;align-items:center;justify-content:center;font-size:13px;font-weight:700;}'',
     jl ''.jmenu{position:absolute;right:0;top:calc(100% + 8px);width:250px;background:#fff;color:#1''
     @ jl ''c2430;border:1px solid #dde4ec;'',
     jl ''  border-radius:12px;box-shadow:0 12px 34px rgba(16,26,46,.22);overflow:hidden;display:non''
     @ jl ''e;z-index:80;}'',
     jl ''.jprofile.open .jmenu{display:block;}'',
     jl ''.jmenu .jmhead{padding:14px 16px;background:#f5f7fa;border-bottom:1px solid #eef1f5;}'',
     jl ''.jmenu .jmhead b{display:block;font-size:14px;}'',
     jl ''.jmenu .jmhead .jmsub{font-size:12px;color:#5b6b7f;margin-top:2px;word-break:break-all;}'',
     jl ''.jmenu button.jmitem{display:flex;width:100%;align-items:center;gap:10px;background:none;b''
     @ jl ''order:0;text-align:left;'',
     jl ''  padding:10px 16px;font-size:13.5px;color:#1c2430;cursor:pointer;}'',
     jl ''.jmenu button.jmitem:hover{background:#f2f6ff;}'',
     jl ''.jmenu button.jmitem.danger{color:#b91c1c;}'',
     jl ''.jmenu .jmsep{height:1px;background:#eef1f5;margin:4px 0;}'',
     jl ''.jmenu .jmfoot{padding:9px 16px;border-top:1px solid #eef1f5;font-size:11.5px;color:#8794a''
     @ jl ''8;background:#fafbfc;}'']"

definition style_modal :: "js list" where
  "style_modal =
    [jl ''.jmodal{position:fixed;inset:0;background:rgba(10,18,32,.5);display:none;align-items:cente''
     @ jl ''r;justify-content:center;z-index:90;}'',
     jl ''.jmodal.open{display:flex;}'',
     jl ''.jmodal .box{background:#fff;color:#1c2430;border-radius:14px;width:min(420px,92vw);paddin''
     @ jl ''g:22px 24px;box-shadow:0 20px 60px rgba(0,0,0,.3);}'',
     jl ''.jmodal h3{margin:0 0 4px;font-size:17px;}'',
     jl ''.jmodal p.sub{margin:0 0 14px;font-size:12.5px;color:#5b6b7f;}'',
     jl ''.jmodal label{display:block;font-size:12.5px;color:#5b6b7f;margin:10px 0 3px;}'',
     jl ''.jmodal input{width:100%;border:1px solid #dde4ec;border-radius:8px;padding:9px 11px;font-''
     @ jl ''size:14px;box-sizing:border-box;}'',
     jl ''.jmodal .acts{display:flex;justify-content:flex-end;gap:8px;margin-top:18px;}'',
     jl ''.jmodal .jb{border:1px solid #dde4ec;background:#fff;border-radius:8px;padding:8px 15px;fo''
     @ jl ''nt-size:13.5px;cursor:pointer;}'',
     jl ''.jmodal .jb.primary{background:#2563eb;border-color:#2563eb;color:#fff;font-weight:600;}'',
     jl ''.jmodal .msg{font-size:12.5px;margin-top:10px;min-height:16px;}'',
     jl ''.jmodal .msg.ok{color:#15803d;} .jmodal .msg.bad{color:#b91c1c;}'']"

definition style_guide :: "js list" where
  "style_guide =
    [jl ''button.jhelp{background:#1d2b47;border:1px solid #35507f;color:#cfe0ff;border-radius:8px;p''
     @ jl ''adding:6px 11px;font-size:13px;cursor:pointer;margin-left:6px;}'',
     jl ''button.jhelp:hover{background:#26375a;}'',
     jl ''.jmodal .box.guidebox{width:min(760px,94vw);max-height:86vh;display:flex;flex-direction:co''
     @ jl ''lumn;padding:0;}'',
     jl ''.jmodal .guidebox .ghead{display:flex;align-items:center;justify-content:space-between;pad''
     @ jl ''ding:14px 20px;border-bottom:1px solid #eef1f5;position:sticky;top:0;background:#fff;borde''
     @ jl ''r-radius:14px 14px 0 0;}'',
     jl ''.jmodal .guidebox .ghead h3{margin:0;}'',
     jl ''.jmodal .guidebox .gbody{padding:8px 22px 22px;overflow-y:auto;font-size:14px;line-height:''
     @ jl ''1.7;}'',
     jl ''.jmodal .gbody h2{font-size:16px;margin:16px 0 8px;} .jmodal .gbody h3{font-size:14px;marg''
     @ jl ''in:14px 0 6px;} .jmodal .gbody h4{font-size:13px;margin:12px 0 4px;}'',
     jl ''.jmodal .gbody p{margin:8px 0;} .jmodal .gbody ul{margin:8px 0 8px 4px;padding-left:20px;}''
     @ jl '' .jmodal .gbody li{margin:3px 0;}'',
     jl ''.jmodal .gbody code{background:#f0f3f8;border-radius:4px;padding:1px 5px;font-family:ui-mo''
     @ jl ''nospace,Consolas,monospace;font-size:12.5px;}'',
     jl ''.jmodal .gbody pre{background:#0d1626;color:#dbe6ff;border-radius:10px;padding:12px 14px;o''
     @ jl ''verflow-x:auto;font-family:ui-monospace,Consolas,monospace;font-size:12.5px;}'',
     jl ''.jmodal .gbody pre code{background:none;padding:0;color:inherit;}'',
     jl ''.jmodal .gbody blockquote{margin:8px 0;padding:6px 12px;border-left:3px solid #2563eb;back''
     @ jl ''ground:#f2f6ff;color:#334;border-radius:0 6px 6px 0;}'',
     jl ''.jmodal .gbody a{color:#2563eb;}'']"

definition style_rules :: "js list" where
  "style_rules = style_page @ style_sidebar @ style_mobile @ style_profile @ style_modal @ style_guide"

text \<open>\<open>join\<close> with a line feed.\<close>

fun join_lines :: "js list \<Rightarrow> js" where
  "join_lines [] = []"
| "join_lines [l] = l"
| "join_lines (l # m # ls) = l @ 10 # join_lines (m # ls)"

definition shell_style :: js where
  "shell_style = join_lines style_rules"

subsection \<open>Guides\<close>

definition guide_ask :: js where
  "guide_ask =
    [35, 35, 32, 51656, 51032] @ jl '' (NL2SQL)''
    @ [10, 10, 51088, 50672, 50612, 32, 51656, 47928, 51004, 47196] @ jl '' SQL''
    @ [51012, 32, 47564, 46308, 44256, 32, 49892, 54665, 54633, 45768, 45796, 46, 10, 10, 49, 46]
    @ [32, 51656, 47928, 51012, 32, 51077, 47141, 54616, 47732] @ jl '' **prepare_sql_context**''
    @ [44032, 32, 53580, 51060, 48660, 183, 52972, 47100, 183, 51312, 51064, 183, 49884, 44036, 51312, 44148]
    @ [183, 44160, 51613, 32, 55180, 53944, 47484, 32, 54620, 32, 48264, 50640, 32, 47926, 50612, 32]
    @ [51469, 45768, 45796, 46, 10, 50, 46, 32, 51025, 45813, 51060, 32, 42, 42, 51116, 51656] @ [47928]
    @ jl ''(needs_clarification)** ''
    @ [51060, 47732, 32, 51228, 49884, 46108, 32, 51656, 47928, 50640, 32, 45813, 54620, 32, 46244, 32]
    @ [45796, 49884, 32, 49892, 54665, 54616, 49464, 50836, 46, 10, 51, 46, 32, 96] @ jl ''ready''
    @ [96, 44032, 32, 46104, 47732, 32, 49828, 53000, 47112, 53668, 51032, 32, 96] @ jl ''/* SLOT */''
    @ [96, 47564, 32, 52292, 50892] @ jl '' SQL'' @ [51012, 32, 50756, 49457, 54633, 45768, 45796, 46, 10]
    @ jl ''4. **''
    @ [44160, 51613, 32, 8594, 32, 49892, 54665, 44228, 54925, 32, 8594, 32, 49892, 54665, 42, 42]
    @ [32, 49692, 49436, 47196, 32, 51652, 54665, 54633, 45768, 45796, 46, 10, 10, 62, 32, 54017]
    @ [58, 32, 53945, 51221] @ jl '' DB ''
    @ [54532, 47196, 54028, 51068, 51032, 32, 52852, 53448, 47196, 44536, 47196, 32, 51656, 51032, 54616, 47140]
    @ [47732] @ jl '' profile'' @ [51012, 32, 51648, 51221, 54616, 49464, 50836, 40, 47680, 54000]
    @ jl '' DB).''"

definition guide_datasets :: js where
  "guide_datasets =
    [35, 35, 32, 45936, 51060, 53552, 49483, 32, 44288, 47532, 10, 10, 51060, 32, 49436, 48260] @ [45716]
    @ jl '' Text2SQL '' @ [51221, 54869, 46020, 47484, 32, 50948, 54644] @ jl '' **18'' @ [44060, 51032]
    @ jl '' JSON ''
    @ [45936, 51060, 53552, 49483, 42, 42, 51012, 32, 52280, 51312, 54633, 45768, 45796, 46, 10, 10]
    @ jl ''### 1. ''
    @ [45936, 51060, 53552, 49483, 32, 51060, 54644, 54616, 44592, 32, 40, 47785, 47197, 32, 48195, 51648]
    @ [41, 10] @ jl ''- **''
    @ [54596, 49688, 42, 42, 32, 8212, 32, 47932, 47532, 47, 45436, 47532, 32, 47784, 45944, 46]
    @ [32, 49436, 48260, 32, 44592, 46041, 50640, 32, 54596, 49688, 46972, 32, 51228, 44144, 32, 48520]
    @ [44032, 40, 44368, 52404, 45716, 32, 44032, 45733, 41, 10] @ jl ''- **''
    @ [49440, 53469, 42, 42, 32, 8212, 32, 50630, 51004, 47732, 32, 54644, 45817, 32, 44592, 45733]
    @ [32, 52629, 49548, 32, 46608, 45716, 32, 45236, 51109, 32, 44592, 48376, 44050, 32, 49324, 50857] @ [10]
    @ jl ''- **''
    @ [54200, 51665, 44032, 45733, 42, 42, 32, 8212, 32, 51060, 32, 54868, 47732, 50640, 49436, 32]
    @ [44368, 52404, 47, 51228, 44144, 32, 44032, 45733, 10] @ jl ''- **''
    @ [49884, 49828, 53596, 42, 42, 32, 8212] @ jl '' feedback/audit. ''
    @ [49436, 48260, 44032, 32, 51088, 46041, 32, 44592, 47197, 44, 32, 51312, 54924, 47564, 32, 44032]
    @ [45733, 10] @ jl ''- **'' @ [51060, 49800] @ jl '' N** ''
    @ [8212, 32, 51060, 32, 54028, 51068, 51032, 32, 47196, 46300, 32, 50724, 47448, 47, 44221, 44256]
    @ [32, 49688, 40, 49345, 49464, 45716, 32, 54665, 32, 53364, 47533, 41, 10, 10] @ jl ''### 2. ''
    @ [45236, 50857, 32, 54869, 51064, 10, 45, 32, 54665, 32, 53364, 47533, 32, 8594, 32, 50857]
    @ [46020, 183, 44592, 45824, 32, 49828, 53412, 47560, 183, 49324, 50857, 32, 46020, 44396, 183, 45236]
    @ [50857, 32, 49368, 54540, 32, 54364, 49884, 10] @ jl ''- **[''
    @ [54788, 51116, 32, 45236, 50857, 32, 48520, 47084, 50724, 44592] @ jl '']** ''
    @ [8594, 32, 54028, 51068, 32, 51204, 52404, 47484, 32, 54200, 51665, 44592, 50640, 32, 47196, 46300]
    @ [10, 45, 32, 44033, 32, 45936, 51060, 53552, 49483, 51032, 32, 34, 44592, 45824, 32, 49828]
    @ [53412, 47560, 34, 44032, 32, 44263, 32, 51089, 49457, 32, 44508, 52825, 51077, 45768, 45796, 10] @ [10]
    @ jl ''### 3. ''
    @ [45347, 44592, 47, 48148, 44984, 44592, 32, 40, 44368, 52404, 41, 10, 54200, 51665, 44592, 32]
    @ [45236, 50857, 51060, 32, 42, 42, 54028, 51068, 51032, 32, 49352, 32, 51204, 52404, 32, 45236]
    @ [50857, 42, 42, 51060, 32, 46121, 45768, 45796, 40, 48512, 48516, 32, 48337, 54633, 32, 50500]
    @ [45784, 41, 46, 10] @ jl ''- **['' @ [9312] @ jl '' JSON '' @ [44160, 49324] @ jl '']** ''
    @ [8212, 32, 47928, 48277, 183, 54805, 49885, 32, 49324, 51204, 32, 54869, 51064, 10] @ jl ''- **[''
    @ [9313, 32, 51201, 50857] @ jl '']** ''
    @ [8212, 32, 51088, 46041, 51004, 47196, 32, 48177, 50629, 32, 8594, 32, 51200, 51109, 32, 8594]
    @ [32, 51116, 52980, 54028, 51068, 32, 8594, 32, 42, 42, 54635, 49828, 50769, 42, 42, 40]
    @ [51116, 44592, 46041, 32, 48520, 54596, 50836, 41, 10, 45, 32, 52980, 54028, 51068, 32, 49892]
    @ [54056, 47, 49888, 44508, 32, 50724, 47448, 32, 49884, 32, 42, 42, 51088, 46041, 32, 47204] @ [48177]
    @ jl ''**. ''
    @ [50508, 44256, 46020, 32, 51201, 50857, 54616, 47140, 47732, 32, 42, 42, 44053, 51228, 32, 51201]
    @ [50857, 42, 42, 32, 52404, 53356, 10, 10] @ jl ''### 4. ''
    @ [48764, 44592, 47, 46104, 46028, 47532, 44592, 10] @ jl ''- **[''
    @ [45936, 51060, 53552, 49483, 32, 51228, 44144] @ jl '']** ''
    @ [8212, 32, 48177, 50629, 32, 54980, 32, 49325, 51228, 43, 54635, 49828, 50769, 40, 54596, 49688]
    @ [183, 49884, 49828, 53596, 51008, 32, 44144, 48512, 41, 10, 45, 32, 47784, 46304, 32, 48320]
    @ [44221, 32, 51204, 32, 49345, 53468, 45716, 32, 42, 42, 48177, 50629, 47, 48373, 50896, 42]
    @ [42, 32, 49465, 49496, 50640, 32, 45224, 44256, 44, 32, 48373, 50896, 32, 51649, 51204, 32]
    @ [54028, 51068, 46020, 32, 51116, 48177, 50629, 46104, 50612, 32, 48373, 50896, 46020, 32, 46104, 46028]
    @ [47540, 32, 49688, 32, 51080, 49845, 45768, 45796, 10, 10] @ jl ''### 5. ''
    @ [54028, 51068, 51012, 32, 51649, 51217, 32, 49688, 51221, 54664, 45796, 47732, 10, 48380, 47464]
    @ jl ''/SSH'' @ [47196, 32, 54028, 51068, 51012, 32, 51649, 51217, 32, 48148, 44988, 32, 44221, 50864]
    @ jl '' **[''
    @ [55357, 56580, 32, 52852, 53448, 47196, 44536, 32, 47532, 47196, 46300, 93, 42, 42, 47196, 32]
    @ [51116, 52980, 54028, 51068, 54616, 49464, 50836, 46, 32, 49892, 54056, 32, 49884, 32, 51060, 51204]
    @ [32, 52852, 53448, 47196, 44536, 32, 50976, 51648, 46, 10, 10] @ jl ''### 6. '' @ [48372, 50504, 10, 96]
    @ jl ''-admin-token''
    @ [96, 40, 46608, 45716, 32, 54872, 44221, 48320, 49688, 41, 32, 49444, 51221, 32, 49884, 32]
    @ [48320, 44221, 32, 51089, 50629, 50640, 32, 53664, 53360, 32, 54596, 50836, 32, 8212, 32, 49345]
    @ [45800, 32, 51077, 47141, 46976, 50640, 32, 45347, 51004, 47732, 32, 51088, 46041, 32, 51204, 49569]
    @ [46121, 45768, 45796, 46, 10, 10] @ jl ''### 7. MCP ''
    @ [46020, 44396, 32, 45824, 51025, 10, 54868, 47732, 32, 51089, 50629, 51008] @ jl '' MCP ''
    @ [46020, 44396, 50752, 32, 46041, 51068, 32, 53076, 46300, 47196, 32, 49892, 54665, 46121, 45768, 45796]
    @ [58, 32, 47785, 47197, 32, 96] @ jl ''list_datasets'' @ [96, 44, 32, 49345, 49464, 32, 96]
    @ jl ''get_dataset'' @ [96, 44, 32, 44368, 52404, 32, 96] @ jl ''put_dataset''
    @ [96, 44, 32, 51228, 44144, 32, 96] @ jl ''remove_dataset'' @ [96, 44, 32, 47532, 47196, 46300, 32, 96]
    @ jl ''reload_catalog'' @ [96] @ jl '' (REST '' @ [96] @ jl ''GET/PUT/DELETE /api/datasets''
    @ [96, 44, 32, 96] @ jl ''POST /api/reload'' @ [96, 41, 46]"

definition guide_editor :: js where
  "guide_editor =
    [35, 35, 32, 53580, 51060, 48660, 32, 54200, 51665, 10, 10, 45936, 51060, 53552, 49483, 51012]
    @ [32, 54364, 40, 44536, 47532, 46300, 41, 47196, 32, 54200, 51665, 54616, 44256] @ jl '' **[''
    @ [51200, 51109] @ jl '']** ''
    @ [54616, 47732, 32, 51593, 49884, 32, 48152, 50689, 46121, 45768, 45796, 46, 10, 10] @ jl ''- **''
    @ [49472, 32, 49688, 51221] @ jl ''**: ''
    @ [49472, 32, 53364, 47533, 32, 8594, 32, 51077, 47141, 32, 8594, 32, 96] @ jl ''Enter''
    @ [96, 32, 54869, 51221, 32, 47, 32, 96, 69, 115, 99, 96, 32, 52712, 49548, 46] @ [32, 49707, 51088, 183]
    @ jl ''true/false'' @ [183] @ jl ''null'' @ [183] @ jl ''JSON(''
    @ [48176, 50676, 47, 44061, 52404, 41, 32, 53440, 51077, 32, 51088, 46041, 32, 48372, 51316, 32]
    @ [40, 50696, 58, 32, 96, 91, 34, 48324, 52845, 49, 34, 44, 34, 48324, 52845, 50]
    @ [34, 93, 96, 45716, 32, 48176, 50676, 47196, 32, 51200, 51109, 41, 10] @ jl ''- **''
    @ [54665, 32, 52628, 44032] @ jl ''**: ''
    @ [96, 91, 43, 32, 54665, 32, 52628, 44032, 93, 96, 32, 8212, 32, 48712, 32, 54665]
    @ [51060, 32, 47592, 32, 50948, 50640, 32, 49373, 49457, 46, 32, 54665, 32, 48264, 54840, 32]
    @ [50694, 32, 96, 10697, 96, 32, 48373, 51228, 32, 47, 32, 96, 10005, 96, 32, 49325] @ [51228, 10]
    @ jl ''- **'' @ [52972, 47100, 32, 52628, 44032, 47, 51060, 47492, 48320, 44221, 47, 49325, 51228]
    @ jl ''**: '' @ [96, 91, 43, 32, 52972, 47100, 32, 52628, 44032, 93, 96, 44, 32, 47672, 47532, 44544]
    @ [32, 54840, 48260, 32, 49884, 32, 96, 9998, 96, 40, 47784, 46304, 32, 54665, 51032, 32]
    @ [53412, 32, 48320, 44221] @ jl '') / ''
    @ [96, 10005, 96, 40, 47784, 46304, 32, 54665, 50640, 49436, 32, 53412, 32, 51228, 44144, 41] @ [10]
    @ jl ''- **'' @ [48712, 32, 49472] @ jl ''**: ''
    @ [51200, 51109, 32, 49884, 32, 54644, 45817, 32, 53412, 47484, 32, 45347, 51648, 32, 50506, 51020]
    @ [40, 48712, 32, 47928, 51088, 50676, 51060, 32, 54596, 50836, 54616, 47732, 32, 96, 34, 34]
    @ [96, 32, 51077, 47141, 41, 10] @ jl ''- **'' @ [51200, 51109] @ jl ''**: ''
    @ [54364, 32, 51204, 52404, 44032, 32, 54028, 51068, 51032, 32, 49352, 32, 45236, 50857, 51060, 32]
    @ [46120, 46, 32, 49436, 48260, 44032, 32, 42, 42, 48177, 50629, 32, 8594, 32, 52980, 54028]
    @ [51068, 32, 44160, 51613, 32, 8594, 32, 54635, 49828, 50769] @ jl ''**, ''
    @ [47928, 51228, 32, 49884, 32, 42, 42, 51088, 46041, 32, 47204, 48177] @ jl ''**. ''
    @ [46104, 46028, 47532, 44592, 45716, 32, 45936, 51060, 53552, 49483, 32, 54868, 47732, 51032, 32, 48177]
    @ [50629, 47, 48373, 50896, 32, 49324, 50857, 10] @ jl ''- **'' @ [44160, 49353] @ jl ''**: ''
    @ [51068, 52824, 32, 54665, 47564, 32, 54364, 49884, 54616, 46104, 32, 54200, 51665, 183, 51200, 51109]
    @ [51008, 32, 51204, 52404, 32, 45936, 51060, 53552, 32, 44592, 51456, 10, 10, 62, 32, 51473]
    @ [52393, 51060, 32, 44618, 51008, 32, 96] @ jl ''overrides'' @ [96, 50752, 32, 49884, 49828, 53596]
    @ jl ''(feedback/audit) ''
    @ [45936, 51060, 53552, 49483, 51008, 32, 51060, 32, 54868, 47732, 50640, 49436, 32, 51228, 50808, 32]
    @ [8212, 32, 45936, 51060, 53552, 49483, 32, 54868, 47732] @ jl ''(JSON ''
    @ [53080, 49556, 41, 51012, 32, 49324, 50857, 54616, 49464, 50836, 46]"

definition guide_db :: js where
  "guide_db =
    jl ''## DB '' @ [183, 32, 53244, 47532, 10, 10, 68, 66, 32, 51217, 49549, 32, 42, 42, 54532, 47196]
    @ [54028, 51068] @ jl ''**(postgres/mysql/mariadb)''
    @ [51012, 32, 46321, 47197, 183, 53580, 49828, 53944, 54616, 44256, 44, 32, 53080, 49556, 50640, 49436]
    @ jl '' Read-Only '' @ [53244, 47532, 47484, 32, 49892, 54665, 54633, 45768, 45796, 46, 10, 10]
    @ jl ''### '' @ [54532, 47196, 54028, 51068, 32, 46321, 47197, 10] @ jl ''- **''
    @ [51217, 49549, 32, 47928, 51088, 50676] @ jl ''**: '' @ [96] @ jl ''host:port/dbname''
    @ [96, 32, 54805, 49885] @ jl ''. postgres/mysql/mariadb '' @ [51648, 50896, 46, 10] @ jl ''- **''
    @ [48708, 48128, 48264, 54840] @ jl ''**: ''
    @ [54217, 47928, 32, 51200, 51109, 32, 44552, 51648, 32, 8212, 32, 96] @ jl ''env:''
    @ [48320, 49688, 47749, 96, 40, 44428, 51109, 41, 32, 46608, 45716, 32, 96] @ jl ''file:/run/secrets/''
    @ [54028, 51068, 96, 46, 32, 96] @ jl ''plain:'' @ [44050, 96, 51008, 32, 44060, 48156, 50857, 46, 10]
    @ jl ''- **'' @ [44228, 51221] @ jl ''**: SELECT ''
    @ [44428, 54620, 47564, 32, 44032, 51652, 32, 51204, 50857, 32, 44228, 51221, 51012, 32, 49324, 50857]
    @ [54616, 49464, 50836, 32, 8212, 32, 49436, 48260, 32, 52264, 45800, 44284, 32, 48324, 44060, 47196]
    @ jl '' DB ''
    @ [44428, 54620, 51060, 32, 52572, 51333, 32, 48169, 50612, 49440, 51077, 45768, 45796, 46, 10, 10]
    @ jl ''### '' @ [50504, 51204, 51109, 52824, 10] @ jl ''- SELECT/WITH'' @ [47564, 32, 54728, 50857]
    @ jl '', DML/DDL/'' @ [53944, 47004, 51117, 49496, 183, 45796, 51473] @ jl '' statement ''
    @ [52264, 45800, 10, 45, 32, 53244, 47532, 32, 53440, 51076, 50500, 50883, 44, 32, 96] @ jl ''max_rows''
    @ [96, 32, 51228, 54620, 40, 52488, 44284, 32, 49884] @ jl '' truncated), ''
    @ [51025, 45813, 32, 48148, 51060, 53944, 32, 52897, 10] @ jl ''- PII ''
    @ [44050, 32, 47560, 49828, 53433, 44, 32, 50672, 49549, 32, 49892, 54056, 32, 49884, 32, 49436]
    @ [53431, 48652, 47112, 51060, 52964, 44, 32, 51204, 32, 49892, 54665, 32, 44048, 49324, 32, 47196]
    @ [44536, 40, 96] @ jl ''audit/query-*.jsonl''
    @ [96, 41, 10, 45, 32, 49892, 54665, 32, 51204, 32, 42, 42, 49892, 54665, 44228, 54925]
    @ [32, 44172, 51060, 53944, 42, 42, 32, 8212, 32, 50948, 54744] @ jl ''(full scan/''
    @ [52852, 54000, 49496, 47, 50696, 49345, 54665, 32, 44284, 45796, 41, 32, 53244, 47532, 45716, 32]
    @ [49849, 51064, 32, 51204, 32, 52264, 45800, 10, 45, 32, 54532, 47196, 54028, 51068, 32, 51221]
    @ [52293, 32, 42, 42, 48708, 50857, 32, 49345, 54620] @ jl ''**(max_plan_cost/rows) ''
    @ [52488, 44284, 32, 53244, 47532, 45716, 32, 54616, 46300, 32, 52264, 45800, 10, 10] @ jl ''### ''
    @ [49892, 54665, 32, 49692, 49436, 10, 54532, 47196, 54028, 51068, 32, 46321, 47197, 32, 8594]
    @ jl '' **['' @ [51217, 49549, 32, 53580, 49828, 53944] @ jl '']** ''
    @ [52488, 47197, 32, 54869, 51064, 32, 8594, 32, 9312, 42, 42, 91, 44160, 51613] @ jl '']** ''
    @ [8594, 32, 9313, 42, 42, 91, 49892, 54665, 44228, 54925] @ jl '']**('' @ [49892, 51228]
    @ jl '' EXPLAIN, high''
    @ [47732, 32, 51312, 44148, 32, 48372, 44053, 41, 32, 8594, 32, 9314, 42, 42, 91, 48120]
    @ [47532, 48372, 44592] @ jl '']** '' @ [8594, 32, 9315, 54596, 50836, 32, 49884] @ jl '' **[''
    @ [49892, 54665] @ jl '']**. ''
    @ [50724, 47000, 32, 44152, 47532, 47732, 32, 49892, 54665, 32, 51473, 32, 47785, 47197, 50640, 49436]
    @ jl '' **['' @ [52712, 49548] @ jl '']**.''
    @ [10, 10, 62, 32, 49892, 54665, 32, 49457, 44277, 32, 51025, 45813, 51032, 32, 55358, 56954]
    @ jl '' SQL ''
    @ [47536, 53944, 45716, 32, 44428, 44256, 51060, 47728, 32, 49892, 54665, 51012, 32, 47561, 51648, 32]
    @ [50506, 49845, 45768, 45796, 46]"

definition guide_reviews :: js where
  "guide_reviews =
    [35, 35, 32, 47700, 53440, 32, 44160, 53664, 10, 10, 44508, 52825, 32, 50644, 51652, 183]
    @ jl ''OpenMetadata''
    @ [44032, 32, 47564, 46304, 32, 42, 42, 54980, 48372, 42, 42, 40, 45436, 47532, 47749, 183]
    @ [51032, 48120, 53440, 51077, 183, 49444, 47749, 183, 53076, 46300, 49324, 51204, 183, 51648, 54364, 183]
    @ [44288, 44228, 41, 47484, 32, 49849, 51064, 47, 48152, 47140, 54633, 45768, 45796, 46, 10, 10]
    @ [49, 46, 32, 49345, 53468, 40, 45824, 44592, 47, 49849, 51064, 47, 48152, 47140, 41, 183]
    @ [51333, 47448, 47196, 32, 54596, 53552, 54644, 32, 44160, 53664, 54633, 45768, 45796, 46, 10, 50]
    @ [46, 32, 54665, 48324, 32, 46608, 45716, 32, 51068, 44292, 47196, 32, 49849, 51064, 47, 48152]
    @ [47140, 54616, 44256, 32, 44160, 53664, 51088, 183, 47700, 47784, 47484, 32, 45224, 44609, 45768, 45796]
    @ [46, 10] @ jl ''3. **''
    @ [49849, 51064, 48516, 32, 48152, 50689, 32, 43, 32, 47532, 47196, 46300, 42, 42, 47196]
    @ jl '' overrides/metrics/relations''
    @ [50640, 32, 48337, 54633, 54633, 45768, 45796, 40, 48177, 50629, 183, 44592, 51316, 44050, 32, 48372]
    @ [51316, 41, 46]"

definition guide_quality :: js where
  "guide_quality =
    [35, 35, 32, 47700, 53440, 32, 54408, 51656, 10, 10, 53580, 51060, 48660, 48324, 32, 47700]
    @ [53440, 45936, 51060, 53552, 32, 54408, 51656, 51012, 32, 55, 52264, 50896, 40, 50756, 51204, 49457]
    @ [183, 51068, 44288, 49457, 183, 44288, 44228, 49457, 183, 54532, 47196, 54028, 51068, 47553, 183, 51648]
    @ [54364, 50672, 44208, 183, 49324, 50857, 49457, 183, 48372, 50504, 49457, 41, 51004, 47196, 32, 52292]
    @ [51216, 54616, 44256, 32, 65, 8211, 69, 32, 46321, 44553, 183, 47540, 47532, 49828, 32, 44172]
    @ [51060, 53944, 47484, 32, 48372, 50668, 51469, 45768, 45796, 46, 10, 10] @ jl ''- **''
    @ [44172, 51060, 53944, 32, 52264, 45800, 42, 42, 32, 54637, 47785, 40, 51648, 54364, 47, 51312]
    @ [51064, 32, 49552, 49345] @ jl '', PII ''
    @ [48120, 48516, 47448, 44, 32, 54408, 51656, 32, 54616, 54620, 32, 48120, 45804, 41, 51012, 32]
    @ [47676, 51200, 32, 54644, 49548, 54616, 49464, 50836, 46, 10, 45, 32, 54616, 45800, 50640, 49436]
    @ [32, 42, 42, 44048, 49324, 32, 47196, 44536, 32, 54644, 49884, 32, 52404, 51064, 32, 47924]
    @ [44208, 49457, 42, 42, 51012, 32, 44160, 51613, 54624, 32, 49688, 32, 51080, 49845, 45768, 45796] @ [46]"

definition guide_openmetadata :: js where
  "guide_openmetadata =
    jl ''## OpenMetadata '' @ [50672, 46041, 10, 10, 51204, 49324, 32, 52852, 53448, 47196, 44536]
    @ jl '' OpenMetadata''
    @ [50752, 32, 50577, 48169, 54693, 32, 50672, 46041, 54633, 45768, 45796, 46, 10, 10] @ jl ''- **''
    @ [50672, 44208, 32, 49444, 51221] @ jl ''**: URL/''
    @ [53664, 53360, 51012, 32, 51200, 51109, 40, 47924, 51116, 44592, 46041, 44, 32, 96]
    @ jl ''<data>/openmetadata.json'' @ [96, 41, 46, 10] @ jl ''- **Import**: ''
    @ [49444, 47749, 183, 80, 73, 73, 183, 50857, 50612, 51665, 51012, 32, 42, 42, 48712, 32]
    @ [54596, 46300, 50640, 47564, 42, 42, 32, 54980, 48372, 47196, 32, 44032, 51256, 50724, 44592, 40]
    @ [48120, 47532, 48372, 44592, 32, 8594, 32, 48152, 50689, 41, 46, 10] @ jl ''- **Export**: jamypg ''
    @ [49444, 47749, 51012, 32, 79, 77, 51032, 32, 48712, 32, 52972, 47100, 50640] @ jl '' push.'' @ [10]
    @ jl ''- **Drift**: '' @ [46160, 32, 52852, 53448, 47196, 44536, 51032, 32, 48520, 51068, 52824]
    @ jl ''(gap/conflict) '' @ [45824, 51312, 46]"

definition guide_profcat :: js where
  "guide_profcat =
    [35, 35, 32, 54532, 47196, 54028, 51068, 32, 52852, 53448, 47196, 44536, 10, 10, 46321, 47197] @ [46108]
    @ jl '' DB ''
    @ [54532, 47196, 54028, 51068, 47560, 45796, 32, 42, 42, 46021, 47549, 32, 52852, 53448, 47196, 44536]
    @ [32, 50892, 53356, 49828, 54168, 51060, 49828, 42, 42, 40, 96] @ jl ''<data>/profiles/<profile>/''
    @ [96, 41, 47484, 32, 44288, 47532, 54633, 45768, 45796, 46, 10, 10] @ jl ''1. **''
    @ [46972, 51060, 48652, 32, 68, 66, 47196, 32, 44396, 52629, 47, 44081, 49888, 42, 42, 32]
    @ [8212, 32, 47932, 47532, 32, 47784, 45944, 51012, 32, 50892, 53356, 49828, 54168, 51060, 49828, 50640]
    @ [32, 49688, 51665, 40, 44592, 51316, 32, 49444, 47749, 32, 48372, 51316, 41, 46, 10] @ jl ''2. **''
    @ [51204, 52404, 32, 44396, 52629, 42, 42, 32, 8212, 32, 47784, 46304, 32, 54532, 47196, 54028]
    @ [51068, 32, 51068, 44292, 32, 44396, 52629, 46, 10, 51, 46, 32, 45936, 51060, 53552, 49483]
    @ jl '' JSON''
    @ [51012, 32, 51312, 54924, 183, 54200, 51665, 40, 44160, 51613, 183, 48177, 50629, 183, 47204, 48177]
    @ [41, 46, 10] @ jl ''4. **''
    @ [54876, 49457, 32, 52852, 53448, 47196, 44536, 47196, 32, 51204, 54872, 42, 42, 32, 8212, 32]
    @ [47924, 51116, 44592, 46041, 32, 54635, 49828, 50769, 40, 45800, 46021, 32, 47784, 46300, 41, 46]
    @ [10, 10, 62, 32, 50836, 52397, 32, 45800, 50948, 47196, 32, 96] @ jl ''profile''
    @ [96, 51012, 32, 51648, 51221, 54616, 47732, 32, 51204, 50669, 32, 51204, 54872, 32, 50630, 51060]
    @ [32, 44536, 32, 50892, 53356, 49828, 54168, 51060, 49828, 47196, 32, 51656, 51032, 183, 44160, 51613]
    @ [46121, 45768, 45796, 40, 47680, 54000] @ jl '' DB).''"

definition guide_dba :: js where
  "guide_dba =
    jl ''## DBA ''
    @ [53076, 54028, 51068, 47103, 10, 10, 50672, 44208, 46108, 32, 68, 66, 50752, 32, 44048, 49324]
    @ [32, 47196, 44536, 47484, 32, 44540, 44144, 47196, 32, 54620, 32, 42, 42, 51069, 44592, 32]
    @ [51204, 50857] @ jl '' DBA ''
    @ [51652, 45800, 42, 42, 32, 46020, 44396, 32, 47784, 51020, 51077, 45768, 45796, 46, 32, 50612]
    @ [46500, 32, 44163, 46020, 32, 51088, 46041, 51004, 47196, 32, 49892, 54665, 183, 48320, 44221, 54616]
    @ [51648, 32, 50506, 51004, 47728, 44, 32, 44208, 44284, 45716, 32, 44160, 53664, 50857, 32, 44428]
    @ [44256, 51077, 45768, 45796, 46, 10, 10] @ jl ''- **''
    @ [54764, 49828, 32, 51216, 44160, 42, 42, 32, 8212, 32, 49884, 49828, 53596, 32, 52852, 53448]
    @ [47196, 44536, 47484, 32, 51069, 50612] @ jl '' PK ''
    @ [50630, 45716, 32, 53580, 51060, 48660, 183, 48120, 51064, 45937, 49828, 32, 70, 75, 183, 48120]
    @ [49324, 50857, 32, 51064, 45937, 49828, 183, 50724, 47000, 46108, 32, 53685, 44228, 183, 45824, 54805]
    @ [32, 53580, 51060, 48660, 51012, 32, 51652, 45800, 40, 50644, 51652, 48324, 32, 51648, 50896, 32]
    @ [48276, 50948, 32, 49345, 51060, 41, 46, 10] @ jl ''- **''
    @ [51064, 45937, 49828, 32, 51228, 50504, 42, 42, 32, 8212, 32, 44048, 49324, 32, 47196, 44536]
    @ [51032, 32, 45712, 47536, 32, 53244, 47532, 50640, 49436, 32, 51064, 45937, 49828, 32, 50630, 45716]
    @ [32, 54596, 53552, 47, 51312, 51064, 47, 51221, 47148, 32, 52972, 47100, 51012, 32, 51665, 44228]
    @ [54644, 32, 96] @ jl ''CREATE INDEX''
    @ [96, 32, 54980, 48372, 47484, 32, 50689, 54693, 46020, 32, 49692, 51004, 47196, 32, 51228, 49884]
    @ [40, 51649, 51217, 32, 44160, 53664, 32, 54980, 32, 49688, 54665, 41, 46, 10] @ jl ''- **''
    @ [50892, 53356, 47196, 46300, 42, 42, 32, 8212, 32, 44592, 44036, 48324, 32, 53244, 47532, 47049]
    @ [183, 50724, 47448, 50984, 183, 51648, 50672, 32, 48516, 54252, 183, 54635, 32, 53580, 51060, 48660]
    @ [183, 54588, 53356, 32, 49884, 44036, 45824, 32, 47532, 54252, 53944, 46, 10] @ jl ''- **SQL ''
    @ [47536, 53944, 42, 42, 32, 8212, 32, 45800, 51068, 32, 47928, 51109, 51032, 32, 50504, 54000]
    @ [54056, 53556] @ jl ''(SELECT * , '' @ [49440, 46160, 32, 50752, 51068, 46300, 52852, 46300]
    @ jl '' LIKE, '' @ [48708] @ jl ''-sargable ''
    @ [51312, 44148, 32, 46321, 41, 32, 51221, 51201, 32, 51652, 45800, 46, 10] @ jl ''- **''
    @ [51088, 50672, 50612, 32, 49444, 47749, 42, 42, 32, 8212] @ jl '' SQL''
    @ [51060, 32, 47924, 50631, 51012, 32, 54616, 45716, 51648, 32, 52852, 53448, 47196, 44536, 32, 45436]
    @ [47532, 47749, 51004, 47196, 32, 54620, 44397, 50612, 32, 50836, 50557, 46, 10, 10, 62, 32]
    @ [49345, 45800, 50640, 49436] @ jl '' DB ''
    @ [54532, 47196, 54028, 51068, 51012, 32, 49440, 53469, 54616, 49464, 50836, 46, 32, 51064, 45937, 49828]
    @ [47, 50892, 53356, 47196, 46300, 45716, 32, 54532, 47196, 54028, 51068, 51012, 32, 48708, 50864, 47732]
    @ [32, 51204, 52404, 32, 47196, 44536, 47484, 32, 45824, 49345, 51004, 47196, 32, 54633, 45768, 45796]
    @ [46]"

definition guide_dba_console :: js where
  "guide_dba_console =
    jl ''## DBA '' @ [53080, 49556] @ jl '' (dba/admin ''
    @ [51204, 50857, 41, 10, 10, 44428, 54620, 32, 51080, 45716, 40, 50416, 44592, 32, 44032, 45733]
    @ jl '') DBA ''
    @ [49464, 49496, 51004, 47196, 32, 49892, 51228, 32, 68, 66, 47484, 32, 44288, 47532, 54633, 45768]
    @ [45796, 46, 32, 51069, 44592, 32, 51204, 50857, 32, 53244, 47532, 32, 44228, 51221, 44284, 32]
    @ [42, 42, 48516, 47532, 46108, 32, 52964, 45349, 49496, 42, 42, 51012, 32, 49324, 50857, 54616]
    @ [47728, 44, 32, 47784, 46304, 32, 48320, 44221, 51008, 32, 44048, 49324, 32, 47196, 44536, 40] @ [96]
    @ jl ''dba:*'' @ [96, 41, 50640, 32, 44592, 47197, 46121, 45768, 45796, 46, 10, 10] @ jl ''### ''
    @ [49324, 51204, 32, 51456, 48708, 32, 8212, 32, 54532, 47196, 54028, 51068, 50640] @ jl '' DBA ''
    @ [51088, 44201, 51613, 47749, 10] @ jl ''**DB ''
    @ [183, 32, 53244, 47532, 42, 42, 32, 54868, 47732, 50640, 49436, 32, 54532, 47196, 54028, 51068]
    @ [51012, 32, 54200, 51665, 54644] @ jl '' DBA ''
    @ [48660, 47197, 51012, 32, 49444, 51221, 54644, 50556, 32, 53080, 49556, 51060, 32, 46041, 51089, 54633]
    @ [45768, 45796, 58, 10, 45, 32, 96] @ jl ''dba.enabled'' @ [96] @ jl '' = true'' @ [10, 45, 32, 96]
    @ jl ''dba.username'' @ [96, 32, 47, 32, 96] @ jl ''dba.password_ref''
    @ [96, 32, 8212, 32, 44428, 54620, 32, 51080, 45716, 32, 44228, 51221, 40, 50696]
    @ jl '': postgres superuser '' @ [46608, 45716] @ jl '' CREATEROLE/CREATEDB ''
    @ [48372, 50976, 32, 47204, 41, 46, 32, 96] @ jl ''password_ref'' @ [96, 45716, 32, 96] @ jl ''env:''
    @ [51060, 47492, 96, 32, 46608, 45716, 32, 96] @ jl ''file:''
    @ [44221, 47196, 96, 32, 44428, 51109, 10, 45, 32, 96] @ jl ''dba.connect_string''
    @ [96, 40, 49440, 53469, 41, 32, 8212] @ jl '' postgres'' @ [50640, 49436, 32, 96]
    @ jl ''CREATE/DROP DATABASE'' @ [96, 47484, 32, 49324, 50857, 51088] @ jl '' DB ''
    @ [50504, 50640, 49436, 32, 49892, 54665, 54616, 51648, 32, 50506, 46020, 47197, 32, 96] @ jl ''postgres''
    @ [96, 32, 44288, 47532, 32, 68, 66, 47196, 32, 51648, 51221, 10, 10] @ jl ''### '' @ [53485, 10]
    @ jl ''- **''
    @ [44060, 50836, 42, 42, 32, 8212, 32, 48169, 50616, 183, 49436, 48260, 32, 48260, 51204, 183]
    @ [50669, 54624] @ jl ''/DB '' @ [49688, 10] @ jl ''- **''
    @ [49324, 50857, 51088, 183, 50669, 54624, 42, 42, 32, 8212, 32, 49373, 49457, 47, 49549, 49457]
    @ [183, 48708, 48128, 48264, 54840, 32, 48320, 44221, 47, 49325, 51228] @ jl '' (postgres LOGIN'' @ [183]
    @ jl ''SUPERUSER'' @ [183] @ jl ''CREATEDB'' @ [183] @ jl ''CREATEROLE)'' @ [10] @ jl ''- **''
    @ [45936, 51060, 53552, 48288, 51060, 49828, 42, 42, 32, 8212, 32, 49373, 49457, 47, 49325, 51228]
    @ [40, 49548, 50976, 51088, 183, 51064, 53076, 46377, 41, 10] @ jl ''- **''
    @ [44428, 54620, 42, 42, 32, 8212] @ jl '' GRANT/REVOKE ('' @ [96] @ jl ''WITH GRANT OPTION''
    @ [96, 41, 10] @ jl ''- **''
    @ [49444, 51221, 42, 42, 32, 8212, 32, 51312, 54924, 32, 48143, 32, 48320, 44221] @ jl ''(postgres ''
    @ [96] @ jl ''ALTER SYSTEM'' @ [96] @ jl ''+reload, mysql '' @ [96] @ jl ''SET GLOBAL/SESSION''
    @ [96, 41, 10] @ jl ''- **''
    @ [49464, 49496, 42, 42, 32, 8212, 32, 54876, 49457, 32, 49464, 49496, 32, 51312, 54924, 44]
    @ [32, 53244, 47532, 32, 52712, 49548, 47, 49464, 49496, 32, 51333, 47308, 10] @ jl ''- **''
    @ [50976, 51648, 48372, 49688, 42, 42, 32, 8212] @ jl '' VACUUM/ANALYZE/REINDEX (mysql ANALYZE/OPTIMIZE)''
    @ [10] @ jl ''- **SQL ''
    @ [53080, 49556, 42, 42, 32, 8212, 32, 44396, 51312, 54868, 32, 46020, 44396, 47196, 32, 50504]
    @ [32, 46104, 45716, 32, 51089, 50629, 51012, 32, 50948, 54620, 32, 51076, 51032, 32, 44428, 54620]
    @ jl '' SQL ''
    @ [49892, 54665, 40, 54869, 51064, 32, 52404, 53356, 32, 54596, 50836, 44, 32, 50896, 47928, 32]
    @ [44048, 49324, 41, 10, 10, 62, 32, 49325, 51228, 40, 49324, 50857, 51088] @ jl ''/DB)'' @ [50752]
    @ jl '' SQL ''
    @ [53080, 49556, 51008, 32, 46104, 46028, 47540, 32, 49688, 32, 50630, 49845, 45768, 45796, 46, 32]
    @ [52572, 49548, 32, 44428, 54620, 32, 50896, 52825, 50640, 32, 46384, 46972] @ jl '' DBA ''
    @ [44228, 51221, 32, 44428, 54620, 51012, 32, 54596, 50836, 54620, 32, 47564, 53372, 47564, 32, 48512]
    @ [50668, 54616, 49464, 50836, 46]"

definition guide_stats :: js where
  "guide_stats =
    [35, 35, 32, 53685, 44228, 10, 10] @ jl ''MCP '' @ [54876, 46041, 47049, 44284] @ jl '' SQL ''
    @ [50976, 54952, 50984, 44, 32, 49892, 54665, 32, 49345, 53468, 44, 32, 52572, 44540, 32, 52628]
    @ [51060, 47484, 32, 54869, 51064, 54633, 45768, 45796, 46, 10, 10, 45, 32, 44288, 47532, 51088]
    @ [45716, 32, 42, 42, 51204, 52404, 32, 49324, 50857, 51088, 42, 42, 32, 51665, 44228, 50752]
    @ [32, 49324, 50857, 51088, 48324, 32, 54840, 52636, 47049, 51012, 32, 48380, 32, 49688, 32, 51080]
    @ [49845, 45768, 45796, 46, 10, 45, 32, 50976, 54952, 50984, 51060, 32, 45230, 51004, 47732, 32]
    @ [42, 42, 45236, 32, 51060, 47141, 42, 42, 50640, 49436] @ jl '' invalid ''
    @ [49373, 49457, 51012, 32, 54869, 51064, 54616, 44256, 44, 32, 51116, 51656, 47928, 32, 54617, 49845]
    @ [32, 51228, 50504, 50640, 32, 46384, 46972, 32, 51648, 54364, 183, 50857, 50612, 32, 49324, 51204]
    @ [51012, 32, 48372, 44053, 54616, 49464, 50836, 46, 10, 45, 32, 49436, 48260, 32, 50868, 50689]
    @ [32, 51648, 54364, 45716, 32, 96] @ jl ''/metrics'' @ [96, 51032] @ jl '' Prometheus ''
    @ [54805, 49885, 51004, 47196, 46020, 32, 51228, 44277, 46121, 45768, 45796, 46]"

definition guide_history :: js where
  "guide_history =
    [35, 35, 32, 45236, 32, 51060, 47141, 10, 10, 54532, 47212, 54532, 53944, 183, 83, 81]
    @ [76, 183, 54532, 47196, 54028, 51068, 183, 46020, 44396, 47749, 51004, 47196, 32, 44284, 44144, 32]
    @ [54876, 46041, 51012, 32, 44160, 49353, 54633, 45768, 45796, 46, 10, 10] @ jl ''- **''
    @ [51656, 51032, 47196, 32, 45796, 49884, 32, 49324, 50857] @ jl ''**: ''
    @ [44284, 44144, 32, 54532, 47212, 54532, 53944, 47484, 32, 51656, 51032, 32, 54868, 47732, 50640, 32]
    @ [52292, 50881, 45768, 45796, 46, 10] @ jl ''- **DB '' @ [53080, 49556, 47196, 32, 48372, 45236, 44592]
    @ jl ''**: '' @ [44284, 44144] @ jl '' SQL'' @ [44284, 32, 54532, 47196, 54028, 51068, 51012] @ jl '' DB ''
    @ [53080, 49556, 47196, 32, 51204, 45804, 54633, 45768, 45796, 46, 10, 45, 32, 44288, 47532, 51088]
    @ [45716, 32, 42, 42, 51204, 52404, 32, 49324, 50857, 51088, 42, 42, 32, 48276, 50948, 47196]
    @ [32, 51204, 54872, 54624, 32, 49688, 32, 51080, 49845, 45768, 45796, 46, 10, 10, 62, 32]
    @ [49892, 54665, 32, 49892, 54056, 50752] @ jl '' invalid ''
    @ [49373, 49457, 51012, 32, 44160, 49353, 54644, 32, 48152, 48373, 32, 50724, 47448, 47484, 32, 52286]
    @ [44256, 44, 32, 53685, 44228, 32, 54868, 47732, 51032, 32, 54408, 51656, 32, 49888, 54840, 50752]
    @ [32, 54632, 44760, 32, 54869, 51064, 54616, 49464, 50836, 46]"

definition guide_users :: js where
  "guide_users =
    [35, 35, 32, 49324, 50857, 51088, 32, 40, 44288, 47532, 51088, 41, 10, 10, 47196, 52972]
    @ [32, 44228, 51221, 183, 50669, 54624, 51012, 32, 44288, 47532, 54633, 45768, 45796] @ jl ''. admin ''
    @ [50669, 54624, 51060, 32, 51204, 52404, 32, 44288, 47532, 32, 44428, 54620, 51012, 32, 44032, 51665]
    @ [45768, 45796, 46]"

definition guide_keys :: js where
  "guide_keys =
    jl ''## MCP '' @ [53412, 10, 10] @ jl ''MCP ''
    @ [53364, 46972, 51060, 50616, 53944, 32, 51064, 51613, 50857] @ jl '' API '' @ [53412] @ jl ''(jsk_...)''
    @ [47484, 32, 48156, 44553, 183, 54924, 51204, 183, 54224, 44592, 54633, 45768, 45796, 46]"

definition guide_settings :: js where
  "guide_settings =
    [35, 35, 32, 49436, 48260, 32, 49444, 51221, 32, 40, 44288, 47532, 51088, 41, 10, 10]
    @ [47560, 49828, 53552, 32, 53664, 53360, 183, 54728, 50857] @ jl '' Origin'' @ [183] @ jl ''Keycloak SSO''
    @ [47484, 32, 47700, 53440, 32, 68, 66, 50640, 32, 51200, 51109, 54616, 44256, 32, 51593, 49884]
    @ [32, 51201, 50857, 54633, 45768, 45796, 46]"

definition guides :: "(js \<times> js) list" where
  "guides =
    [(jl ''ask'', guide_ask),
     (jl ''datasets'', guide_datasets),
     (jl ''editor'', guide_editor),
     (jl ''db'', guide_db),
     (jl ''reviews'', guide_reviews),
     (jl ''quality'', guide_quality),
     (jl ''openmetadata'', guide_openmetadata),
     (jl ''profcat'', guide_profcat),
     (jl ''dba'', guide_dba),
     (jl ''dba-console'', guide_dba_console),
     (jl ''stats'', guide_stats),
     (jl ''history'', guide_history),
     (jl ''users'', guide_users),
     (jl ''keys'', guide_keys),
     (jl ''settings'', guide_settings)]"

lemmas guide_defs = guide_ask_def
  guide_datasets_def
  guide_editor_def
  guide_db_def
  guide_reviews_def
  guide_quality_def
  guide_openmetadata_def
  guide_profcat_def
  guide_dba_def
  guide_dba_console_def
  guide_stats_def
  guide_history_def
  guide_users_def
  guide_keys_def
  guide_settings_def

lemma guides_keys:
  "map fst guides = [jl ''ask'', jl ''datasets'', jl ''editor'', jl ''db'', jl ''reviews'', jl ''quality'', jl ''openmetadata'', jl ''profcat'', jl ''dba'', jl ''dba-console'', jl ''stats'', jl ''history'', jl ''users'', jl ''keys'', jl ''settings'']"
  by (simp add: guides_def)

text \<open>No guide is the empty text, which the button would treat as a missing guide.\<close>

lemma guides_not_empty: "list_all (\<lambda>(k, md). md \<noteq> []) guides"
  by (simp add: guides_def guide_defs del: list.map)

end
