(* ===== verification/Web_Mount.thy ===== *)
theory Web_Mount
  imports Web_Shell Web_Texts
begin

text \<open>
  The second half of \<open>internal/mcp/webui/nav.js\<close>: the profile menu, the password form, the request
  headers, the header buttons, \<open>JASQL.mount\<close>, and the life cycle of the guide dialogs. \<open>shell\<close> is
  the part of the document and of \<open>window\<close> that this code touches; the outcome of a call that
  throws is a value of \<open>mount_outcome\<close>.
\<close>

subsection \<open>The profile menu's markup\<close>

definition or_else :: "js \<Rightarrow> js \<Rightarrow> js" where
  "or_else a b = (if a \<noteq> [] then a else b)"

definition js_trim :: "js \<Rightarrow> js" where
  "js_trim s = rev (dropWhile js_space (rev (dropWhile js_space s)))"

definition is_local :: "user_info \<Rightarrow> bool" where
  "is_local u \<longleftrightarrow> ui_provider u = jl ''local'' \<or> ui_provider u = []"

text \<open>\<open>upper\<close> is \<open>String.toUpperCase\<close>, which needs the Unicode tables.\<close>

definition initial_of :: "(js \<Rightarrow> js) \<Rightarrow> user_info \<Rightarrow> js" where
  "initial_of upper u = upper (take 1 (js_trim (or_else (or_else (ui_display u) (ui_username u)) (jl ''?''))))"

definition menu_button :: "string \<Rightarrow> string \<Rightarrow> js \<Rightarrow> js" where
  "menu_button cls act label = jl ''<button'' @ attr ''class'' (jl cls) @ attr ''data-act'' (jl act)
     @ jl ''>'' @ label @ jl ''</button>''"

definition profile_open :: js where
  "profile_open = jl ''<button'' @ attr ''class'' (jl ''javatar'') @ attr ''type'' (jl ''button'')
     @ jl ''><span'' @ attr ''class'' (jl ''jav'') @ jl ''>''"

definition profile_name_end :: js where
  "profile_name_end = jl ''</span> <span'' @ attr ''style'' (jl ''opacity:.7'') @ jl ''>'' @ [9662] @ jl ''</span></button>''
     @ jl ''<div'' @ attr ''class'' (jl ''jmenu'') @ jl ''><div'' @ attr ''class'' (jl ''jmhead'') @ jl ''><b>''"

definition profile_sub :: js where
  "profile_sub = jl ''</b><div'' @ attr ''class'' (jl ''jmsub'') @ jl ''>''"

definition password_button :: js where
  "password_button = menu_button ''jmitem'' ''password'' ([55357, 56594] @ jl '' '' @ [48708, 48128, 48264, 54840] @ jl '' '' @ [48320, 44221])"

definition profile_items :: "bool \<Rightarrow> js" where
  "profile_items locl =
     menu_button ''jmitem'' ''profile'' ([55357, 56420] @ jl '' '' @ [44060, 51064, 51221, 48372] @ jl '' '' @ [48320, 44221])
     @ (if locl then password_button else [])
     @ menu_button ''jmitem'' ''keys'' ([55357, 56593] @ jl '' MCP '' @ [53412] @ jl '' '' @ [44288, 47532])
     @ jl ''<div'' @ attr ''class'' (jl ''jmsep'') @ jl ''></div>''
     @ menu_button ''jmitem danger'' ''logout'' ([9211] @ jl '' '' @ [47196, 44536, 50500, 50883])
     @ jl ''<div'' @ attr ''class'' (jl ''jmfoot'') @ jl ''>jamypg v''"

definition profile_html :: "(js \<Rightarrow> js) \<Rightarrow> user_info \<Rightarrow> js \<Rightarrow> js" where
  "profile_html upper u version =
     profile_open @ esc (initial_of upper u) @ jl ''</span><span>''
     @ esc (or_else (ui_display u) (ui_username u)) @ profile_name_end
     @ esc (or_else (ui_display u) (ui_username u)) @ profile_sub
     @ esc (or_else (ui_email u) (ui_username u)) @ [32, 183, 32] @ esc (ui_role u) @ jl ''</div></div>''
     @ profile_items (is_local u) @ esc version @ jl ''</div></div>''"

text \<open>The markup the template itself contributes.\<close>

definition profile_literals :: "js set" where
  "profile_literals = {profile_open, jl ''</span><span>'', profile_name_end, profile_sub,
     jl ''</div></div>'', profile_items True, profile_items False}"

text \<open>
  No field of the account can add markup to the profile menu: the menu consists of the
  template's own pieces and of text without quotes or angle brackets, whatever the user's name,
  address, role or the server's version string.
\<close>

theorem profile_menu_inert: "frag profile_literals (profile_html upper u version)"
proof -
  have lits: "frag profile_literals profile_open" "frag profile_literals (jl ''</span><span>'')"
    "frag profile_literals profile_name_end" "frag profile_literals profile_sub"
    "frag profile_literals (jl ''</div></div>'')" "frag profile_literals (profile_items b)" for b
    by (cases b; simp add: profile_literals_def frag_tag del: list.map)+
  have "frag profile_literals [32, 183, 32]" by (rule frag_plain) (simp add: safe_unit_def)
  then show ?thesis
    unfolding profile_html_def by (intro frag_append lits frag_esc)
qed

subsection \<open>Form and headers\<close>

definition too_short_msg :: js where
  "too_short_msg = [49352] @ jl '' '' @ [48708, 48128, 48264, 54840, 45716] @ jl '' 8'' @ [51088] @ jl '' ''
     @ [51060, 49345, 51060, 50612, 50556] @ jl '' '' @ [54633, 45768, 45796]"

definition mismatch_msg :: js where
  "mismatch_msg = [49352] @ jl '' '' @ [48708, 48128, 48264, 54840, 44032] @ jl '' '' @ [51068, 52824, 54616, 51648]
     @ jl '' '' @ [50506, 49845, 45768, 45796]"

text \<open>The checks of \<open>openPasswordModal\<close>: a message, or the body (old, new) of the request.\<close>

definition password_submit :: "js \<Rightarrow> js \<Rightarrow> js \<Rightarrow> js + js \<times> js" where
  "password_submit old_pw np np2 =
     (if length np < 8 then Inl too_short_msg
      else if np \<noteq> np2 then Inl mismatch_msg
      else Inr (old_pw, np))"

definition token_headers :: "bool \<Rightarrow> js option \<Rightarrow> (js \<times> js) list" where
  "token_headers json tok =
     (if json then [(jl ''Content-Type'', jl ''application/json'')] else [])
     @ (case tok of Some v \<Rightarrow> if v \<noteq> [] then [(jl ''X-Admin-Token'', v)] else [] | None \<Rightarrow> [])"

subsection \<open>\<open>encodeURIComponent\<close>\<close>

definition uri_unreserved :: "nat \<Rightarrow> bool" where
  "uri_unreserved c \<longleftrightarrow> 65 \<le> c \<and> c \<le> 90 \<or> 97 \<le> c \<and> c \<le> 122 \<or> 48 \<le> c \<and> c \<le> 57 \<or>
     c \<in> {45, 95, 46, 33, 126, 42, 39, 40, 41}"

definition hex_digit :: "nat \<Rightarrow> nat" where
  "hex_digit n = (if n < 10 then 48 + n else 55 + n)"

definition pct :: "nat \<Rightarrow> js" where
  "pct b = [37, hex_digit (b div 16), hex_digit (b mod 16)]"

text \<open>
  On code points below 65536; \<open>location.pathname\<close> is ASCII, since browsers keep paths
  percent-encoded.
\<close>

definition uri_unit :: "nat \<Rightarrow> js" where
  "uri_unit c =
     (if uri_unreserved c then [c]
      else if c < 128 then pct c
      else if c < 2048 then pct (192 + c div 64) @ pct (128 + c mod 64)
      else pct (224 + c div 4096) @ pct (128 + c div 64 mod 64) @ pct (128 + c mod 64))"

definition encode_uri_component :: "js \<Rightarrow> js" where
  "encode_uri_component s = concat (map uri_unit s)"

subsection \<open>The page\<close>

datatype header_child = H_Page js | H_Grow | H_Help js | H_Profile user_info | H_Gear

record token_box =
  tb_value :: js
  tb_visible :: bool

record shell =
  sh_guides :: "js \<Rightarrow> js option"
  sh_page :: js
  sh_label :: js
  sh_styles :: "js option"
  sh_sidebars :: "js list"
  sh_header :: "header_child list option"
  sh_token :: "token_box option"
  sh_auth :: "me_info option"
  sh_location :: "js option"
  sh_ready :: "me_info list"

record mount_opts =
  mo_page :: js
  mo_label :: js
  mo_guide :: js
  mo_on_ready :: bool

datatype mount_outcome = Mounted | Redirected | Threw

text \<open>The spacer is added once, before the first button the shell appends.\<close>

definition with_grow :: "header_child list \<Rightarrow> header_child list" where
  "with_grow h = (if H_Grow \<in> set h then h else h @ [H_Grow])"

text \<open>\<open>sh_styles\<close> is the text of the element with the id \<open>jasql-shell-style\<close>.\<close>

definition inject_styles :: "shell \<Rightarrow> shell" where
  "inject_styles s = (if sh_styles s \<noteq> None then s else s \<lparr>sh_styles := Some shell_style\<rparr>)"

definition build_sidebar :: "me_info \<Rightarrow> shell \<Rightarrow> shell" where
  "build_sidebar me s = s \<lparr>sh_sidebars := sh_sidebars s @ [sidebar_html me (sh_page s)]\<rparr>"

definition build_help :: "shell \<Rightarrow> shell" where
  "build_help s =
     (case sh_guides s (sh_page s) of
        None \<Rightarrow> s
      | Some md \<Rightarrow>
          if md = [] then s
          else (case sh_header s of
            None \<Rightarrow> s
          | Some h \<Rightarrow> s \<lparr>sh_header := Some (with_grow h @ [H_Help md])\<rparr>))"

text \<open>
  Without a \<open>user\<close> in the payload, reading \<open>u.display_name\<close> throws (the flag), after the spacer
  has been added.
\<close>

definition build_profile_menu :: "me_info \<Rightarrow> shell \<Rightarrow> shell \<times> bool" where
  "build_profile_menu me s =
     (case sh_header s of
        None \<Rightarrow> (s, False)
      | Some h \<Rightarrow>
          (case me_user me of
             None \<Rightarrow> (s \<lparr>sh_header := Some (with_grow h)\<rparr>, True)
           | Some u \<Rightarrow> (s \<lparr>sh_header := Some (with_grow h @ [H_Profile u])\<rparr>, False)))"

definition handle_token_box :: "bool \<Rightarrow> shell \<Rightarrow> shell" where
  "handle_token_box authed s =
     (case sh_token s of
        None \<Rightarrow> s
      | Some tb \<Rightarrow>
          let s1 = s \<lparr>sh_token := Some (tb \<lparr>tb_visible := False\<rparr>)\<rparr> in
          if authed then s1
          else (case sh_header s of
            None \<Rightarrow> s1
          | Some h \<Rightarrow> s1 \<lparr>sh_header := Some (with_grow h @ [H_Gear])\<rparr>))"

text \<open>A click on the gear.\<close>

definition toggle_token_box :: "shell \<Rightarrow> shell" where
  "toggle_token_box s =
     s \<lparr>sh_token := map_option (\<lambda>tb. tb \<lparr>tb_visible := \<not> tb_visible tb\<rparr>) (sh_token s)\<rparr>"

definition login_redirect :: "js \<Rightarrow> js" where
  "login_redirect pathname = jl ''/auth/login?next='' @ encode_uri_component pathname"

text \<open>
  \<open>mount opts fetched pathname\<close>: \<open>fetched\<close> is the answer of \<open>/auth/me\<close>, \<open>None\<close> when the request or
  the parsing fails (the server then counts as stand-alone). An exception of \<open>onReady\<close> is caught.
\<close>

definition mount :: "mount_opts \<Rightarrow> me_info option \<Rightarrow> js \<Rightarrow> shell \<Rightarrow> shell \<times> mount_outcome" where
  "mount opts fetched pathname s0 =
     (let s1 = s0 \<lparr>sh_page := mo_page opts, sh_label := mo_label opts,
            sh_guides := (if mo_guide opts \<noteq> [] then (sh_guides s0) (mo_page opts := Some (mo_guide opts))
                          else sh_guides s0)\<rparr>;
          s2 = inject_styles s1;
          me = (case fetched of Some m \<Rightarrow> m | None \<Rightarrow> standalone);
          signed_in = (me_auth_enabled me \<and> me_authenticated me) in
      if me_auth_enabled me \<and> \<not> me_authenticated me
      then (s2 \<lparr>sh_location := Some (login_redirect pathname)\<rparr>, Redirected)
      else
        let s3 = s2 \<lparr>sh_auth := (if signed_in then Some me else None)\<rparr>;
            s4 = build_help (build_sidebar me s3) in
        case (if signed_in then build_profile_menu me s4 else (s4, False)) of (s5, threw) \<Rightarrow>
          if threw then (s5, Threw)
          else
            let s6 = handle_token_box (me_auth_enabled me) s5 in
            (if mo_on_ready opts then s6 \<lparr>sh_ready := sh_ready s6 @ [me]\<rparr> else s6, Mounted))"

subsection \<open>What mounting does\<close>

lemma pct_units: "b < 256 \<Longrightarrow> c \<in> set (pct b) \<Longrightarrow> uri_unreserved c \<or> c = 37"
proof -
  have hex: "uri_unreserved (hex_digit n)" if "n < 16" for n
    using that by (auto simp: hex_digit_def uri_unreserved_def)
  assume "b < 256" "c \<in> set (pct b)"
  then show ?thesis using hex [of "b div 16"] hex [of "b mod 16"]
    by (auto simp: pct_def div_less_iff_less_mult)
qed

lemma uri_unit_units:
  assumes "u < 65536" and "c \<in> set (uri_unit u)"
  shows "uri_unreserved c \<or> c = 37"
proof -
  have "c = u \<and> uri_unreserved u \<or> (\<exists>b < 256. c \<in> set (pct b))"
  proof -
    have "192 + u div 64 < 256" if "u < 2048" using that by (simp add: div_less_iff_less_mult)
    moreover have "128 + u mod 64 < 256" "128 + u div 64 mod 64 < 256"
      using mod_less_divisor [of 64] by (simp_all add: trans_less_add2 less_trans)
    moreover have "224 + u div 4096 < 256" using assms(1) by (simp add: div_less_iff_less_mult)
    ultimately show ?thesis
      using assms(2) unfolding uri_unit_def by (fastforce split: if_splits)
  qed
  then show ?thesis using pct_units by blast
qed

lemma encode_uri_units:
  "\<forall>u \<in> set s. u < 65536 \<Longrightarrow> c \<in> set (encode_uri_component s) \<Longrightarrow> uri_unreserved c \<or> c = 37"
  by (auto simp: encode_uri_component_def dest: uri_unit_units)

definition signed_in :: "me_info \<Rightarrow> bool" where
  "signed_in me \<longleftrightarrow> me_auth_enabled me \<and> me_authenticated me"

definition help_buttons :: "(js \<Rightarrow> js option) \<Rightarrow> js \<Rightarrow> header_child list" where
  "help_buttons gs page =
     (case gs page of Some md \<Rightarrow> if md = [] then [] else [H_Help md] | None \<Rightarrow> [])"

definition profile_buttons :: "me_info \<Rightarrow> header_child list" where
  "profile_buttons me = (if signed_in me then (case me_user me of Some u \<Rightarrow> [H_Profile u] | None \<Rightarrow> []) else [])"

definition gear_buttons :: "me_info \<Rightarrow> token_box option \<Rightarrow> header_child list" where
  "gear_buttons me tok = (if tok \<noteq> None \<and> \<not> me_auth_enabled me then [H_Gear] else [])"

definition add_buttons :: "header_child list \<Rightarrow> header_child list \<Rightarrow> header_child list" where
  "add_buttons bs h = (if bs = [] then h else with_grow h @ bs)"

lemma with_grow_mem [simp]: "H_Grow \<in> set (with_grow h)"
  by (simp add: with_grow_def)

lemma with_grow_append [simp]: "with_grow (with_grow h @ bs) = with_grow h @ bs"
  by (simp add: with_grow_def [of "with_grow h @ bs"])

lemma add_buttons_append: "add_buttons b (add_buttons a h) = add_buttons (a @ b) h"
  by (simp add: add_buttons_def)

lemma add_buttons_Nil [simp]: "add_buttons [] = (\<lambda>h. h)"
  by (simp add: add_buttons_def fun_eq_iff)

lemma build_help_header:
  "build_help s = s \<lparr>sh_header := map_option (add_buttons (help_buttons (sh_guides s) (sh_page s))) (sh_header s)\<rparr>"
  by (cases s) (auto simp: build_help_def help_buttons_def add_buttons_def option.map_ident
      split: option.split)

lemma build_profile_menu_header:
  assumes "build_profile_menu me s = (s', False)" and "signed_in me"
  shows "s' = s \<lparr>sh_header := map_option (add_buttons (profile_buttons me)) (sh_header s)\<rparr>"
  using assms
  by (auto simp: build_profile_menu_def profile_buttons_def add_buttons_def split: option.splits)

lemma handle_token_box_header:
  "handle_token_box (me_auth_enabled me) s =
     s \<lparr>sh_header := map_option (add_buttons (gear_buttons me (sh_token s))) (sh_header s),
        sh_token := map_option (\<lambda>tb. tb \<lparr>tb_visible := False\<rparr>) (sh_token s)\<rparr>"
  by (cases s) (auto simp: handle_token_box_def gear_buttons_def add_buttons_def Let_def fun_eq_iff option.map_ident
      split: option.split)


definition demo_shell :: shell where
  "demo_shell = \<lparr>sh_guides = (\<lambda>k. if k = jl ''ask'' then Some (jl ''guide'') else None), sh_page = [], sh_label = [],
     sh_styles = None, sh_sidebars = [], sh_header = Some [H_Page (jl ''title'')],
     sh_token = Some \<lparr>tb_value = [], tb_visible = True\<rparr>, sh_auth = None, sh_location = None, sh_ready = []\<rparr>"

definition demo_opts :: mount_opts where
  "demo_opts = \<lparr>mo_page = jl ''ask'', mo_label = [], mo_guide = [], mo_on_ready = True\<rparr>"


lemma mounted_page:
  assumes "mount opts fetched pathname s = (s', Mounted)"
    and "me = (case fetched of Some m \<Rightarrow> m | None \<Rightarrow> standalone)"
  shows "sh_auth s' = (if signed_in me then Some me else None)
    \<and> sh_sidebars s' = sh_sidebars s @ [sidebar_html me (mo_page opts)]
    \<and> sh_header s' = map_option (add_buttons (help_buttons (sh_guides s') (mo_page opts)
         @ profile_buttons me @ gear_buttons me (sh_token s))) (sh_header s)
    \<and> sh_token s' = map_option (\<lambda>tb. tb \<lparr>tb_visible := False\<rparr>) (sh_token s)
    \<and> sh_ready s' = sh_ready s @ (if mo_on_ready opts then [me] else [])
    \<and> sh_location s' = sh_location s
    \<and> sh_guides s' = (if mo_guide opts \<noteq> [] then (sh_guides s) (mo_page opts := Some (mo_guide opts)) else sh_guides s)"
proof -
  define s1 where "s1 = s \<lparr>sh_page := mo_page opts, sh_label := mo_label opts,
    sh_guides := (if mo_guide opts \<noteq> [] then (sh_guides s) (mo_page opts := Some (mo_guide opts)) else sh_guides s)\<rparr>"
  define s3 where "s3 = (inject_styles s1) \<lparr>sh_auth := (if signed_in me then Some me else None)\<rparr>"
  define s4 where "s4 = build_help (build_sidebar me s3)"
  obtain s5 threw where s5: "(if signed_in me then build_profile_menu me s4 else (s4, False)) = (s5, threw)"
    by fastforce
  have eq: "mount opts fetched pathname s =
      (if me_auth_enabled me \<and> \<not> me_authenticated me
       then ((inject_styles s1) \<lparr>sh_location := Some (login_redirect pathname)\<rparr>, Redirected)
       else if threw then (s5, Threw)
       else (let s6 = handle_token_box (me_auth_enabled me) s5 in
         (if mo_on_ready opts then s6 \<lparr>sh_ready := sh_ready s6 @ [me]\<rparr> else s6, Mounted)))"
    using s5 unfolding mount_def Let_def assms(2) [symmetric] s1_def [symmetric] signed_in_def [symmetric]
      s3_def [symmetric] s4_def [symmetric] by simp
  have "\<not> threw" using assms(1) unfolding eq by (auto split: if_splits)
  then have s5': "s5 = s4 \<lparr>sh_header := map_option (add_buttons (profile_buttons me)) (sh_header s4)\<rparr>"
    using s5 build_profile_menu_header [of me s4 s5]
    by (cases "signed_in me"; cases "sh_header s4") (auto simp: profile_buttons_def add_buttons_def)
  have out: "s' = (let s6 = handle_token_box (me_auth_enabled me) s5 in
      if mo_on_ready opts then s6 \<lparr>sh_ready := sh_ready s6 @ [me]\<rparr> else s6)"
    using assms(1) unfolding eq by (auto simp: Let_def split: if_splits)
  show ?thesis
    unfolding out s5' s4_def build_help_header handle_token_box_header
    by (simp add: Let_def s3_def s1_def inject_styles_def build_sidebar_def option.map_comp comp_def
        add_buttons_append)
qed

text \<open>
  What a mounted page looks like: the session is published exactly for a signed-in user, one
  sidebar is added, the header gets the page's guide button, the profile menu of a signed-in user
  or the token toggle of a stand-alone server (never both), in this order behind a single
  spacer, the token field is hidden, and \<open>onReady\<close> runs once with the payload.
\<close>

theorem mount_result:
  assumes "mount opts fetched pathname s = (s', Mounted)"
    and "me = (case fetched of Some m \<Rightarrow> m | None \<Rightarrow> standalone)"
  shows "sh_auth s' = (if signed_in me then Some me else None)
    \<and> sh_sidebars s' = sh_sidebars s @ [sidebar_html me (mo_page opts)]
    \<and> sh_header s' = map_option (add_buttons (help_buttons (sh_guides s') (mo_page opts)
         @ profile_buttons me @ gear_buttons me (sh_token s))) (sh_header s)
    \<and> sh_token s' = map_option (\<lambda>tb. tb \<lparr>tb_visible := False\<rparr>) (sh_token s)
    \<and> sh_ready s' = sh_ready s @ (if mo_on_ready opts then [me] else [])
    \<and> sh_location s' = sh_location s"
  using mounted_page [OF assms] by simp

theorem mount_result_witness:
  "sh_header (fst (mount demo_opts None [] demo_shell)) =
     Some [H_Page (jl ''title''), H_Grow, H_Help (jl ''guide''), H_Gear]"
proof -
  have snd: "snd (mount demo_opts None [] demo_shell) = Mounted"
    by (simp add: mount_def standalone_def Let_def del: list.map)
  obtain s' where m: "mount demo_opts None [] demo_shell = (s', Mounted)"
    using snd by (cases "mount demo_opts None [] demo_shell") (simp del: list.map)
  have "s' = fst (mount demo_opts None [] demo_shell)" by (simp only: m fst_conv)
  then have "sh_guides s' = sh_guides demo_shell"
    by (simp add: mount_def standalone_def Let_def demo_opts_def inject_styles_def build_sidebar_def build_help_header
        handle_token_box_header [of standalone, unfolded standalone_def, simplified] del: list.map)
  with mount_result [OF m refl] show ?thesis
    unfolding m fst_conv
    by (simp add: demo_shell_def demo_opts_def standalone_def help_buttons_def profile_buttons_def
        gear_buttons_def signed_in_def add_buttons_def with_grow_def)
qed

subsection \<open>Guides of the console's pages\<close>

text \<open>The pages the sidebar links to inside the console; the API documentation opens in its own tab.\<close>

definition console_pages :: "js list" where
  "console_pages = map ni_key (filter (\<lambda>it. \<not> ni_onboarding it \<and> ni_target it = None) all_items)"

lemma console_pages_guides: "set console_pages = set (map fst guides)"
proof -
  have pages: "console_pages = [jl ''ask'', jl ''history'', jl ''stats'', jl ''datasets'', jl ''editor'', jl ''db'',
      jl ''dba'', jl ''dba-console'', jl ''reviews'', jl ''quality'', jl ''openmetadata'', jl ''profcat'',
      jl ''users'', jl ''settings'', jl ''keys'']"
    by (simp add: console_pages_def all_items_def groups_def nav_link_def nav_onboarding_def)
  show ?thesis unfolding guides_keys pages list.set
    by (rule set_eqI) (unfold insert_iff empty_iff, blast)
qed

text \<open>
  Every page of the console has its guide: whatever page of the sidebar is mounted, by
  whichever visitor who gets to see it, if the page has a header then the header ends up with a
  guide button, and the button's text is the page's own entry of the guide table.
\<close>

theorem console_pages_have_guides:
  assumes "page \<in> set console_pages" and "mo_page opts = page" and "mo_guide opts = []"
    and "sh_guides s = map_of guides" and "sh_header s = Some h"
    and "mount opts fetched pathname s = (s', Mounted)"
  shows "\<exists>md h'. map_of guides page = Some md \<and> md \<noteq> [] \<and> sh_header s' = Some h' \<and> H_Help md \<in> set h'"
proof -
  have "page \<in> fst ` set guides" using assms(1) console_pages_guides by simp
  then obtain md where md: "map_of guides page = Some md"
    using map_of_eq_None_iff [of guides page] by (cases "map_of guides page") auto
  then have "md \<noteq> []" using guides_not_empty map_of_SomeD [OF md] by (auto simp: list_all_iff)
  moreover have "sh_guides s' = map_of guides"
    using mounted_page [OF assms(6) refl] assms(3,4) by simp
  ultimately show ?thesis
    using mounted_page [OF assms(6) refl] md assms(2,5)
    by (auto simp: help_buttons_def add_buttons_def)
qed

theorem console_pages_have_guides_witness:
  "\<exists>md h'. map_of guides (jl ''ask'') = Some md \<and> md \<noteq> [] \<and>
     sh_header (fst (mount demo_opts None [] (demo_shell \<lparr>sh_guides := map_of guides\<rparr>))) = Some h' \<and> H_Help md \<in> set h'"
proof -
  let ?s = "demo_shell \<lparr>sh_guides := map_of guides\<rparr>"
  have "snd (mount demo_opts None [] ?s) = Mounted"
    by (simp add: mount_def standalone_def Let_def del: list.map)
  then obtain s' where m: "mount demo_opts None [] ?s = (s', Mounted)"
    by (cases "mount demo_opts None [] ?s") (simp del: list.map)
  have "jl ''ask'' \<in> set console_pages" unfolding console_pages_guides guides_def by simp
  from console_pages_have_guides [OF this _ _ _ _ m] show ?thesis
    unfolding m by (simp add: demo_shell_def demo_opts_def del: list.map)
qed

end
