(* ===== verification/Web_Dialogs.thy ===== *)
theory Web_Dialogs
  imports Web_Mount
begin

text \<open>
  The dialogs of \<open>internal/mcp/webui/nav.js\<close>: the guides (\<open>guideModal\<close>, \<open>openOnboarding\<close>), the
  profile and password forms (\<open>modalShell\<close>, \<open>openProfileModal\<close>, \<open>openPasswordModal\<close>), the actions of
  the profile menu and the drawer of narrow screens. \<open>dialog_page\<close> holds the dialogs on the page
  and everything that is still to happen: animation frames, \<open>keydown\<close> listeners, requests under
  way and timers. Every callback is one operation, so that a run is a sequence of such steps in
  any order.
\<close>

subsection \<open>Markup\<close>

definition guide_head :: js where
  "guide_head = jl ''<div'' @ attr ''class'' (jl ''box guidebox'') @ jl ''><div'' @ attr ''class'' (jl ''ghead'') @ jl ''><h3>''"

definition guide_mid :: js where
  "guide_mid = jl ''</h3><button'' @ attr ''type'' (jl ''button'') @ attr ''class'' (jl ''jb'') @ jl '' data-x>''
     @ [45803, 44592] @ jl ''</button></div><div'' @ attr ''class'' (jl ''gbody'') @ jl ''>''"

definition guide_html :: "js \<Rightarrow> js \<Rightarrow> js" where
  "guide_html title md = guide_head @ esc title @ guide_mid @ md_to_html md @ jl ''</div></div>''"

definition form_head :: js where
  "form_head = jl ''<div'' @ attr ''class'' (jl ''box'') @ jl ''><h3>''"

definition form_sub :: js where
  "form_sub = jl ''</h3><p'' @ attr ''class'' (jl ''sub'') @ jl ''>''"

definition form_tail :: js where
  "form_tail = jl ''<div'' @ attr ''class'' (jl ''msg'') @ jl ''></div><div'' @ attr ''class'' (jl ''acts'') @ jl ''><button''
     @ attr ''type'' (jl ''button'') @ attr ''class'' (jl ''jb'') @ jl '' data-x>'' @ [52712, 49548] @ jl ''</button><button''
     @ attr ''type'' (jl ''submit'') @ attr ''class'' (jl ''jb primary'') @ jl ''>'' @ [51200, 51109]
     @ jl ''</button></div></form></div>''"

definition form_html :: "js \<Rightarrow> js \<Rightarrow> js \<Rightarrow> js" where
  "form_html title sub body = form_head @ esc title @ form_sub @ esc sub @ jl ''</p><form>'' @ body @ form_tail"

definition profile_title :: js where
  "profile_title = [44060, 51064, 51221, 48372, 32, 48320, 44221]"

definition profile_sub_text :: js where
  "profile_sub_text = [54364, 49884, 32, 51060, 47492, 44284, 32, 51060, 47700, 51068, 51012, 32, 49688, 51221,
     54633, 45768, 45796, 46, 32, 50669, 54624, 47, 48708, 48128, 48264, 54840, 45716, 32, 50668, 44592, 49436, 32,
     48148, 45068, 51648, 32, 50506, 49845, 45768, 45796, 46]"

text \<open>The pieces of the profile form between the account's fields.\<close>

definition name_open :: js where
  "name_open = jl ''<label>'' @ [54364, 49884, 32, 51060, 47492] @ jl ''</label><input''
     @ attr ''name'' (jl ''display_name'') @ jl '' value='' @ [34]"

definition value_to_placeholder :: js where
  "value_to_placeholder = [34] @ jl '' placeholder='' @ [34]"

definition email_open :: js where
  "email_open = [34] @ jl ''><label>'' @ [51060, 47700, 51068] @ jl ''</label><input''
     @ attr ''name'' (jl ''email'') @ attr ''type'' (jl ''email'') @ jl '' value='' @ [34]"

definition email_close :: js where
  "email_close = [34] @ attr ''placeholder'' (jl ''you@example.com'') @ jl ''>''"

definition profile_body :: "user_info \<Rightarrow> js" where
  "profile_body u = name_open @ esc (ui_display u) @ value_to_placeholder @ esc (ui_username u)
     @ email_open @ esc (ui_email u) @ email_close"

definition password_input :: "js \<Rightarrow> string \<Rightarrow> string \<Rightarrow> js" where
  "password_input label name auto = jl ''<label>'' @ label @ jl ''</label><input'' @ attr ''name'' (jl name)
     @ attr ''type'' (jl ''password'') @ attr ''autocomplete'' (jl auto) @ jl ''>''"

definition password_title :: js where
  "password_title = [48708, 48128, 48264, 54840, 32, 48320, 44221]"

definition password_sub_text :: js where
  "password_sub_text = [54788, 51116, 32, 48708, 48128, 48264, 54840, 32, 54869, 51064, 32, 54980, 32, 49352, 32,
     48708, 48128, 48264, 54840, 47196, 32, 48320, 44221, 54633, 45768, 45796, 46]"

definition password_body :: js where
  "password_body =
     password_input [54788, 51116, 32, 48708, 48128, 48264, 54840] ''old'' ''current-password''
     @ password_input [49352, 32, 48708, 48128, 48264, 54840] ''new'' ''new-password''
     @ password_input [49352, 32, 48708, 48128, 48264, 54840, 32, 54869, 51064] ''new2'' ''new-password''"

subsection \<open>The page\<close>

text \<open>
  What changes in a dialog after it was built: the content of a guide's body, or the class and the
  text of a form's message line.
\<close>

datatype view = Guide_View js | Form_View js js

record dialog =
  dg_id :: nat
  dg_shown :: bool
  dg_html :: js
  dg_view :: view

datatype callback = On_Profile nat | On_Password nat | On_Onboarding | On_Logout

record request =
  rq_method :: js
  rq_url :: js
  rq_headers :: "(js \<times> js) list"
  rq_body :: "(js \<times> js) list"
  rq_then :: callback

datatype timer = Close_Timer nat | Reload_Timer

record dialog_page =
  pd_dialogs :: "dialog list"
  pd_listeners :: "nat list"
  pd_next :: nat
  pd_focus :: "nat option"
  pd_frames :: "nat list"
  pd_requests :: "request list"
  pd_timers :: "(nat \<times> timer) list"
  pd_reloads :: nat
  pd_location :: "js option"
  pd_menu :: bool
  pd_drawer :: bool

definition dialogs_init :: dialog_page where
  "dialogs_init = \<lparr>pd_dialogs = [], pd_listeners = [], pd_next = 0, pd_focus = None, pd_frames = [],
     pd_requests = [], pd_timers = [], pd_reloads = 0, pd_location = None, pd_menu = False, pd_drawer = False\<rparr>"

fun is_guide :: "view \<Rightarrow> bool" where
  "is_guide (Guide_View _) = True"
| "is_guide (Form_View _ _) = False"

definition dialog_ids :: "dialog_page \<Rightarrow> nat list" where
  "dialog_ids d = map dg_id (pd_dialogs d)"

subsection \<open>Opening and closing\<close>

definition add_dialog :: "js \<Rightarrow> view \<Rightarrow> dialog_page \<Rightarrow> dialog_page" where
  "add_dialog html v d = d \<lparr>
     pd_dialogs := pd_dialogs d @ [\<lparr>dg_id = pd_next d, dg_shown = False, dg_html = html, dg_view = v\<rparr>],
     pd_next := Suc (pd_next d),
     pd_frames := pd_frames d @ [pd_next d]\<rparr>"

text \<open>Each guide installs a \<open>keydown\<close> listener on the document.\<close>

definition guide_modal :: "js \<Rightarrow> js \<Rightarrow> dialog_page \<Rightarrow> dialog_page" where
  "guide_modal title md d =
     (add_dialog (guide_html title md) (Guide_View (md_to_html md)) d)
       \<lparr>pd_listeners := pd_listeners d @ [pd_next d]\<rparr>"

text \<open>Both bodies that are passed contain an input, which gets the focus.\<close>

definition modal_shell :: "js \<Rightarrow> js \<Rightarrow> js \<Rightarrow> dialog_page \<Rightarrow> dialog_page" where
  "modal_shell title sub body d =
     (add_dialog (form_html title sub body) (Form_View (jl ''msg'') []) d) \<lparr>pd_focus := Some (pd_next d)\<rparr>"

definition open_profile_modal :: "user_info \<Rightarrow> dialog_page \<Rightarrow> dialog_page" where
  "open_profile_modal u = modal_shell profile_title profile_sub_text (profile_body u)"

definition open_password_modal :: "dialog_page \<Rightarrow> dialog_page" where
  "open_password_modal = modal_shell password_title password_sub_text password_body"

text \<open>The close button and a click on the backdrop.\<close>

definition close_modal :: "nat \<Rightarrow> dialog_page \<Rightarrow> dialog_page" where
  "close_modal n d = d \<lparr>pd_dialogs := filter (\<lambda>g. dg_id g \<noteq> n) (pd_dialogs d)\<rparr>"

text \<open>Escape runs every listener; each closes its dialog and removes itself.\<close>

definition press_escape :: "dialog_page \<Rightarrow> dialog_page" where
  "press_escape d = (foldl (\<lambda>d' n. close_modal n d') d (pd_listeners d)) \<lparr>pd_listeners := []\<rparr>"

text \<open>\<open>requestAnimationFrame\<close>: the new dialogs get the class \<open>open\<close>.\<close>

definition run_frames :: "dialog_page \<Rightarrow> dialog_page" where
  "run_frames d = d \<lparr>
     pd_dialogs := map (\<lambda>g. if dg_id g \<in> set (pd_frames d) then g \<lparr>dg_shown := True\<rparr> else g) (pd_dialogs d),
     pd_frames := []\<rparr>"

subsection \<open>Requests\<close>

definition send :: "js \<Rightarrow> js \<Rightarrow> (js \<times> js) list \<Rightarrow> (js \<times> js) list \<Rightarrow> callback \<Rightarrow> dialog_page \<Rightarrow> dialog_page" where
  "send meth url headers body k d = d \<lparr>pd_requests := pd_requests d @
     [\<lparr>rq_method = meth, rq_url = url, rq_headers = headers, rq_body = body, rq_then = k\<rparr>]\<rparr>"

definition set_message :: "nat \<Rightarrow> bool \<Rightarrow> js \<Rightarrow> dialog_page \<Rightarrow> dialog_page" where
  "set_message n ok text d = d \<lparr>pd_dialogs := map (\<lambda>g. if dg_id g = n
     then g \<lparr>dg_view := Form_View (jl ''msg '' @ (if ok then jl ''ok'' else jl ''bad'')) text\<rparr> else g) (pd_dialogs d)\<rparr>"

text \<open>The \<open>done\<close> callback of a form; \<open>now\<close> is the time in milliseconds.\<close>

definition form_done :: "nat \<Rightarrow> nat \<Rightarrow> bool \<Rightarrow> js \<Rightarrow> dialog_page \<Rightarrow> dialog_page" where
  "form_done now n ok text d =
     (let d1 = set_message n ok text d in
      if ok then d1 \<lparr>pd_timers := pd_timers d1 @ [(now + 800, Close_Timer n)]\<rparr> else d1)"

text \<open>The submit handlers; \<open>tok\<close> is the content of the token field, if the page has one.\<close>

definition submit_profile :: "nat \<Rightarrow> js option \<Rightarrow> js \<Rightarrow> js \<Rightarrow> dialog_page \<Rightarrow> dialog_page" where
  "submit_profile n tok name email =
     send (jl ''PUT'') (jl ''/auth/profile'') (token_headers True tok)
       [(jl ''display_name'', js_trim name), (jl ''email'', js_trim email)] (On_Profile n)"

definition submit_password :: "nat \<Rightarrow> nat \<Rightarrow> js option \<Rightarrow> js \<Rightarrow> js \<Rightarrow> js \<Rightarrow> dialog_page \<Rightarrow> dialog_page" where
  "submit_password now n tok old_pw np np2 d =
     (case password_submit old_pw np np2 of
        Inl msg \<Rightarrow> form_done now n False msg d
      | Inr (o_pw, n_pw) \<Rightarrow>
          send (jl ''PUT'') (jl ''/auth/password'') (token_headers True tok)
            [(jl ''old_password'', o_pw), (jl ''new_password'', n_pw)] (On_Password n) d)"

text \<open>
  How a request ends: an answer with its \<open>ok\<close> flag and the \<open>error\<close> of its JSON body (empty when
  missing), or a rejection (network, or a body that is not JSON) with its message.
\<close>

datatype reply = Reply bool js | Rejected js

definition save_failed :: js where "save_failed = [51200, 51109, 32, 49892, 54056]"
definition saved :: js where "saved = [51200, 51109, 46104, 50632, 49845, 45768, 45796]"
definition change_failed :: js where "change_failed = [48320, 44221, 32, 49892, 54056]"
definition changed :: js where "changed = [48320, 44221, 46104, 50632, 49845, 45768, 45796]"

definition profile_reply :: "nat \<Rightarrow> nat \<Rightarrow> reply \<Rightarrow> dialog_page \<Rightarrow> dialog_page" where
  "profile_reply now n r d =
     (case r of
        Reply ok err \<Rightarrow>
          if \<not> ok then form_done now n False (or_else err save_failed) d
          else let d1 = form_done now n True saved d in
            d1 \<lparr>pd_timers := pd_timers d1 @ [(now + 700, Reload_Timer)]\<rparr>
      | Rejected msg \<Rightarrow> form_done now n False msg d)"

definition password_reply :: "nat \<Rightarrow> nat \<Rightarrow> reply \<Rightarrow> dialog_page \<Rightarrow> dialog_page" where
  "password_reply now n r d =
     (case r of
        Reply ok err \<Rightarrow> form_done now n ok (if ok then changed else or_else err change_failed) d
      | Rejected msg \<Rightarrow> form_done now n False msg d)"

subsection \<open>The onboarding guide\<close>

definition onboarding_title :: js where
  "onboarding_title = jl ''jamypg '' @ [50728, 48372, 46377, 32, 44032, 51060, 46300]"

definition loading_text :: js where
  "loading_text = [48520, 47084, 50724, 45716, 32, 51473, 8230]"

definition onboarding_failed :: js where
  "onboarding_failed = jl ''<p>'' @ [50728, 48372, 46377, 32, 47928, 49436, 47484, 32, 48520, 47084, 50724, 51648, 32,
     47803, 54664, 49845, 45768, 45796] @ jl ''.</p>''"

definition open_onboarding :: "dialog_page \<Rightarrow> dialog_page" where
  "open_onboarding d = send (jl ''GET'') (jl ''/admin/onboarding.md'') [] [] On_Onboarding
     (guide_modal onboarding_title loading_text d)"

text \<open>\<open>querySelector('.jmodal.open .gbody')\<close>: the body of the first guide that is shown.\<close>

fun fill_first_guide :: "js \<Rightarrow> dialog list \<Rightarrow> dialog list" where
  "fill_first_guide html [] = []"
| "fill_first_guide html (g # gs) =
     (if dg_shown g \<and> is_guide (dg_view g) then g \<lparr>dg_view := Guide_View html\<rparr> # gs
      else g # fill_first_guide html gs)"

text \<open>The text of the answer (of any status), or \<open>None\<close> when the request fails.\<close>

definition onboarding_reply :: "js option \<Rightarrow> dialog_page \<Rightarrow> dialog_page" where
  "onboarding_reply r d = d \<lparr>pd_dialogs :=
     fill_first_guide (case r of Some md \<Rightarrow> md_to_html md | None \<Rightarrow> onboarding_failed) (pd_dialogs d)\<rparr>"

subsection \<open>Menu, drawer and timers\<close>

datatype menu_act = Act_Profile | Act_Password | Act_Keys | Act_Logout

definition menu_click :: "user_info \<Rightarrow> menu_act \<Rightarrow> dialog_page \<Rightarrow> dialog_page" where
  "menu_click u act d =
     (let d1 = d \<lparr>pd_menu := False\<rparr> in
      case act of
        Act_Logout \<Rightarrow> send (jl ''POST'') (jl ''/auth/logout'') [] [] On_Logout d1
      | Act_Keys \<Rightarrow> d1 \<lparr>pd_location := Some (jl ''/admin/keys'')\<rparr>
      | Act_Profile \<Rightarrow> open_profile_modal u d1
      | Act_Password \<Rightarrow> open_password_modal d1)"

definition toggle_profile_menu :: "dialog_page \<Rightarrow> dialog_page" where
  "toggle_profile_menu d = d \<lparr>pd_menu := \<not> pd_menu d\<rparr>"

text \<open>A click that reaches the document; clicks inside the menu do not.\<close>

definition click_document :: "dialog_page \<Rightarrow> dialog_page" where
  "click_document d = d \<lparr>pd_menu := False\<rparr>"

definition toggle_drawer :: "dialog_page \<Rightarrow> dialog_page" where
  "toggle_drawer d = d \<lparr>pd_drawer := \<not> pd_drawer d\<rparr>"

definition click_scrim :: "dialog_page \<Rightarrow> dialog_page" where
  "click_scrim d = d \<lparr>pd_drawer := False\<rparr>"

definition click_onboarding :: "dialog_page \<Rightarrow> dialog_page" where
  "click_onboarding d = open_onboarding (d \<lparr>pd_drawer := False\<rparr>)"

definition logout_reply :: "bool \<Rightarrow> dialog_page \<Rightarrow> dialog_page" where
  "logout_reply answered d = (if answered then d \<lparr>pd_location := Some (jl ''/auth/login'')\<rparr> else d)"

fun fire :: "timer \<Rightarrow> dialog_page \<Rightarrow> dialog_page" where
  "fire (Close_Timer n) d = close_modal n d"
| "fire Reload_Timer d = d \<lparr>pd_reloads := Suc (pd_reloads d)\<rparr>"

text \<open>Everything that is due at \<open>now\<close>; the effects commute, so the order does not matter.\<close>

definition fire_timers :: "nat \<Rightarrow> dialog_page \<Rightarrow> dialog_page" where
  "fire_timers now d =
     (foldl (\<lambda>d' t. fire (snd t) d') d (filter (\<lambda>t. fst t \<le> now) (pd_timers d)))
       \<lparr>pd_timers := filter (\<lambda>t. now < fst t) (pd_timers d)\<rparr>"

text \<open>An answer arrives for the \<open>i\<close>-th request under way.\<close>

definition answer :: "nat \<Rightarrow> nat \<Rightarrow> reply \<Rightarrow> js option \<Rightarrow> dialog_page \<Rightarrow> dialog_page" where
  "answer now i r text d =
     (if i < length (pd_requests d) then
        let d1 = d \<lparr>pd_requests := take i (pd_requests d) @ drop (Suc i) (pd_requests d)\<rparr> in
        (case rq_then (pd_requests d ! i) of
           On_Profile n \<Rightarrow> profile_reply now n r d1
         | On_Password n \<Rightarrow> password_reply now n r d1
         | On_Onboarding \<Rightarrow> onboarding_reply text d1
         | On_Logout \<Rightarrow> logout_reply (case r of Reply _ _ \<Rightarrow> True | Rejected _ \<Rightarrow> False) d1)
      else d)"

inductive dialog_step :: "dialog_page \<Rightarrow> dialog_page \<Rightarrow> bool" where
  Guide: "dialog_step d (guide_modal title md d)"
| Onboarding: "dialog_step d (click_onboarding d)"
| Menu: "dialog_step d (menu_click u act d)"
| Toggle_Menu: "dialog_step d (toggle_profile_menu d)"
| Document: "dialog_step d (click_document d)"
| Drawer: "dialog_step d (toggle_drawer d)"
| Scrim: "dialog_step d (click_scrim d)"
| Close: "dialog_step d (close_modal n d)"
| Escape: "dialog_step d (press_escape d)"
| Frame: "dialog_step d (run_frames d)"
| Submit_Profile: "g \<in> set (pd_dialogs d) \<Longrightarrow> \<not> is_guide (dg_view g) \<Longrightarrow>
    dialog_step d (submit_profile (dg_id g) tok name email d)"
| Submit_Password: "g \<in> set (pd_dialogs d) \<Longrightarrow> \<not> is_guide (dg_view g) \<Longrightarrow>
    dialog_step d (submit_password now (dg_id g) tok old_pw np np2 d)"
| Answer: "dialog_step d (answer now i r text d)"
| Time: "dialog_step d (fire_timers now d)"

inductive dialogs_reachable :: "dialog_page \<Rightarrow> bool" where
  Init: "dialogs_reachable dialogs_init"
| Step: "dialogs_reachable d \<Longrightarrow> dialog_step d d' \<Longrightarrow> dialogs_reachable d'"

inductive_cases dialog_stepE: "dialog_step d d'"


subsection \<open>Frames\<close>

named_theorems dialog_frames \<open>what the operations leave alone\<close>

lemma add_dialog_frames [dialog_frames]:
  "dialog_ids (add_dialog h v d) = dialog_ids d @ [pd_next d]" "pd_next (add_dialog h v d) = Suc (pd_next d)"
  "pd_timers (add_dialog h v d) = pd_timers d" "pd_reloads (add_dialog h v d) = pd_reloads d"
  "pd_listeners (add_dialog h v d) = pd_listeners d" "pd_requests (add_dialog h v d) = pd_requests d"
  by (simp_all add: add_dialog_def dialog_ids_def)

lemma guide_modal_frames [dialog_frames]:
  "dialog_ids (guide_modal t md d) = dialog_ids d @ [pd_next d]" "pd_next (guide_modal t md d) = Suc (pd_next d)"
  "pd_timers (guide_modal t md d) = pd_timers d" "pd_reloads (guide_modal t md d) = pd_reloads d"
  "pd_listeners (guide_modal t md d) = pd_listeners d @ [pd_next d]" "pd_requests (guide_modal t md d) = pd_requests d"
  by (simp_all add: guide_modal_def add_dialog_def dialog_ids_def)

lemma modal_shell_frames [dialog_frames]:
  "dialog_ids (modal_shell t s b d) = dialog_ids d @ [pd_next d]" "pd_next (modal_shell t s b d) = Suc (pd_next d)"
  "pd_timers (modal_shell t s b d) = pd_timers d" "pd_reloads (modal_shell t s b d) = pd_reloads d"
  "pd_listeners (modal_shell t s b d) = pd_listeners d" "pd_requests (modal_shell t s b d) = pd_requests d"
  by (simp_all add: modal_shell_def add_dialog_def dialog_ids_def)

lemma close_modal_frames [dialog_frames]:
  "dialog_ids (close_modal n d) = filter (\<lambda>m. m \<noteq> n) (dialog_ids d)" "pd_next (close_modal n d) = pd_next d"
  "pd_timers (close_modal n d) = pd_timers d" "pd_reloads (close_modal n d) = pd_reloads d"
  "pd_listeners (close_modal n d) = pd_listeners d" "pd_requests (close_modal n d) = pd_requests d"
  by (simp_all add: close_modal_def dialog_ids_def filter_map comp_def)

lemma send_frames [dialog_frames]:
  "dialog_ids (send m u h b k d) = dialog_ids d" "pd_next (send m u h b k d) = pd_next d"
  "pd_timers (send m u h b k d) = pd_timers d" "pd_reloads (send m u h b k d) = pd_reloads d"
  "pd_listeners (send m u h b k d) = pd_listeners d" "pd_dialogs (send m u h b k d) = pd_dialogs d"
  by (simp_all add: send_def dialog_ids_def)

lemma set_message_frames [dialog_frames]:
  "dialog_ids (set_message n ok t d) = dialog_ids d" "pd_next (set_message n ok t d) = pd_next d"
  "pd_timers (set_message n ok t d) = pd_timers d" "pd_reloads (set_message n ok t d) = pd_reloads d"
  "pd_listeners (set_message n ok t d) = pd_listeners d" "pd_requests (set_message n ok t d) = pd_requests d"
  by (simp_all add: set_message_def dialog_ids_def comp_def if_distrib [of dg_id] cong: if_cong)

lemma form_done_frames [dialog_frames]:
  "dialog_ids (form_done now n ok t d) = dialog_ids d" "pd_next (form_done now n ok t d) = pd_next d"
  "pd_timers (form_done now n ok t d) = pd_timers d @ (if ok then [(now + 800, Close_Timer n)] else [])"
  "pd_reloads (form_done now n ok t d) = pd_reloads d"
  "pd_listeners (form_done now n ok t d) = pd_listeners d" "pd_requests (form_done now n ok t d) = pd_requests d"
  "pd_dialogs (form_done now n ok t d) = pd_dialogs (set_message n ok t d)"
proof -
  have ids: "dialog_ids (e \<lparr>pd_timers := ts\<rparr>) = dialog_ids e" for e ts by (simp add: dialog_ids_def)
  show "dialog_ids (form_done now n ok t d) = dialog_ids d" "pd_next (form_done now n ok t d) = pd_next d"
    "pd_timers (form_done now n ok t d) = pd_timers d @ (if ok then [(now + 800, Close_Timer n)] else [])"
    "pd_reloads (form_done now n ok t d) = pd_reloads d"
    "pd_listeners (form_done now n ok t d) = pd_listeners d" "pd_requests (form_done now n ok t d) = pd_requests d"
    "pd_dialogs (form_done now n ok t d) = pd_dialogs (set_message n ok t d)"
    by (simp_all add: form_done_def Let_def ids set_message_frames)
qed

lemma fill_first_guide_ids [simp]: "map dg_id (fill_first_guide h gs) = map dg_id gs"
  by (induction gs) auto

lemma foldl_close:
  "foldl (\<lambda>d' n. close_modal n d') d ns = d \<lparr>pd_dialogs := filter (\<lambda>g. dg_id g \<notin> set ns) (pd_dialogs d)\<rparr>"
  by (induction ns arbitrary: d) (auto simp: close_modal_def intro: filter_cong)

lemma press_escape_eq:
  "press_escape d = d \<lparr>pd_dialogs := filter (\<lambda>g. dg_id g \<notin> set (pd_listeners d)) (pd_dialogs d), pd_listeners := []\<rparr>"
  by (simp add: press_escape_def foldl_close)

lemma foldl_fire:
  "foldl (\<lambda>d' t. fire (snd t) d') d ts =
     d \<lparr>pd_dialogs := filter (\<lambda>g. Close_Timer (dg_id g) \<notin> snd ` set ts) (pd_dialogs d),
        pd_reloads := pd_reloads d + length (filter (\<lambda>t. snd t = Reload_Timer) ts)\<rparr>"
proof (induction ts arbitrary: d)
  case (Cons t ts)
  show ?case
    by (cases "snd t") (auto simp: Cons.IH close_modal_def intro: filter_cong)
qed simp

lemma fire_timers_eq:
  "fire_timers now d =
     d \<lparr>pd_dialogs := filter (\<lambda>g. \<not> (\<exists>t \<le> now. (t, Close_Timer (dg_id g)) \<in> set (pd_timers d))) (pd_dialogs d),
        pd_reloads := pd_reloads d + length (filter (\<lambda>t. fst t \<le> now \<and> snd t = Reload_Timer) (pd_timers d)),
        pd_timers := filter (\<lambda>t. now < fst t) (pd_timers d)\<rparr>"
proof -
  have "Close_Timer n \<in> snd ` set (filter (\<lambda>t. fst t \<le> now) ts) \<longleftrightarrow> (\<exists>t \<le> now. (t, Close_Timer n) \<in> set ts)" for n ts
    by (force simp: image_iff)
  then show ?thesis
    unfolding fire_timers_def foldl_fire by (simp add: conj_commute)
qed

subsection \<open>Guides and the Escape key\<close>

definition shapes :: "dialog_page \<Rightarrow> (nat \<times> bool) list" where
  "shapes d = map (\<lambda>g. (dg_id g, is_guide (dg_view g))) (pd_dialogs d)"

fun callback_form :: "callback \<Rightarrow> nat set" where
  "callback_form (On_Profile n) = {n}"
| "callback_form (On_Password n) = {n}"
| "callback_form _ = {}"

text \<open>
  Numbers are used once, the listeners are exactly those of guides, every open guide still has
  its own, and the requests under way belong to forms.
\<close>

definition dialogs_ok :: "dialog_page \<Rightarrow> bool" where
  "dialogs_ok d \<longleftrightarrow>
     (\<forall>(n, b) \<in> set (shapes d). n < pd_next d \<and> (b \<longleftrightarrow> n \<in> set (pd_listeners d))) \<and>
     distinct (map fst (shapes d)) \<and>
     (\<forall>n \<in> set (pd_listeners d). n < pd_next d) \<and>
     (\<forall>r \<in> set (pd_requests d). \<forall>n \<in> callback_form (rq_then r). n < pd_next d \<and> n \<notin> set (pd_listeners d))"

text \<open>The invariant only looks at this part of the page.\<close>

lemma dialogs_ok_cong:
  "shapes d' = shapes d \<Longrightarrow> pd_next d' = pd_next d \<Longrightarrow> pd_listeners d' = pd_listeners d \<Longrightarrow>
     set (pd_requests d') \<subseteq> set (pd_requests d) \<Longrightarrow> dialogs_ok d \<Longrightarrow> dialogs_ok d'"
  unfolding dialogs_ok_def by simp (blast dest: subsetD)

lemma dialogs_ok_init: "dialogs_ok dialogs_init"
  by (simp add: dialogs_ok_def dialogs_init_def shapes_def)

lemma dialogs_ok_guide: "dialogs_ok d \<Longrightarrow> dialogs_ok (guide_modal t md d)"
  by (fastforce simp: dialogs_ok_def guide_modal_def add_dialog_def shapes_def)

lemma dialogs_ok_form: "dialogs_ok d \<Longrightarrow> dialogs_ok (modal_shell t s b d)"
  by (fastforce simp: dialogs_ok_def modal_shell_def add_dialog_def shapes_def)

lemma dialogs_ok_send:
  "dialogs_ok d \<Longrightarrow> \<forall>n \<in> callback_form k. n < pd_next d \<and> n \<notin> set (pd_listeners d) \<Longrightarrow>
     dialogs_ok (send m u h b k d)"
  by (auto simp: dialogs_ok_def send_def shapes_def)

lemma shapes_filter: "shapes (d \<lparr>pd_dialogs := filter (\<lambda>g. P (dg_id g)) gs\<rparr>) =
    filter (\<lambda>p. P (fst p)) (shapes (d \<lparr>pd_dialogs := gs\<rparr>))"
  by (simp add: shapes_def filter_map comp_def)

lemma dialogs_ok_filter:
  "dialogs_ok d \<Longrightarrow> dialogs_ok (d \<lparr>pd_dialogs := filter (\<lambda>g. P (dg_id g)) (pd_dialogs d)\<rparr>)"
  unfolding dialogs_ok_def shapes_filter by (auto simp: distinct_map_filter shapes_def)

lemma dialogs_ok_close: "dialogs_ok d \<Longrightarrow> dialogs_ok (close_modal n d)"
  unfolding close_modal_def by (rule dialogs_ok_filter)

lemma dialogs_ok_escape: "dialogs_ok d \<Longrightarrow> dialogs_ok (press_escape d)"
  unfolding press_escape_eq by (auto simp: dialogs_ok_def shapes_def distinct_map_filter comp_def)

lemma dialogs_ok_timers: "dialogs_ok d \<Longrightarrow> dialogs_ok (fire_timers now d)"
proof -
  assume ok: "dialogs_ok d"
  have "dialogs_ok (d \<lparr>pd_dialogs := filter (\<lambda>g. \<not> (\<exists>t \<le> now. (t, Close_Timer (dg_id g)) \<in> set (pd_timers d))) (pd_dialogs d)\<rparr>)"
    by (rule dialogs_ok_filter [OF ok])
  then show ?thesis
    unfolding fire_timers_eq by (rule dialogs_ok_cong [rotated 4]) (simp_all add: shapes_def)
qed

lemma shapes_set_message:
  "dialogs_ok d \<Longrightarrow> n \<notin> set (pd_listeners d) \<Longrightarrow> shapes (set_message n ok t d) = shapes d"
  by (auto simp: shapes_def set_message_def dialogs_ok_def)

lemma dialogs_ok_done:
  assumes "dialogs_ok d" and "n \<notin> set (pd_listeners d)"
  shows "dialogs_ok (form_done now n ok t d)"
proof -
  have "shapes (form_done now n ok t d) = shapes d"
    using shapes_set_message [OF assms] by (simp add: shapes_def form_done_frames)
  then show ?thesis by (rule dialogs_ok_cong) (simp_all add: form_done_frames assms)
qed

lemma shapes_fill: "map (\<lambda>g. (dg_id g, is_guide (dg_view g))) (fill_first_guide h gs) =
    map (\<lambda>g. (dg_id g, is_guide (dg_view g))) gs"
  by (induction gs) (auto split: view.split)

lemma dialogs_ok_onboarding_reply: "dialogs_ok d \<Longrightarrow> dialogs_ok (onboarding_reply r d)"
  by (erule dialogs_ok_cong [rotated 4]) (simp_all add: onboarding_reply_def shapes_def shapes_fill)

lemma dialogs_ok_frames: "dialogs_ok d \<Longrightarrow> dialogs_ok (run_frames d)"
  by (erule dialogs_ok_cong [rotated 4]) (auto simp: run_frames_def shapes_def)

lemma dialogs_ok_fields:
  "dialogs_ok (d \<lparr>pd_menu := b\<rparr>) = dialogs_ok d" "dialogs_ok (d \<lparr>pd_drawer := b\<rparr>) = dialogs_ok d"
  "dialogs_ok (d \<lparr>pd_location := l\<rparr>) = dialogs_ok d" "dialogs_ok (d \<lparr>pd_timers := ts\<rparr>) = dialogs_ok d"
  by (simp_all add: dialogs_ok_def shapes_def)

lemma dialogs_ok_menu: "dialogs_ok d \<Longrightarrow> dialogs_ok (menu_click u act d)"
  by (cases act) (simp_all add: menu_click_def Let_def open_profile_modal_def open_password_modal_def
      dialogs_ok_fields dialogs_ok_form dialogs_ok_send)

lemma dialogs_ok_onboarding: "dialogs_ok d \<Longrightarrow> dialogs_ok (click_onboarding d)"
  by (simp add: click_onboarding_def open_onboarding_def dialogs_ok_send dialogs_ok_guide dialogs_ok_fields)

lemma form_not_listening:
  "dialogs_ok d \<Longrightarrow> g \<in> set (pd_dialogs d) \<Longrightarrow> \<not> is_guide (dg_view g) \<Longrightarrow>
     dg_id g < pd_next d \<and> dg_id g \<notin> set (pd_listeners d)"
  by (force simp: dialogs_ok_def shapes_def)

lemma dialogs_ok_answer:
  assumes "dialogs_ok d" shows "dialogs_ok (answer now i r text d)"
proof (cases "i < length (pd_requests d)")
  case True
  define d1 where "d1 = d \<lparr>pd_requests := take i (pd_requests d) @ drop (Suc i) (pd_requests d)\<rparr>"
  have ok: "dialogs_ok d1"
    by (rule dialogs_ok_cong [OF _ _ _ _ assms])
       (auto simp: d1_def shapes_def dest: in_set_takeD in_set_dropD)
  have "callback_form (rq_then (pd_requests d ! i)) \<inter> set (pd_listeners d1) = {}"
    using assms nth_mem [OF True] by (auto simp: dialogs_ok_def d1_def)
  then show ?thesis using ok True
    by (cases "rq_then (pd_requests d ! i)"; cases r)
       (simp_all add: answer_def d1_def [symmetric] profile_reply_def password_reply_def logout_reply_def Let_def
          dialogs_ok_done dialogs_ok_onboarding_reply dialogs_ok_fields)
qed (simp add: answer_def assms)

lemma dialogs_ok_step: "dialog_step d d' \<Longrightarrow> dialogs_ok d \<Longrightarrow> dialogs_ok d'"
proof (induction rule: dialog_step.induct)
  case (Submit_Profile g d tok name email)
  then show ?case using form_not_listening [of d g] by (simp add: submit_profile_def dialogs_ok_send)
next
  case (Submit_Password g d now tok old_pw np np2)
  then show ?case using form_not_listening [of d g]
    by (auto simp: submit_password_def dialogs_ok_send dialogs_ok_done split: sum.split)
qed (simp_all add: dialogs_ok_guide dialogs_ok_onboarding dialogs_ok_menu dialogs_ok_close dialogs_ok_escape
    dialogs_ok_frames dialogs_ok_answer dialogs_ok_timers dialogs_ok_fields toggle_profile_menu_def
    click_document_def toggle_drawer_def click_scrim_def)

lemma dialogs_ok_reachable: "dialogs_reachable d \<Longrightarrow> dialogs_ok d"
  by (induction rule: dialogs_reachable.induct) (auto intro: dialogs_ok_init dialogs_ok_step)

text \<open>
  Escape dismisses the guides and nothing else: after any sequence of openings, closings,
  submissions, answers and timers, the key leaves no guide on the page and no listener on the
  document, while the forms stay as they are, in their order.
\<close>

theorem escape_closes_guides:
  assumes "dialogs_reachable d"
  shows "pd_dialogs (press_escape d) = filter (\<lambda>g. \<not> is_guide (dg_view g)) (pd_dialogs d)
    \<and> pd_listeners (press_escape d) = []"
proof -
  have "\<forall>g \<in> set (pd_dialogs d). is_guide (dg_view g) \<longleftrightarrow> dg_id g \<in> set (pd_listeners d)"
    using dialogs_ok_reachable [OF assms] by (auto simp: dialogs_ok_def shapes_def)
  then show ?thesis by (auto simp: press_escape_eq intro: filter_cong)
qed

definition demo_user :: user_info where
  "demo_user = \<lparr>ui_username = jl ''kim'', ui_display = [], ui_email = [], ui_role = jl ''user'', ui_provider = jl ''local''\<rparr>"

text \<open>The profile form over a guide.\<close>

definition demo_page :: dialog_page where
  "demo_page = menu_click demo_user Act_Profile (guide_modal (jl ''Guide'') (jl ''text'') dialogs_init)"

lemma demo_page_reachable: "dialogs_reachable demo_page"
  unfolding demo_page_def
  by (rule dialogs_reachable.Step [OF dialogs_reachable.Step [OF dialogs_reachable.Init dialog_step.Guide] dialog_step.Menu])

theorem escape_closes_guides_witness:
  "map dg_id (pd_dialogs demo_page) = [0, 1] \<and> map dg_id (pd_dialogs (press_escape demo_page)) = [1]"
  using escape_closes_guides [OF demo_page_reachable]
  by (simp add: demo_page_def menu_click_def open_profile_modal_def modal_shell_def guide_modal_def add_dialog_def
      dialogs_init_def)

subsection \<open>A successful save\<close>

lemma dialog_ids_fields [simp]:
  "dialog_ids (e \<lparr>pd_timers := ts\<rparr>) = dialog_ids e" "dialog_ids (e \<lparr>pd_location := l\<rparr>) = dialog_ids e"
  "dialog_ids (e \<lparr>pd_requests := rs\<rparr>) = dialog_ids e" "dialog_ids (e \<lparr>pd_menu := b\<rparr>) = dialog_ids e"
  "dialog_ids (e \<lparr>pd_drawer := b\<rparr>) = dialog_ids e" "dialog_ids (e \<lparr>pd_reloads := k\<rparr>) = dialog_ids e"
  by (simp_all add: dialog_ids_def)

lemma profile_reply_frames [dialog_frames]:
  "dialog_ids (profile_reply now n r d) = dialog_ids d" "pd_next (profile_reply now n r d) = pd_next d"
  "pd_reloads (profile_reply now n r d) = pd_reloads d" "set (pd_timers d) \<subseteq> set (pd_timers (profile_reply now n r d))"
  by (cases r; auto simp: profile_reply_def form_done_frames Let_def; fail)+

lemma password_reply_frames [dialog_frames]:
  "dialog_ids (password_reply now n r d) = dialog_ids d" "pd_next (password_reply now n r d) = pd_next d"
  "pd_reloads (password_reply now n r d) = pd_reloads d" "set (pd_timers d) \<subseteq> set (pd_timers (password_reply now n r d))"
  by (cases r; auto simp: password_reply_def form_done_frames; fail)+

lemma onboarding_reply_frames [dialog_frames]:
  "dialog_ids (onboarding_reply x d) = dialog_ids d" "pd_next (onboarding_reply x d) = pd_next d"
  "pd_reloads (onboarding_reply x d) = pd_reloads d" "pd_timers (onboarding_reply x d) = pd_timers d"
  by (simp_all add: onboarding_reply_def dialog_ids_def)

lemma logout_reply_frames [dialog_frames]:
  "dialog_ids (logout_reply b d) = dialog_ids d" "pd_next (logout_reply b d) = pd_next d"
  "pd_reloads (logout_reply b d) = pd_reloads d" "pd_timers (logout_reply b d) = pd_timers d"
  by (simp_all add: logout_reply_def)

text \<open>
  What a step may do to the dialogs' numbers and the timers: numbers are new or were there, a
  timer stays unless it is due, and then its effect has happened.
\<close>

definition step_frame :: "dialog_page \<Rightarrow> dialog_page \<Rightarrow> bool" where
  "step_frame d d' \<longleftrightarrow> pd_next d \<le> pd_next d' \<and> set (dialog_ids d') \<subseteq> set (dialog_ids d) \<union> {pd_next d..} \<and>
     pd_reloads d \<le> pd_reloads d' \<and>
     (\<forall>t n. (t, Close_Timer n) \<in> set (pd_timers d) \<longrightarrow> (t, Close_Timer n) \<in> set (pd_timers d') \<or> n \<notin> set (dialog_ids d')) \<and>
     (\<forall>t. (t, Reload_Timer) \<in> set (pd_timers d) \<longrightarrow> (t, Reload_Timer) \<in> set (pd_timers d') \<or> 0 < pd_reloads d')"

lemma step_frameI:
  "pd_next d \<le> pd_next d' \<Longrightarrow> set (dialog_ids d') \<subseteq> set (dialog_ids d) \<union> {pd_next d..} \<Longrightarrow>
     pd_reloads d = pd_reloads d' \<Longrightarrow> set (pd_timers d) \<subseteq> set (pd_timers d') \<Longrightarrow> step_frame d d'"
  unfolding step_frame_def by auto

lemma step_frame_answer: "step_frame d (answer now i r text d)"
proof (cases "i < length (pd_requests d)")
  case True
  define d1 where "d1 = d \<lparr>pd_requests := take i (pd_requests d) @ drop (Suc i) (pd_requests d)\<rparr>"
  have "dialog_ids d1 = dialog_ids d" "pd_next d1 = pd_next d" "pd_reloads d1 = pd_reloads d" "pd_timers d1 = pd_timers d"
    by (simp_all add: d1_def)
  then show ?thesis using True profile_reply_frames(4) [of d1 now _ r] password_reply_frames(4) [of d1 now _ r]
    by (cases "rq_then (pd_requests d ! i)")
       (simp_all add: step_frameI answer_def d1_def [symmetric] Let_def dialog_frames)
qed (auto intro!: step_frameI simp: answer_def)

lemma due_reload: "(due, Reload_Timer) \<in> set ts \<Longrightarrow> due \<le> now \<Longrightarrow>
    0 < length (filter (\<lambda>t. fst t \<le> now \<and> snd t = Reload_Timer) ts)"
  by (force simp: filter_empty_conv)

lemma fire_timers_frames:
  "set (dialog_ids (fire_timers now d)) = {n \<in> set (dialog_ids d). \<not> (\<exists>t \<le> now. (t, Close_Timer n) \<in> set (pd_timers d))}"
  "pd_next (fire_timers now d) = pd_next d" "pd_timers (fire_timers now d) = filter (\<lambda>t. now < fst t) (pd_timers d)"
  "pd_reloads (fire_timers now d) = pd_reloads d + length (filter (\<lambda>t. fst t \<le> now \<and> snd t = Reload_Timer) (pd_timers d))"
  by (auto simp: fire_timers_eq dialog_ids_def)

lemma step_frame_timers: "step_frame d (fire_timers now d)"
  unfolding step_frame_def fire_timers_frames using due_reload [of _ "pd_timers d" now] by (auto simp: not_less)

lemma press_escape_frames [dialog_frames]:
  "set (dialog_ids (press_escape d)) \<subseteq> set (dialog_ids d)" "pd_next (press_escape d) = pd_next d"
  "pd_timers (press_escape d) = pd_timers d" "pd_reloads (press_escape d) = pd_reloads d"
  by (auto simp: press_escape_eq dialog_ids_def)

lemma run_frames_frames [dialog_frames]:
  "dialog_ids (run_frames d) = dialog_ids d" "pd_next (run_frames d) = pd_next d"
  "pd_timers (run_frames d) = pd_timers d" "pd_reloads (run_frames d) = pd_reloads d"
  by (simp_all add: run_frames_def dialog_ids_def comp_def if_distrib [of dg_id] cong: if_cong)

lemma step_frame_step: "dialog_step d d' \<Longrightarrow> step_frame d d'"
proof (induction rule: dialog_step.induct)
  case (Menu d u act)
  show ?case
    by (rule step_frameI; cases act)
       (auto simp: menu_click_def Let_def open_profile_modal_def open_password_modal_def dialog_frames)
next
  case (Submit_Password g d now tok old_pw np np2)
  show ?case
    by (rule step_frameI) (auto simp: submit_password_def dialog_frames split: sum.split)
next
  case (Escape d)
  then show ?case using press_escape_frames(1) [of d] by (intro step_frameI) (auto simp: press_escape_frames(2-4))
qed (auto intro!: step_frameI step_frame_answer step_frame_timers
    simp: dialog_frames click_onboarding_def open_onboarding_def submit_profile_def
      toggle_profile_menu_def click_document_def toggle_drawer_def click_scrim_def)

definition closing :: "nat \<Rightarrow> nat \<Rightarrow> dialog_page \<Rightarrow> bool" where
  "closing n due d \<longleftrightarrow> n < pd_next d \<and> (n \<in> set (dialog_ids d) \<longrightarrow> (due, Close_Timer n) \<in> set (pd_timers d))"

definition reloading :: "nat \<Rightarrow> dialog_page \<Rightarrow> bool" where
  "reloading due d \<longleftrightarrow> 0 < pd_reloads d \<or> (due, Reload_Timer) \<in> set (pd_timers d)"

lemma closing_step: "step_frame d d' \<Longrightarrow> closing n due d \<Longrightarrow> closing n due d'"
  unfolding step_frame_def closing_def by fastforce

lemma reloading_step: "step_frame d d' \<Longrightarrow> reloading due d \<Longrightarrow> reloading due d'"
  unfolding step_frame_def reloading_def by fastforce

lemma closing_steps: "dialog_step\<^sup>*\<^sup>* d d' \<Longrightarrow> closing n due d \<Longrightarrow> closing n due d'"
  by (induction rule: rtranclp_induct) (auto intro: closing_step step_frame_step)

lemma reloading_steps: "dialog_step\<^sup>*\<^sup>* d d' \<Longrightarrow> reloading due d \<Longrightarrow> reloading due d'"
  by (induction rule: rtranclp_induct) (auto intro: reloading_step step_frame_step)

lemma closing_fire: "closing n due d \<Longrightarrow> due \<le> now \<Longrightarrow> n \<notin> set (dialog_ids (fire_timers now d))"
  unfolding closing_def fire_timers_frames by auto

lemma reloading_fire: "reloading due d \<Longrightarrow> due \<le> now \<Longrightarrow> 0 < pd_reloads (fire_timers now d)"
  unfolding reloading_def fire_timers_frames using due_reload [of due "pd_timers d" now] by auto

text \<open>
  C37. A successful save gets through: once the server has accepted the new profile data, whatever
  the user and the page do in between (other dialogs, Escape, further submissions and answers),
  when the timers of 0.8 seconds later have run, the form is gone and the page has been reloaded.
\<close>

theorem saved_profile_closes_and_reloads:
  assumes "n < pd_next d" and "dialog_step\<^sup>*\<^sup>* (profile_reply now n (Reply True err) d) d'" and "now + 800 \<le> later"
  shows "n \<notin> set (dialog_ids (fire_timers later d')) \<and> 0 < pd_reloads (fire_timers later d')"
proof -
  let ?d = "profile_reply now n (Reply True err) d"
  have "closing n (now + 800) ?d" "reloading (now + 700) ?d"
    using assms(1) by (simp_all add: closing_def reloading_def profile_reply_def Let_def form_done_frames)
  then show ?thesis
    using closing_fire [OF closing_steps [OF assms(2)] assms(3)]
      reloading_fire [OF reloading_steps [OF assms(2)], of "now + 700" later] assms(3) by simp
qed

theorem saved_profile_closes_and_reloads_witness:
  "1 \<notin> set (dialog_ids (fire_timers 900 (toggle_drawer (profile_reply 100 1 (Reply True []) demo_page))))"
proof -
  have "1 < pd_next demo_page"
    by (simp add: demo_page_def menu_click_def open_profile_modal_def guide_modal_frames modal_shell_frames dialogs_init_def)
  moreover have "dialog_step\<^sup>*\<^sup>* (profile_reply 100 1 (Reply True []) demo_page)
      (toggle_drawer (profile_reply 100 1 (Reply True []) demo_page))"
    using dialog_step.Drawer by blast
  ultimately show ?thesis
    using saved_profile_closes_and_reloads [of 1 demo_page 100 "[]" _ 900] by simp
qed

subsection \<open>What a form reports\<close>

definition message_of :: "nat \<Rightarrow> dialog_page \<Rightarrow> view option" where
  "message_of n d = map_option dg_view (find (\<lambda>g. dg_id g = n) (pd_dialogs d))"

definition good :: "js \<Rightarrow> view" where "good text = Form_View (jl ''msg ok'') text"
definition bad :: "js \<Rightarrow> view" where "bad text = Form_View (jl ''msg bad'') text"

lemma message_of_set:
  assumes "n \<in> set (dialog_ids d)"
  shows "message_of n (set_message n ok t d) = Some (if ok then good t else bad t)"
proof -
  obtain g where "find (\<lambda>g. dg_id g = n) (pd_dialogs d) = Some g"
    using assms by (cases "find (\<lambda>g. dg_id g = n) (pd_dialogs d)") (auto simp: dialog_ids_def find_None_iff)
  moreover from this have "dg_id g = n" by (auto simp: find_Some_iff)
  ultimately show ?thesis
    by (simp add: message_of_def set_message_def find_map_key good_def bad_def)
qed

lemma message_of_fields [simp]:
  "message_of n (d \<lparr>pd_requests := rs\<rparr>) = message_of n d" "message_of n (d \<lparr>pd_timers := ts\<rparr>) = message_of n d"
  by (simp_all add: message_of_def)

lemma message_of_done:
  "n \<in> set (dialog_ids d) \<Longrightarrow> message_of n (form_done now n ok t d) = Some (if ok then good t else bad t)"
  by (simp add: form_done_def Let_def message_of_set)

definition password_request :: "nat \<Rightarrow> js option \<Rightarrow> js \<Rightarrow> js \<Rightarrow> request" where
  "password_request n tok old_pw new_pw = \<lparr>rq_method = jl ''PUT'', rq_url = jl ''/auth/password'',
     rq_headers = token_headers True tok,
     rq_body = [(jl ''old_password'', old_pw), (jl ''new_password'', new_pw)], rq_then = On_Password n\<rparr>"

text \<open>
  C36. How a password change can end: a new password of fewer than eight code units and two that
  differ are refused on the spot, with their own messages and without a request; otherwise exactly
  one request carries the old and the new password, and when it ends the form reports the success,
  the server's error (a default text when it names none) or the failure of the request itself;
  only a success makes the form close later. No request of the form stays under way.
\<close>

theorem password_change_outcome:
  assumes "n \<in> set (dialog_ids d)"
    and "d1 = submit_password now n tok old_pw np np2 d"
    and "d2 = (if 8 \<le> length np \<and> np = np2 then answer later (length (pd_requests d)) r None d1 else d1)"
  shows "message_of n d2 = Some (if length np < 8 then bad too_short_msg else if np \<noteq> np2 then bad mismatch_msg
      else case r of Reply True e \<Rightarrow> good changed | Reply False e \<Rightarrow> bad (or_else e change_failed) | Rejected m \<Rightarrow> bad m)
    \<and> pd_requests d1 = pd_requests d @
      (if 8 \<le> length np \<and> np = np2 then [password_request n tok old_pw np] else [])
    \<and> pd_requests d2 = pd_requests d
    \<and> pd_timers d2 = pd_timers d @
      (if 8 \<le> length np \<and> np = np2 then (case r of Reply True e \<Rightarrow> [(later + 800, Close_Timer n)] | _ \<Rightarrow> []) else [])"
proof -
  consider "length np < 8" | "8 \<le> length np" "np \<noteq> np2" | "8 \<le> length np" "np = np2" by linarith
  then show ?thesis
  proof cases
    case 3
    then have d1: "d1 = d \<lparr>pd_requests := pd_requests d @ [password_request n tok old_pw np]\<rparr>"
      by (simp add: assms(2) submit_password_def password_submit_def send_def password_request_def del: list.map)
    have "d2 = password_reply later n r d"
      using 3 by (simp add: assms(3) d1 answer_def password_request_def del: list.map)
    then show ?thesis using 3 assms(1) d1
      by (cases r) (simp_all add: password_reply_def message_of_done form_done_frames del: list.map split: bool.split)
  qed (simp_all add: assms submit_password_def password_submit_def message_of_done form_done_frames del: list.map)
qed

theorem password_change_outcome_witness:
  "message_of 1 (submit_password 0 1 None [] (jl ''secret'') (jl ''secret'') demo_page) = Some (bad too_short_msg)
   \<and> message_of 1 (answer 9 (length (pd_requests demo_page)) (Reply False []) None
       (submit_password 0 1 None [] (jl ''longsecret'') (jl ''longsecret'') demo_page)) = Some (bad change_failed)"
proof -
  have "1 \<in> set (dialog_ids demo_page)"
    by (simp add: demo_page_def menu_click_def open_profile_modal_def dialog_frames dialogs_init_def dialog_ids_def
        guide_modal_def modal_shell_def add_dialog_def)
  from password_change_outcome [OF this refl refl, where np = "jl ''secret''" and ?np2.0 = "jl ''secret''"]
    password_change_outcome [OF this refl refl, where np = "jl ''longsecret''" and ?np2.0 = "jl ''longsecret''" and r = "Reply False []"]
  show ?thesis by (simp add: or_else_def)
qed

subsection \<open>Markup and the onboarding guide\<close>

definition profile_form_literals :: "js set" where
  "profile_form_literals = {name_open, value_to_placeholder, email_open, email_close}"

text \<open>The account's fields stay inside their attributes.\<close>

lemma profile_body_inert: "frag profile_form_literals (profile_body u)"
  unfolding profile_body_def by (intro frag_append frag_esc frag_tag) (simp_all add: profile_form_literals_def)

lemma guide_title_inert: "frag {guide_head, guide_mid, md_to_html md, jl ''</div></div>''} (guide_html title md)"
  unfolding guide_html_def by (intro frag_append frag_esc frag_tag) simp_all

lemma fill_first_guide_own:
  "\<forall>g \<in> set gs. \<not> (dg_shown g \<and> is_guide (dg_view g)) \<Longrightarrow> dg_shown h \<and> is_guide (dg_view h) \<Longrightarrow>
     fill_first_guide html (gs @ [h]) = gs @ [h \<lparr>dg_view := Guide_View html\<rparr>]"
  by (induction gs) auto

text \<open>
  The onboarding text goes to the first guide that is shown: with another guide open before it,
  that guide is overwritten and the onboarding dialog keeps its loading text.
\<close>

definition two_guides :: dialog_page where
  "two_guides = run_frames (click_onboarding (guide_modal (jl ''Guide'') (jl ''text'') dialogs_init))"

lemma onboarding_fills_other_guide:
  "map dg_view (pd_dialogs (onboarding_reply (Some md) two_guides)) =
     [Guide_View (md_to_html md), Guide_View (md_to_html loading_text)]"
  by (simp add: two_guides_def run_frames_def click_onboarding_def open_onboarding_def send_def guide_modal_def
      add_dialog_def dialogs_init_def onboarding_reply_def)

end
