(* ===== verification/Web_Docs.thy ===== *)
theory Web_Docs
  imports Web_Markdown
begin

text \<open>
  The documentation site's script (\<open>docs/assets/app.js\<close>): the language switch, the three groups of
  tabs, the tool filter, the FAQ accordion, the toast and the mobile menu. The document is a
  record with the attributes and classes the script reads and writes; an element list is in
  document order. A missing attribute is \<open>None\<close>, and so is \<open>dc_menu\<close> on a page without the menu
  button or the links. \<open>dc_copy_btns\<close> holds, for each copy button, the text of the \<open>pre\<close> in its
  code block (\<open>None\<close> when there is none), \<open>dc_copying\<close> the clipboard writes under way.
\<close>

subsection \<open>The toast\<close>

text \<open>
  Whether it is shown, its markup, and the due times of the pending timers. The element is created
  on first use; before that it is not shown and has no markup.
\<close>

record toast =
  ts_shown :: bool
  ts_html :: js
  ts_timers :: "nat list"

definition toast_html :: "js \<Rightarrow> js" where
  "toast_html msg = jl ''<span>'' @ [10003] @ jl ''</span> <span>'' @ msg @ jl ''</span>''"

definition show_toast :: "nat \<Rightarrow> js \<Rightarrow> toast \<Rightarrow> toast" where
  "show_toast now msg t = \<lparr>ts_shown = True, ts_html = toast_html msg, ts_timers = ts_timers t @ [now + 2500]\<rparr>"

definition run_timers :: "nat \<Rightarrow> toast \<Rightarrow> toast" where
  "run_timers now t =
     (if \<exists>due \<in> set (ts_timers t). due \<le> now
      then t \<lparr>ts_shown := False, ts_timers := filter (\<lambda>due. now < due) (ts_timers t)\<rparr> else t)"

lemma toast_hidden_after_last:
  "run_timers (now + 2500) (show_toast now msg t) = r \<Longrightarrow> \<not> ts_shown r"
  by (auto simp: run_timers_def show_toast_def)

text \<open>
  A second message within 2.5 seconds is cut short by the first one's timer: shown at \<open>t2\<close>, it
  disappears at \<open>t1 + 2500\<close>.
\<close>

lemma second_toast_cut_short:
  assumes "t1 < t2" "t2 < t1 + 2500" "ts_timers t = []"
  shows "\<not> ts_shown (run_timers (t1 + 2500) (show_toast t2 m2 (run_timers t2 (show_toast t1 m1 t))))"
  using assms by (simp add: run_timers_def show_toast_def)

subsection \<open>The document\<close>

record lang_el =
  le_ko :: "js option"
  le_en :: "js option"
  le_content :: js

record marked =
  mk_attr :: "js option"
  mk_active :: bool

record shown =
  sw_id :: "js option"
  sw_display :: js

record docs =
  dc_store :: "js option"
  dc_html_lang :: js
  dc_lang_btns :: "marked list"
  dc_texts :: "lang_el list"
  dc_htmls :: "lang_el list"
  dc_sim_tabs :: "marked list"
  dc_sim_steps :: "marked list"
  dc_tool_tabs :: "marked list"
  dc_tool_items :: "shown list"
  dc_code_btns :: "marked list"
  dc_code_blocks :: "shown list"
  dc_faq :: "bool list"
  dc_menu :: "bool option"
  dc_copy_btns :: "js option list"
  dc_copying :: "js list"
  dc_clipboard :: "js option"
  dc_toast :: toast

subsection \<open>Language\<close>

definition truthy :: "js option \<Rightarrow> bool" where
  "truthy a \<longleftrightarrow> (case a of Some s \<Rightarrow> s \<noteq> [] | None \<Rightarrow> False)"

definition switch_el :: "js \<Rightarrow> lang_el \<Rightarrow> lang_el" where
  "switch_el lang el =
     (if lang = jl ''en'' \<and> truthy (le_en el) then el \<lparr>le_content := the (le_en el)\<rparr>
      else if lang = jl ''ko'' \<and> truthy (le_ko el) then el \<lparr>le_content := the (le_ko el)\<rparr>
      else el)"

definition mark_equal :: "js \<Rightarrow> marked \<Rightarrow> marked" where
  "mark_equal v b = b \<lparr>mk_active := (mk_attr b = Some v)\<rparr>"

text \<open>
  \<open>dc_texts\<close> are the elements with \<open>data-ko\<close>, \<open>dc_htmls\<close> those with \<open>data-html-ko\<close>; for the former
  \<open>le_content\<close> is \<open>textContent\<close>, for the latter \<open>innerHTML\<close>.
\<close>

definition set_language :: "js \<Rightarrow> docs \<Rightarrow> docs" where
  "set_language lang d = d \<lparr>
     dc_store := Some lang,
     dc_html_lang := lang,
     dc_lang_btns := map (mark_equal lang) (dc_lang_btns d),
     dc_texts := map (switch_el lang) (dc_texts d),
     dc_htmls := map (switch_el lang) (dc_htmls d)\<rparr>"

definition init_language :: "docs \<Rightarrow> docs" where
  "init_language d = set_language (if truthy (dc_store d) then the (dc_store d) else jl ''ko'') d"

text \<open>A click on button \<open>i\<close>; \<open>setItem\<close> and \<open>lang\<close> turn a missing attribute into \<open>"null"\<close>.\<close>

definition click_lang :: "nat \<Rightarrow> docs \<Rightarrow> docs" where
  "click_lang i d =
     (if i < length (dc_lang_btns d)
      then (case mk_attr (dc_lang_btns d ! i) of
              Some l \<Rightarrow> set_language l d
            | None \<Rightarrow> d \<lparr>dc_store := Some (jl ''null''), dc_html_lang := jl ''null'',
                dc_lang_btns := map (\<lambda>b. b \<lparr>mk_active := (mk_attr b = None)\<rparr>) (dc_lang_btns d)\<rparr>)
      else d)"

subsection \<open>Tabs\<close>

definition activate :: "nat \<Rightarrow> marked list \<Rightarrow> marked list" where
  "activate i ts = map (\<lambda>(k, t). t \<lparr>mk_active := (k = i)\<rparr>) (zip [0..<length ts] ts)"

text \<open>\<open>getElementById\<close> finds the first element with the id.\<close>

fun mark_first :: "js \<Rightarrow> marked list \<Rightarrow> marked list" where
  "mark_first v [] = []"
| "mark_first v (t # ts) = (if mk_attr t = Some v then t \<lparr>mk_active := True\<rparr> # ts else t # mark_first v ts)"

fun display_first :: "js option \<Rightarrow> js \<Rightarrow> shown list \<Rightarrow> shown list" where
  "display_first v disp [] = []"
| "display_first v disp (t # ts) =
     (if v \<noteq> None \<and> sw_id t = v then t \<lparr>sw_display := disp\<rparr> # ts else t # display_first v disp ts)"

definition click_sim_tab :: "nat \<Rightarrow> docs \<Rightarrow> docs" where
  "click_sim_tab i d =
     (if i < length (dc_sim_tabs d)
      then let target = (case mk_attr (dc_sim_tabs d ! i) of Some v \<Rightarrow> v | None \<Rightarrow> jl ''null'') in
        d \<lparr>dc_sim_tabs := activate i (dc_sim_tabs d),
           dc_sim_steps := mark_first (jl ''sim-'' @ target)
             (map (\<lambda>s. s \<lparr>mk_active := False\<rparr>) (dc_sim_steps d))\<rparr>
      else d)"

definition click_tool_tab :: "nat \<Rightarrow> docs \<Rightarrow> docs" where
  "click_tool_tab i d =
     (if i < length (dc_tool_tabs d)
      then let category = mk_attr (dc_tool_tabs d ! i) in
        d \<lparr>dc_tool_tabs := activate i (dc_tool_tabs d),
           dc_tool_items := map (\<lambda>it. it \<lparr>sw_display :=
             (if category = Some (jl ''all'') \<or> sw_id it = category then jl ''flex'' else jl ''none'')\<rparr>)
             (dc_tool_items d)\<rparr>
      else d)"

definition click_code_btn :: "nat \<Rightarrow> docs \<Rightarrow> docs" where
  "click_code_btn i d =
     (if i < length (dc_code_btns d)
      then d \<lparr>dc_code_btns := activate i (dc_code_btns d),
              dc_code_blocks := display_first (mk_attr (dc_code_btns d ! i)) (jl ''block'')
                (map (\<lambda>c. c \<lparr>sw_display := jl ''none''\<rparr>) (dc_code_blocks d))\<rparr>
      else d)"

subsection \<open>Accordion and menu\<close>

definition click_faq :: "nat \<Rightarrow> docs \<Rightarrow> docs" where
  "click_faq i d =
     (if i < length (dc_faq d)
      then let was_open = dc_faq d ! i; closed = map (\<lambda>_. False) (dc_faq d) in
        d \<lparr>dc_faq := (if was_open then closed else closed[i := True])\<rparr>
      else d)"

definition toggle_menu :: "docs \<Rightarrow> docs" where
  "toggle_menu d = d \<lparr>dc_menu := map_option Not (dc_menu d)\<rparr>"

definition follow_menu_link :: "docs \<Rightarrow> docs" where
  "follow_menu_link d = d \<lparr>dc_menu := map_option (\<lambda>_. False) (dc_menu d)\<rparr>"

subsection \<open>Copy buttons\<close>

text \<open>Without a block or a \<open>pre\<close> the handler throws before it writes anything.\<close>

definition click_copy :: "nat \<Rightarrow> docs \<Rightarrow> docs" where
  "click_copy i d =
     (if i < length (dc_copy_btns d)
      then (case dc_copy_btns d ! i of
              Some code \<Rightarrow> d \<lparr>dc_copying := dc_copying d @ [code]\<rparr>
            | None \<Rightarrow> d)
      else d)"

definition copied_message :: "js \<Rightarrow> js" where
  "copied_message lang =
     (if lang = jl ''ko'' then [48373, 49324, 46104, 50632, 49845, 45768, 45796, 33] else jl ''Copied to clipboard!'')"

text \<open>
  The oldest write ends, with success or not; the message is chosen by the page's language at
  that moment, and a refused write shows nothing.
\<close>

definition copy_ended :: "nat \<Rightarrow> bool \<Rightarrow> docs \<Rightarrow> docs" where
  "copy_ended now ok d =
     (case dc_copying d of
        [] \<Rightarrow> d
      | code # rest \<Rightarrow>
          if ok then d \<lparr>dc_copying := rest, dc_clipboard := Some code,
            dc_toast := show_toast now (copied_message (dc_html_lang d)) (dc_toast d)\<rparr>
          else d \<lparr>dc_copying := rest\<rparr>)"

definition docs_timers :: "nat \<Rightarrow> docs \<Rightarrow> docs" where
  "docs_timers now d = d \<lparr>dc_toast := run_timers now (dc_toast d)\<rparr>"

inductive docs_step :: "docs \<Rightarrow> docs \<Rightarrow> bool" where
  Lang: "docs_step d (click_lang i d)"
| Sim: "docs_step d (click_sim_tab i d)"
| Tool: "docs_step d (click_tool_tab i d)"
| Code: "docs_step d (click_code_btn i d)"
| Faq: "docs_step d (click_faq i d)"
| Menu: "docs_step d (toggle_menu d)"
| Link: "docs_step d (follow_menu_link d)"
| Copy: "docs_step d (click_copy i d)"
| Copied: "docs_step d (copy_ended now ok d)"
| Timers: "docs_step d (docs_timers now d)"

inductive docs_run :: "docs \<Rightarrow> docs \<Rightarrow> bool" where
  Load: "docs_run d (init_language d)"
| Click: "docs_run d d' \<Longrightarrow> docs_step d' d'' \<Longrightarrow> docs_run d d''"

inductive_cases docs_stepE: "docs_step d d'"

text \<open>A small page, for the examples below.\<close>

definition demo_docs :: docs where
  "demo_docs = \<lparr>dc_store = None, dc_html_lang = [],
    dc_lang_btns = [\<lparr>mk_attr = Some (jl ''ko''), mk_active = False\<rparr>, \<lparr>mk_attr = Some (jl ''en''), mk_active = False\<rparr>],
    dc_texts = [\<lparr>le_ko = Some [44032], le_en = Some (jl ''a''), le_content = []\<rparr>], dc_htmls = [],
    dc_sim_tabs = [\<lparr>mk_attr = Some (jl ''a''), mk_active = True\<rparr>, \<lparr>mk_attr = Some (jl ''b''), mk_active = False\<rparr>],
    dc_sim_steps = [\<lparr>mk_attr = Some (jl ''sim-a''), mk_active = True\<rparr>, \<lparr>mk_attr = Some (jl ''sim-b''), mk_active = False\<rparr>],
    dc_tool_tabs = [], dc_tool_items = [], dc_code_btns = [], dc_code_blocks = [],
    dc_faq = [True, False], dc_menu = Some False, dc_copy_btns = [Some (jl ''go run'')], dc_copying = [],
    dc_clipboard = None, dc_toast = \<lparr>ts_shown = False, ts_html = [], ts_timers = []\<rparr>\<rparr>"

subsection \<open>Properties\<close>

lemma length_activate [simp]: "length (activate i ts) = length ts"
  by (simp add: activate_def)

lemma activate_nth: "k < length ts \<Longrightarrow> activate i ts ! k = (ts ! k) \<lparr>mk_active := (k = i)\<rparr>"
  by (simp add: activate_def)

lemma switch_el_idem [simp]: "switch_el lang (switch_el lang el) = switch_el lang el"
  by (simp add: switch_el_def)

lemma mark_equal_idem [simp]: "mark_equal v (mark_equal v b) = mark_equal v b"
  by (simp add: mark_equal_def)

lemma set_language_idem: "set_language lang (set_language lang d) = set_language lang d"
  by (simp add: set_language_def comp_def)



lemma mark_first_none: "\<forall>t \<in> set ts. mk_attr t \<noteq> Some v \<Longrightarrow> mark_first v ts = ts"
  by (induction ts) auto

lemma mark_first_active:
  assumes "\<forall>t \<in> set ts. \<not> mk_active t" and "distinct (map mk_attr ts)"
  shows "t \<in> set (mark_first v ts) \<Longrightarrow> mk_active t \<longleftrightarrow> mk_attr t = Some v"
  using assms
proof (induction ts)
  case (Cons s ts)
  show ?case
  proof (cases "mk_attr s = Some v")
    case True
    with Cons.prems have "\<forall>t \<in> set ts. mk_attr t \<noteq> Some v" by (auto simp: image_iff)
    with True Cons.prems show ?thesis by auto
  next
    case False
    with Cons show ?thesis by auto
  qed
qed simp

text \<open>
  The simulator shows one step at a time: after a click on a tab, that tab is the only active
  one, and the active steps are exactly the step the tab names (step ids being unique).
\<close>

theorem sim_tab_exclusive:
  assumes "i < length (dc_sim_tabs d)" and "mk_attr (dc_sim_tabs d ! i) = Some v"
    and "distinct (map mk_attr (dc_sim_steps d))"
  shows "(\<forall>k < length (dc_sim_tabs d). mk_active (dc_sim_tabs (click_sim_tab i d) ! k) \<longleftrightarrow> k = i) \<and>
    (\<forall>s \<in> set (dc_sim_steps (click_sim_tab i d)). mk_active s \<longleftrightarrow> mk_attr s = Some (jl ''sim-'' @ v))"
proof -
  let ?off = "map (\<lambda>s. s \<lparr>mk_active := False\<rparr>) (dc_sim_steps d)"
  have "\<forall>t \<in> set ?off. \<not> mk_active t" "distinct (map mk_attr ?off)"
    using assms(3) by (auto simp: comp_def)
  then have "\<forall>s \<in> set (mark_first (jl ''sim-'' @ v) ?off). mk_active s \<longleftrightarrow> mk_attr s = Some (jl ''sim-'' @ v)"
    using mark_first_active by blast
  with assms(1,2) show ?thesis
    by (simp add: click_sim_tab_def activate_nth del: list.map)
qed

theorem sim_tab_exclusive_witness:
  "mk_active (dc_sim_tabs (click_sim_tab 1 demo_docs) ! 1) \<and> \<not> mk_active (dc_sim_tabs (click_sim_tab 1 demo_docs) ! 0)"
  using sim_tab_exclusive [of 1 demo_docs "jl ''b''"] by (simp add: demo_docs_def)

lemma click_faq_at_most_one:
  "length (filter id (dc_faq d)) \<le> 1 \<Longrightarrow> length (filter id (dc_faq (click_faq i d))) \<le> 1"
proof -
  have none: "filter id (map (\<lambda>_. False) xs) = []" for xs :: "bool list"
    by (induction xs) auto
  have one: "length (filter id ((map (\<lambda>_. False) xs)[k := True])) \<le> 1" for xs :: "bool list" and k
    by (induction xs arbitrary: k) (auto simp: none split: nat.split)
  assume "length (filter id (dc_faq d)) \<le> 1"
  then show ?thesis by (simp add: click_faq_def Let_def none one del: One_nat_def)
qed

lemma faq_frame:
  "dc_faq (init_language d) = dc_faq d" "dc_faq (click_lang i d) = dc_faq d"
  "dc_faq (click_sim_tab i d) = dc_faq d" "dc_faq (click_tool_tab i d) = dc_faq d"
  "dc_faq (click_code_btn i d) = dc_faq d" "dc_faq (toggle_menu d) = dc_faq d"
  "dc_faq (follow_menu_link d) = dc_faq d" "dc_faq (click_copy i d) = dc_faq d"
  "dc_faq (copy_ended now ok d) = dc_faq d" "dc_faq (docs_timers now d) = dc_faq d"
  by (simp_all add: click_copy_def copy_ended_def docs_timers_def init_language_def set_language_def click_lang_def click_sim_tab_def click_tool_tab_def
      click_code_btn_def toggle_menu_def follow_menu_link_def Let_def split: option.split list.split)

text \<open>
  The FAQ is an accordion: from a page with at most one open answer, no sequence of clicks,
  on whatever part of the page, ever leaves two answers open.
\<close>

theorem faq_at_most_one_open:
  "docs_run d d' \<Longrightarrow> length (filter id (dc_faq d)) \<le> 1 \<Longrightarrow> length (filter id (dc_faq d')) \<le> 1"
proof (induction rule: docs_run.induct)
  case (Click d d' d'')
  then show ?case
    by (elim docs_stepE) (simp_all only: faq_frame click_faq_at_most_one)
qed (simp add: faq_frame)

theorem faq_at_most_one_open_witness:
  "length (filter id (dc_faq (click_faq 1 (init_language demo_docs)))) \<le> 1"
  by (rule faq_at_most_one_open [OF docs_run.Click [OF docs_run.Load docs_step.Faq]]) (simp add: demo_docs_def)

lemma tool_filter:
  assumes "i < length (dc_tool_tabs d)"
  shows "map sw_display (dc_tool_items (click_tool_tab i d)) =
    map (\<lambda>it. if mk_attr (dc_tool_tabs d ! i) \<in> {Some (jl ''all''), sw_id it} then jl ''flex'' else jl ''none'')
      (dc_tool_items d)"
  using assms by (auto simp: click_tool_tab_def Let_def comp_def)

text \<open>A copied block ends up on the clipboard as it is, and the toast speaks the page's language.\<close>

lemma copy_block:
  assumes "i < length (dc_copy_btns d)" "dc_copy_btns d ! i = Some code" "dc_copying d = []"
  shows "dc_clipboard (copy_ended now True (click_copy i d)) = Some code"
    "ts_html (dc_toast (copy_ended now True (click_copy i (set_language lang d)))) = toast_html (copied_message lang)"
  using assms by (simp_all add: click_copy_def copy_ended_def show_toast_def set_language_def)

end
