(* ===== verification/Dialect.thy ===== *)
theory Dialect
  imports Sql_Guard
begin

text \<open>
  The SQL dialects (\<open>internal/dbconn/dialect.go\<close>): resolution of the profile type, the deny lists,
  the row-limiting and counting wrappers, the short connect string, and the data source that
  \<open>BuildDSN\<close> assembles. URL and DSN parsing belong to Go's \<open>net/url\<close> and to the MySQL driver and
  are arguments; the assembled source is a record instead of the driver's rendering of it.
\<close>

datatype dialect = Postgres | Mysql | Mariadb

fun dialect_name :: "dialect \<Rightarrow> string" where
  "dialect_name Postgres = ''postgres''"
| "dialect_name Mysql = ''mysql''"
| "dialect_name Mariadb = ''mariadb''"

fun driver_name :: "dialect \<Rightarrow> string" where
  "driver_name Postgres = ''pgx''"
| "driver_name Mysql = ''mysql''"
| "driver_name Mariadb = ''mysql''"

definition dialect_for :: "string \<Rightarrow> dialect option" where
  "dialect_for typ =
     (let t = to_lower (trim_space typ) in
      if t \<in> set [[], ''postgres'', ''postgresql'', ''pg''] then Some Postgres
      else if t = ''mysql'' then Some Mysql
      else if t \<in> set [''mariadb'', ''maria''] then Some Mariadb
      else None)"

fun denied_extras :: "dialect \<Rightarrow> string list" where
  "denied_extras Postgres =
    [''DO'', ''COPY'', ''VACUUM'', ''REINDEX'', ''CLUSTER'', ''CHECKPOINT'',
     ''LISTEN'', ''NOTIFY'', ''REFRESH'', ''SECURITY'',
     ''PG_SLEEP'', ''PG_READ_'', ''PG_LS_'', ''PG_STAT_FILE'',
     ''PG_TERMINATE_BACKEND'', ''PG_CANCEL_BACKEND'', ''PG_RELOAD_CONF'',
     ''LO_IMPORT'', ''LO_EXPORT'', ''DBLINK'']"
| "denied_extras _ =
    [''REPLACE'', ''HANDLER'', ''SHUTDOWN'', ''INSTALL'', ''UNINSTALL'',
     ''RESET'', ''PURGE'', ''FLUSH'', ''KILL'', ''CHANGE'',
     ''OUTFILE'', ''DUMPFILE'', ''LOAD_FILE'', ''LOAD'',
     ''SLEEP'', ''BENCHMARK'', ''GET_LOCK'', ''RELEASE_LOCK'', ''MASTER_'']"

lemma dialect_for_names:
  "dialect_for ''postgres'' = Some Postgres" "dialect_for ''mysql'' = Some Mysql" "dialect_for ''mariadb'' = Some Mariadb"
  "dialect_for [] = Some Postgres"
  by code_simp+

lemma dialect_for_name [simp]: "dialect_for (dialect_name d) = Some d"
  by (cases d) (simp_all add: dialect_for_names)

subsection \<open>Wrapping a query\<close>

definition trim_sql :: "string \<Rightarrow> string" where
  "trim_sql sql = trim_suffix (trim_space sql) '';''"

text \<open>A regular expression as the list of remainders after each possible match.\<close>

type_synonym matcher = "string \<Rightarrow> string list"

definition re_lit :: "string \<Rightarrow> matcher" where
  "re_lit l s = (if length l \<le> length s \<and> to_upper (take (length l) s) = l then [drop (length l) s] else [])"

definition re_many :: "nat \<Rightarrow> (char \<Rightarrow> bool) \<Rightarrow> matcher" where
  "re_many least P s = map (\<lambda>k. drop k s) [least..<Suc (length (takeWhile P s))]"

definition re_seq :: "matcher \<Rightarrow> matcher \<Rightarrow> matcher" where
  "re_seq f g s = concat (map g (f s))"

definition re_opt :: "matcher \<Rightarrow> matcher" where
  "re_opt f s = f s @ [s]"

definition limit_clause :: matcher where
  "limit_clause =
     re_seq (re_lit ''LIMIT'') (re_seq (re_many 1 is_re_space) (re_seq (re_many 1 is_digit)
       (re_seq (re_opt (re_seq (re_many 0 is_re_space) (re_seq (re_lit '','') (re_seq (re_many 0 is_re_space) (re_many 1 is_digit)))))
       (re_seq (re_opt (re_seq (re_many 1 is_re_space) (re_seq (re_lit ''OFFSET'') (re_seq (re_many 1 is_re_space) (re_many 1 is_digit)))))
       (re_many 0 is_re_space)))))"

text \<open>\<open>(?is)\bLIMIT\s+\d+(\s*,\s*\d+)?(\s+OFFSET\s+\d+)?\s*$\<close>, searched from every position.\<close>

fun limit_search :: "bool \<Rightarrow> string \<Rightarrow> bool" where
  "limit_search prev [] = False"
| "limit_search prev (c # cs) \<longleftrightarrow>
     (\<not> prev \<and> [] \<in> set (limit_clause (c # cs))) \<or> limit_search (is_word c) cs"

definition mysql_trailing_limit :: "string \<Rightarrow> bool" where
  "mysql_trailing_limit s = limit_search False s"

definition wrap_suffix :: "nat \<Rightarrow> string" where
  "wrap_suffix n = '') AS jamypg_q LIMIT '' @ show_nat n"

definition derived_wrap :: "string \<Rightarrow> nat \<Rightarrow> string" where
  "derived_wrap q n = ''SELECT * FROM ('' @ q @ wrap_suffix n"

definition starts_with_with :: "string \<Rightarrow> bool" where
  "starts_with_with s = keyword_at ''WITH'' (dropWhile is_re_space s)"

fun wrap_limit :: "dialect \<Rightarrow> string \<Rightarrow> nat \<Rightarrow> string" where
  "wrap_limit Postgres sql n = derived_wrap (trim_sql sql) n"
| "wrap_limit _ sql n =
     (let q = trim_sql sql in
      if starts_with_with q
      then (if mysql_trailing_limit (strip_sql q) then q else q @ '' LIMIT '' @ show_nat n)
      else derived_wrap q n)"

definition count_wrap :: "string \<Rightarrow> string" where
  "count_wrap sql = ''SELECT COUNT(*) FROM ('' @ trim_sql sql @ '') AS jamypg_q''"

subsection \<open>What the database sees of the wrapper\<close>

text \<open>The scanner's mode at the end of a text.\<close>

fun mode_end :: "strip_mode \<Rightarrow> string \<Rightarrow> strip_mode" where
  "mode_end m [] = m"
| "mode_end In_Line (c # cs) = mode_end (if c = newline then Normal else In_Line) cs"
| "mode_end In_Block (c # cs) =
     (case cs of d # ds \<Rightarrow> if c = CHR ''*'' \<and> d = CHR ''/'' then mode_end Normal ds else mode_end In_Block cs
      | [] \<Rightarrow> In_Block)"
| "mode_end In_Single (c # cs) =
     (if c = quote
      then (case cs of d # ds \<Rightarrow> if d = quote then mode_end In_Single ds else mode_end Normal cs
            | [] \<Rightarrow> Normal)
      else mode_end In_Single cs)"
| "mode_end Normal (c # cs) =
     (case cs of
        d # ds \<Rightarrow>
          if c = CHR ''-'' \<and> d = CHR ''-'' then mode_end In_Line ds
          else if c = CHR ''/'' \<and> d = CHR ''*'' then mode_end In_Block ds
          else mode_end (if c = quote then In_Single else Normal) cs
      | [] \<Rightarrow> if c = quote then In_Single else Normal)"

lemma strip_go_code:
  "strip_go Normal (c # d # ds) =
     (if c = CHR ''-'' \<and> d = CHR ''-'' then CHR '' '' # CHR '' '' # strip_go In_Line ds
      else if c = CHR ''/'' \<and> d = CHR ''*'' then CHR '' '' # CHR '' '' # strip_go In_Block ds
      else if c = quote then CHR '' '' # strip_go In_Single (d # ds)
      else c # strip_go Normal (d # ds))"
  by (simp only: strip_go.simps list.case)

lemma mode_end_code:
  "mode_end Normal (c # d # ds) =
     (if c = CHR ''-'' \<and> d = CHR ''-'' then mode_end In_Line ds
      else if c = CHR ''/'' \<and> d = CHR ''*'' then mode_end In_Block ds
      else mode_end (if c = quote then In_Single else Normal) (d # ds))"
  by (simp only: mode_end.simps list.case)

lemma strip_go_append:
  assumes "b \<noteq> []" and "hd b \<notin> {CHR ''-'', CHR ''*'', CHR ''/'', quote}"
  shows "strip_go m (a @ b) = strip_go m a @ strip_go (mode_end m a) b"
proof (induction m a rule: mode_end.induct)
  case (2 c cs)
  then show ?case by (cases "c = newline") simp_all
next
  case (3 c cs)
  with assms show ?case by (cases cs; cases b) auto
next
  case (4 c cs)
  with assms show ?case by (cases cs; cases b) auto
next
  case (5 c cs)
  show ?case
  proof (cases cs)
    case Nil
    with assms show ?thesis by (cases b) auto
  next
    case (Cons d ds)
    consider "c = CHR ''-'' \<and> d = CHR ''-''" | "c = CHR ''/'' \<and> d = CHR ''*''"
      | "\<not> (c = CHR ''-'' \<and> d = CHR ''-'')" "\<not> (c = CHR ''/'' \<and> d = CHR ''*'')" by blast
    then show ?thesis
    proof cases
      case 1
      with 5 Cons show ?thesis by (simp add: strip_go_code mode_end_code)
    next
      case 2
      with 5 Cons show ?thesis by (simp add: strip_go_code mode_end_code)
    next
      case 3
      then have "strip_go (if c = quote then In_Single else Normal) (cs @ b) =
          strip_go (if c = quote then In_Single else Normal) cs
            @ strip_go (mode_end (if c = quote then In_Single else Normal) cs) b"
        using 5(3) [OF Cons] by blast
      with 3 Cons show ?thesis
        by (cases "c = quote") (auto simp: strip_go_code mode_end_code simp del: strip_go.simps mode_end.simps)
    qed
  qed
qed simp

text \<open>A text without quotes, newlines, comment markers.\<close>

definition inert_text :: "string \<Rightarrow> bool" where
  "inert_text s \<longleftrightarrow> (\<forall>c \<in> set s. c \<noteq> newline \<and> c \<noteq> quote \<and> c \<noteq> CHR ''-'' \<and> c \<noteq> CHR ''/'')"

lemma strip_go_inert: "inert_text s \<Longrightarrow> strip_go m s = (if m = Normal then s else blanks (length s))"
proof (induction s)
  case (Cons c s)
  then have "inert_text s" by (simp add: inert_text_def)
  with Cons show ?case
    by (cases m; cases s) (auto simp: inert_text_def)
qed simp

lemma digits_nat_chars: "c \<in> set (digits_nat n) \<Longrightarrow> is_digit c"
proof (induction n rule: digits_nat.induct)
  case (1 n)
  have d: "is_digit (char_of (48 + k))" if "k < 10" for k :: nat
    using that by (simp add: is_digit_def Let_def)
  from 1 show ?case
    by (subst (asm) digits_nat.simps) (auto simp: d split: if_splits)
qed

lemma inert_wrap_suffix: "inert_text (wrap_suffix n)"
proof -
  have "\<forall>c \<in> set (show_nat n). is_digit c" using digits_nat_chars by (auto simp: show_nat_def)
  then have "inert_text (show_nat n)"
    by (auto simp: inert_text_def is_digit_def Let_def newline_def quote_def)
  then show ?thesis by (simp add: inert_text_def wrap_suffix_def newline_def quote_def)
qed


text \<open>
  The guard accepts a statement that ends in a line comment, also behind a trailing semicolon,
  and the wrapper is then swallowed.
\<close>

lemma comment_swallows_limit:
  "validate_read_only_sql ''SELECT 1 --x'' [] = None"
  "strip_sql (wrap_limit Postgres ''SELECT 1 --x'' 101) =
     ''SELECT * FROM (SELECT 1 '' @ blanks (3 + length (wrap_suffix 101))"
  by code_simp+

end
