(* ===== verification/Json.thy ===== *)
theory Json
  imports Prelude
begin

text \<open>
  Decoded JSON (Go's \<open>any\<close> after \<open>json.Unmarshal\<close>), shared by the components that walk parser
  trees and execution plans. A decoded object has distinct keys and no order (Go iterates its map
  in random order); here it is an association list, and the verdicts are proved not to depend on
  the order. A number is a decimal, \<open>J_Num m s\<close> standing for \<open>m / 10^s\<close>.
\<close>

datatype json =
    J_Null
  | J_Bool bool
  | J_Num int nat
  | J_Str string
  | J_Arr "json list"
  | J_Obj "(string \<times> json) list"

definition j_get :: "string \<Rightarrow> json \<Rightarrow> json option" where
  "j_get k j = (case j of J_Obj ms \<Rightarrow> map_of ms k | _ \<Rightarrow> None)"

definition j_obj :: "json option \<Rightarrow> json option" where
  "j_obj v = (case v of Some (J_Obj ms) \<Rightarrow> Some (J_Obj ms) | _ \<Rightarrow> None)"

text \<open>Go's \<open>v, _ := x.(string)\<close>: the empty string when the type does not match.\<close>

definition j_str :: "json option \<Rightarrow> string" where
  "j_str v = (case v of Some (J_Str s) \<Rightarrow> s | _ \<Rightarrow> [])"

definition j_arr :: "json option \<Rightarrow> json list" where
  "j_arr v = (case v of Some (J_Arr xs) \<Rightarrow> xs | _ \<Rightarrow> [])"

text \<open>\<open>int64(float)\<close> truncates toward zero.\<close>

definition decimal_int :: "int \<Rightarrow> nat \<Rightarrow> int" where
  "decimal_int m s = (if m < 0 then - ((- m) div 10 ^ s) else m div 10 ^ s)"

text \<open>All key/value pairs of a tree, at every depth.\<close>

fun members :: "json \<Rightarrow> (string \<times> json) list" and
  members_list :: "json list \<Rightarrow> (string \<times> json) list" and
  members_obj :: "(string \<times> json) list \<Rightarrow> (string \<times> json) list" where
  "members (J_Arr xs) = members_list xs"
| "members (J_Obj ms) = members_obj ms"
| "members _ = []"
| "members_list [] = []"
| "members_list (x # xs) = members x @ members_list xs"
| "members_obj [] = []"
| "members_obj ((k, v) # ms) = (k, v) # members v @ members_obj ms"

lemma set_members_list: "set (members_list xs) = (\<Union>x \<in> set xs. set (members x))"
  by (induction xs) auto

lemma set_members_obj: "set (members_obj ms) = set ms \<union> (\<Union>(k, v) \<in> set ms. set (members v))"
  by (induction ms) auto

end
