(* ===== verification/Ast_Guard.thy ===== *)
theory Ast_Guard
  imports Dialect Json
begin

text \<open>
  The syntax-tree guard (\<open>internal/dbconn/astguard.go\<close>). The dialect parsers are external: \<open>pg_parse\<close>
  is \<open>pg_query.ParseToJSON\<close> followed by decoding (the list of statements), \<open>my_parse\<close> is TiDB's
  parser. A TiDB tree is given by what its visitor sees: the kind of each node, with the fields
  the source reads, and its children in visiting order.
\<close>

datatype ast_error =
    Parse_Failed string
  | Not_One_Statement nat
  | Statement_Not_Allowed string
  | Select_Into
  | Locking_Clause
  | Variable_Assignment
  | Unsupported_Dialect

subsection \<open>PostgreSQL\<close>

definition pg_key_error :: "string \<Rightarrow> json \<Rightarrow> ast_error option" where
  "pg_key_error key child =
     (if key = ''SelectStmt'' then None
      else if has_suffix key ''Stmt'' then Some (Statement_Not_Allowed key)
      else if key = ''intoClause'' then (if child \<noteq> J_Null then Some Select_Into else None)
      else if key = ''lockingClause'' then (if child \<noteq> J_Null then Some Locking_Clause else None)
      else None)"

fun walk_pg :: "json \<Rightarrow> ast_error option" and
  walk_pg_list :: "json list \<Rightarrow> ast_error option" and
  walk_pg_obj :: "(string \<times> json) list \<Rightarrow> ast_error option" where
  "walk_pg (J_Obj ms) = walk_pg_obj ms"
| "walk_pg (J_Arr xs) = walk_pg_list xs"
| "walk_pg _ = None"
| "walk_pg_list [] = None"
| "walk_pg_list (x # xs) = (case walk_pg x of Some e \<Rightarrow> Some e | None \<Rightarrow> walk_pg_list xs)"
| "walk_pg_obj [] = None"
| "walk_pg_obj ((key, child) # ms) =
     (case pg_key_error key child of
        Some e \<Rightarrow> Some e
      | None \<Rightarrow> (case walk_pg child of Some e \<Rightarrow> Some e | None \<Rightarrow> walk_pg_obj ms))"

definition validate_postgres_ast :: "(string \<Rightarrow> string + json list) \<Rightarrow> string \<Rightarrow> ast_error option" where
  "validate_postgres_ast pg_parse sql =
     (case pg_parse sql of
        Inl e \<Rightarrow> Some (Parse_Failed e)
      | Inr stmts \<Rightarrow> (case stmts of [s] \<Rightarrow> walk_pg s | _ \<Rightarrow> Some (Not_One_Statement (length stmts))))"

subsection \<open>MySQL and MariaDB\<close>

datatype my_kind =
    K_Select bool bool \<comment> \<open>has \<open>INTO\<close>, takes a lock\<close>
  | K_Set_Opr
  | K_Variable bool \<comment> \<open>assigns\<close>
  | K_Table string string \<comment> \<open>schema and name, lower case\<close>
  | K_Cte string
  | K_Other string

datatype my_node = My_Node my_kind "my_node list"

fun my_kind_of :: "my_node \<Rightarrow> my_kind" where
  "my_kind_of (My_Node k _) = k"

fun my_enter :: "my_kind \<Rightarrow> ast_error option" where
  "my_enter (K_Select into lock) = (if into then Some Select_Into else if lock then Some Locking_Clause else None)"
| "my_enter (K_Variable assigns) = (if assigns then Some Variable_Assignment else None)"
| "my_enter _ = None"

text \<open>\<open>Accept\<close> with the visitor's \<open>err\<close> field: once set, every node is skipped.\<close>

fun my_accept :: "ast_error option \<Rightarrow> my_node \<Rightarrow> ast_error option" and
  my_accept_list :: "ast_error option \<Rightarrow> my_node list \<Rightarrow> ast_error option" where
  "my_accept err (My_Node k ns) =
     (if err \<noteq> None then err
      else case my_enter k of Some e \<Rightarrow> Some e | None \<Rightarrow> my_accept_list None ns)"
| "my_accept_list err [] = err"
| "my_accept_list err (n # ns) = my_accept_list (my_accept err n) ns"

definition validate_mysql_ast :: "(bool \<Rightarrow> string \<Rightarrow> string + my_node list) \<Rightarrow> string \<Rightarrow> bool \<Rightarrow> ast_error option" where
  "validate_mysql_ast my_parse sql mariadb =
     (case my_parse mariadb sql of
        Inl e \<Rightarrow> Some (Parse_Failed e)
      | Inr [s] \<Rightarrow>
          (case my_kind_of s of
             K_Select _ _ \<Rightarrow> my_accept None s
           | K_Set_Opr \<Rightarrow> my_accept None s
           | K_Other t \<Rightarrow> Some (Statement_Not_Allowed t)
           | _ \<Rightarrow> Some (Statement_Not_Allowed []))
      | Inr stmts \<Rightarrow> Some (Not_One_Statement (length stmts)))"

subsection \<open>Both guards\<close>

definition validate_read_only_ast ::
  "(string \<Rightarrow> string + json list) \<Rightarrow> (bool \<Rightarrow> string \<Rightarrow> string + my_node list) \<Rightarrow> string \<Rightarrow> string \<Rightarrow> ast_error option" where
  "validate_read_only_ast pg_parse my_parse name sql =
     (if name = ''postgres'' then validate_postgres_ast pg_parse sql
      else if name = ''mysql'' then validate_mysql_ast my_parse sql False
      else if name = ''mariadb'' then validate_mysql_ast my_parse sql True
      else Some Unsupported_Dialect)"

datatype read_only_error = Keyword_Guard guard_error | Ast_Guard ast_error

definition validate_read_only ::
  "(string \<Rightarrow> string + json list) \<Rightarrow> (bool \<Rightarrow> string \<Rightarrow> string + my_node list) \<Rightarrow> dialect \<Rightarrow> string \<Rightarrow> string list
     \<Rightarrow> read_only_error option" where
  "validate_read_only pg_parse my_parse d sql extra =
     (case validate_read_only_sql sql extra of
        Some e \<Rightarrow> Some (Keyword_Guard e)
      | None \<Rightarrow> map_option Ast_Guard (validate_read_only_ast pg_parse my_parse (dialect_name d) sql))"

subsection \<open>What is accepted\<close>

definition pg_allowed :: "string \<times> json \<Rightarrow> bool" where
  "pg_allowed m = (case m of (key, child) \<Rightarrow>
     if has_suffix key ''Stmt'' then key = ''SelectStmt''
     else if key = ''intoClause'' \<or> key = ''lockingClause'' then child = J_Null
     else True)"

lemma pg_key_error_allowed: "pg_key_error key child = None \<longleftrightarrow> pg_allowed (key, child)"
proof -
  have "has_suffix ''SelectStmt'' ''Stmt''" "\<not> has_suffix ''intoClause'' ''Stmt''" "\<not> has_suffix ''lockingClause'' ''Stmt''"
    by code_simp+
  then show ?thesis by (auto simp: pg_key_error_def pg_allowed_def)
qed

lemma walk_pg_None:
  "walk_pg j = None \<longleftrightarrow> (\<forall>m \<in> set (members j). pg_allowed m)"
  "walk_pg_list xs = None \<longleftrightarrow> (\<forall>m \<in> set (members_list xs). pg_allowed m)"
  "walk_pg_obj ms = None \<longleftrightarrow> (\<forall>m \<in> set (members_obj ms). pg_allowed m)"
  by (induction j and xs and ms rule: walk_pg_walk_pg_list_walk_pg_obj.induct)
     (auto split: option.splits simp flip: pg_key_error_allowed)

text \<open>
  C3. What the PostgreSQL guard accepts: exactly the texts that the parser reads as one statement
  in whose whole tree \<open>SelectStmt\<close> is the only kind of statement node and no INTO or locking
  clause is present. In particular the order in which Go visits the members of an object does
  not matter, and a forbidden node is found however deep it is nested.
\<close>

theorem postgres_ast_accepts:
  "validate_postgres_ast pg_parse sql = None \<longleftrightarrow>
     (\<exists>tree. pg_parse sql = Inr [tree] \<and> set (members tree) \<subseteq> {m. pg_allowed m})"
proof (cases "pg_parse sql")
  case (Inl e)
  then show ?thesis by (simp add: validate_postgres_ast_def)
next
  case (Inr stmts)
  then show ?thesis
    by (cases stmts; cases "tl stmts") (auto simp: validate_postgres_ast_def walk_pg_None)
qed

fun my_nodes :: "my_node \<Rightarrow> my_kind list" where
  "my_nodes (My_Node k ns) = k # concat (map my_nodes ns)"

lemma my_accept_err: "my_accept (Some e) n = Some e" "my_accept_list (Some e) ns = Some e"
  by (induction "Some e" n and "Some e" ns rule: my_accept_my_accept_list.induct) simp_all

lemma my_accept_None:
  "err = None \<Longrightarrow> my_accept err n = None \<longleftrightarrow> (\<forall>k \<in> set (my_nodes n). my_enter k = None)"
  "err = None \<Longrightarrow> my_accept_list err ns = None \<longleftrightarrow> (\<forall>n \<in> set ns. \<forall>k \<in> set (my_nodes n). my_enter k = None)"
proof (induction err n and err ns rule: my_accept_my_accept_list.induct)
  case (3 err n ns)
  then show ?case
    by (cases "my_accept None n") (auto simp: my_accept_err)
qed (auto split: option.splits)

definition my_allowed :: "my_kind \<Rightarrow> bool" where
  "my_allowed k \<longleftrightarrow> k \<notin> {K_Select True True, K_Select True False, K_Select False True, K_Variable True}"

lemma my_enter_None: "my_enter k = None \<longleftrightarrow> my_allowed k"
  by (cases k rule: my_enter.cases) (auto simp: my_allowed_def)

text \<open>
  What the MySQL/MariaDB guard accepts: exactly the texts that the parser reads as one
  SELECT-class statement in which, at every depth, no SELECT writes INTO or takes a lock and no
  variable is assigned.
\<close>

theorem mysql_ast_accepts:
  "validate_mysql_ast my_parse sql mariadb = None \<longleftrightarrow>
     (\<exists>s. my_parse mariadb sql = Inr [s] \<and> (case my_kind_of s of K_Select _ _ \<Rightarrow> True | K_Set_Opr \<Rightarrow> True | _ \<Rightarrow> False)
        \<and> set (my_nodes s) \<subseteq> {k. my_allowed k})"
proof (cases "my_parse mariadb sql")
  case (Inl e)
  then show ?thesis by (simp add: validate_mysql_ast_def)
next
  case (Inr stmts)
  have "my_accept None s = None \<longleftrightarrow> set (my_nodes s) \<subseteq> {k. my_allowed k}" for s
    using my_accept_None(1) [of None s] by (auto simp: my_enter_None)
  with Inr show ?thesis
    by (cases stmts; cases "tl stmts") (auto simp: validate_mysql_ast_def split: my_kind.splits)
qed

lemma validate_read_only_None:
  "validate_read_only pg_parse my_parse d sql extra = None \<longleftrightarrow>
     validate_read_only_sql sql extra = None \<and> validate_read_only_ast pg_parse my_parse (dialect_name d) sql = None"
  by (simp add: validate_read_only_def split: option.split)

text \<open>A literal that ends in a backslash-escaped quote hides what follows from the keyword guard.\<close>

lemma backslash_quote_hides_keywords:
  "validate_read_only_sql [CHR ''S'', CHR ''E'', CHR ''L'', CHR ''E'', CHR ''C'', CHR ''T'', CHR '' '', quote, CHR ''a'',
     backslash, quote, quote, CHR '' '', CHR ''D'', CHR ''R'', CHR ''O'', CHR ''P''] [] = None"
  by code_simp

end
