(* ===== verification/Table_Refs.thy ===== *)
theory Table_Refs
  imports Ast_Guard
begin

text \<open>
  Table extraction (\<open>internal/dbconn/tables.go\<close>): the physical tables a query refers to, from the
  PostgreSQL parse tree or from the TiDB tree, with CTE names taken out.
\<close>

record table_ref =
  tr_schema :: string
  tr_name :: string

definition ref_key :: "table_ref \<Rightarrow> string" where
  "ref_key r = tr_schema r @ ''.'' @ tr_name r"

definition ref_string :: "table_ref \<Rightarrow> string" where
  "ref_string r = (if tr_schema r = [] then tr_name r else tr_schema r @ ''.'' @ tr_name r)"

text \<open>The two tests made at an object, on its member \<open>RangeVar\<close> and its member \<open>CommonTableExpr\<close>.\<close>

definition range_var :: "json \<Rightarrow> table_ref list" where
  "range_var j =
     (case j_obj (j_get ''RangeVar'' j) of
        None \<Rightarrow> []
      | Some rv \<Rightarrow>
          let name = j_str (j_get ''relname'' rv) in
          if name = [] then []
          else [\<lparr>tr_schema = to_lower (j_str (j_get ''schemaname'' rv)), tr_name = to_lower name\<rparr>])"

definition cte_name :: "json \<Rightarrow> string list" where
  "cte_name j =
     (case j_obj (j_get ''CommonTableExpr'' j) of
        None \<Rightarrow> []
      | Some cte \<Rightarrow> (case j_get ''ctename'' cte of Some (J_Str n) \<Rightarrow> [to_lower n] | _ \<Rightarrow> []))"

text \<open>The walk, with the collected references and CTE names.\<close>

type_synonym collected = "table_ref list \<times> string list"

definition collect_here :: "json \<Rightarrow> collected \<Rightarrow> collected" where
  "collect_here j acc = (fst acc @ range_var j, cte_name j @ snd acc)"

fun walk_tables :: "json \<Rightarrow> collected \<Rightarrow> collected" and
  walk_tables_list :: "json list \<Rightarrow> collected \<Rightarrow> collected" and
  walk_tables_obj :: "(string \<times> json) list \<Rightarrow> collected \<Rightarrow> collected" where
  "walk_tables (J_Obj ms) acc = walk_tables_obj ms (collect_here (J_Obj ms) acc)"
| "walk_tables (J_Arr xs) acc = walk_tables_list xs acc"
| "walk_tables _ acc = acc"
| "walk_tables_list [] acc = acc"
| "walk_tables_list (x # xs) acc = walk_tables_list xs (walk_tables x acc)"
| "walk_tables_obj [] acc = acc"
| "walk_tables_obj ((k, v) # ms) acc = walk_tables_obj ms (walk_tables v acc)"

definition shadowed :: "string list \<Rightarrow> table_ref \<Rightarrow> bool" where
  "shadowed ctes r \<longleftrightarrow> tr_schema r = [] \<and> tr_name r \<in> set ctes"

fun dedupe_go :: "string list \<Rightarrow> table_ref list \<Rightarrow> string list \<Rightarrow> table_ref list" where
  "dedupe_go seen [] ctes = []"
| "dedupe_go seen (r # rs) ctes =
     (if shadowed ctes r then dedupe_go seen rs ctes
      else if ref_key r \<in> set seen then dedupe_go seen rs ctes
      else r # dedupe_go (ref_key r # seen) rs ctes)"

definition dedupe_refs :: "table_ref list \<Rightarrow> string list \<Rightarrow> table_ref list" where
  "dedupe_refs refs ctes = dedupe_go [] refs ctes"

definition extract_tables_pg :: "json \<Rightarrow> table_ref list" where
  "extract_tables_pg tree = (case walk_tables tree ([], []) of (refs, ctes) \<Rightarrow> dedupe_refs refs ctes)"

fun my_collect :: "my_node \<Rightarrow> collected \<Rightarrow> collected" where
  "my_collect (My_Node k ns) acc =
     fold my_collect ns
       (case k of
          K_Table sch nm \<Rightarrow> (fst acc @ [\<lparr>tr_schema = sch, tr_name = nm\<rparr>], snd acc)
        | K_Cte nm \<Rightarrow> (fst acc, nm # snd acc)
        | _ \<Rightarrow> acc)"

definition extract_tables_my :: "my_node list \<Rightarrow> table_ref list" where
  "extract_tables_my stmts = (case fold my_collect stmts ([], []) of (refs, ctes) \<Rightarrow> dedupe_refs refs ctes)"

definition extract_tables ::
  "(string \<Rightarrow> string + json) \<Rightarrow> (bool \<Rightarrow> string \<Rightarrow> string + my_node list) \<Rightarrow> string \<Rightarrow> string \<Rightarrow> string + table_ref list" where
  "extract_tables pg_tree my_parse dialect sql =
     (if dialect = ''postgres'' then bind_err (pg_tree sql) (\<lambda>t. Inr (extract_tables_pg t))
      else if dialect = ''mysql'' \<or> dialect = ''mariadb''
      then bind_err (my_parse (dialect = ''mariadb'') sql) (\<lambda>ss. Inr (extract_tables_my ss))
      else Inl ''unsupported dialect'')"

subsection \<open>Duplicates and CTE names\<close>

lemma dedupe_go_spec:
  "distinct (map ref_key (dedupe_go seen rs ctes)) \<and>
   ref_key ` set (dedupe_go seen rs ctes) = ref_key ` {r \<in> set rs. \<not> shadowed ctes r} - set seen \<and>
   set (dedupe_go seen rs ctes) \<subseteq> {r \<in> set rs. \<not> shadowed ctes r}"
proof (induction seen rs ctes rule: dedupe_go.induct)
  case (2 seen r rs ctes)
  show ?case
  proof (cases "shadowed ctes r")
    case True
    with 2 show ?thesis by auto
  next
    case visible: False
    show ?thesis
    proof (cases "ref_key r \<in> set seen")
      case True
      with visible 2 show ?thesis by auto
    next
      case False
      with visible have IH: "distinct (map ref_key (dedupe_go (ref_key r # seen) rs ctes))"
        "ref_key ` set (dedupe_go (ref_key r # seen) rs ctes) = ref_key ` {r \<in> set rs. \<not> shadowed ctes r} - set (ref_key r # seen)"
        "set (dedupe_go (ref_key r # seen) rs ctes) \<subseteq> {r \<in> set rs. \<not> shadowed ctes r}"
        using 2 by blast+
      have "ref_key r \<notin> ref_key ` set (dedupe_go (ref_key r # seen) rs ctes)" using IH(2) by auto
      with IH visible False show ?thesis by auto
    qed
  qed
qed simp

text \<open>The walk collects the references and names of every object of the tree.\<close>

fun objects :: "json \<Rightarrow> json list" and
  objects_list :: "json list \<Rightarrow> json list" and
  objects_obj :: "(string \<times> json) list \<Rightarrow> json list" where
  "objects (J_Obj ms) = J_Obj ms # objects_obj ms"
| "objects (J_Arr xs) = objects_list xs"
| "objects _ = []"
| "objects_list [] = []"
| "objects_list (x # xs) = objects x @ objects_list xs"
| "objects_obj [] = []"
| "objects_obj ((k, v) # ms) = objects v @ objects_obj ms"

lemma walk_tables_sets:
  "set (fst (walk_tables j acc)) = set (fst acc) \<union> set (concat (map range_var (objects j))) \<and>
     set (snd (walk_tables j acc)) = set (snd acc) \<union> set (concat (map cte_name (objects j)))"
  "set (fst (walk_tables_list xs acc)) = set (fst acc) \<union> set (concat (map range_var (objects_list xs))) \<and>
     set (snd (walk_tables_list xs acc)) = set (snd acc) \<union> set (concat (map cte_name (objects_list xs)))"
  "set (fst (walk_tables_obj ms acc)) = set (fst acc) \<union> set (concat (map range_var (objects_obj ms))) \<and>
     set (snd (walk_tables_obj ms acc)) = set (snd acc) \<union> set (concat (map cte_name (objects_obj ms)))"
  by (induction j acc and xs acc and ms acc rule: walk_tables_walk_tables_list_walk_tables_obj.induct)
     (simp_all add: collect_here_def Un_assoc Un_commute Un_left_commute)

definition pg_refs :: "json \<Rightarrow> table_ref set" where
  "pg_refs tree = set (concat (map range_var (objects tree)))"

definition pg_ctes :: "json \<Rightarrow> string list" where
  "pg_ctes tree = concat (map cte_name (objects tree))"

lemma shadowed_cong: "set a = set b \<Longrightarrow> shadowed a r = shadowed b r"
  by (simp add: shadowed_def)

text \<open>
  Table extraction from a PostgreSQL tree: the result names each table once, consists of
  relations that occur in the tree, at whatever depth, and covers all of them except the
  unqualified ones whose name is also the name of some CTE of the statement.
\<close>

theorem extract_tables_pg_spec:
  "distinct (map ref_key (extract_tables_pg tree)) \<and>
   set (extract_tables_pg tree) \<subseteq> {r \<in> pg_refs tree. \<not> shadowed (pg_ctes tree) r} \<and>
   ref_key ` set (extract_tables_pg tree) = ref_key ` {r \<in> pg_refs tree. \<not> shadowed (pg_ctes tree) r}"
proof -
  obtain refs ctes where w: "walk_tables tree ([], []) = (refs, ctes)" by fastforce
  have sets: "set refs = pg_refs tree" "set ctes = set (pg_ctes tree)"
    using walk_tables_sets(1) [of tree "([], [])"] by (simp_all add: w pg_refs_def pg_ctes_def)
  show ?thesis
    using dedupe_go_spec [of "[]" refs ctes]
    by (simp add: extract_tables_pg_def w dedupe_refs_def sets shadowed_cong [OF sets(2)])
qed

text \<open>
  A CTE that reads the table it is named after hides that table: for
  \<open>WITH orders AS (SELECT * FROM orders) SELECT * FROM orders\<close> no table is reported, although the
  CTE body reads the physical one.
\<close>

definition shadow_tree :: json where
  "shadow_tree =
     (let rv = J_Obj [(''RangeVar'', J_Obj [(''relname'', J_Str ''orders'')])] in
      J_Obj [(''SelectStmt'', J_Obj
        [(''withClause'', J_Obj [(''ctes'', J_Arr [J_Obj [(''CommonTableExpr'', J_Obj
            [(''ctename'', J_Str ''orders''),
             (''ctequery'', J_Obj [(''SelectStmt'', J_Obj [(''fromClause'', J_Arr [rv])])])])]])]),
         (''fromClause'', J_Arr [rv])])])"

lemma cte_hides_its_own_table: "extract_tables_pg shadow_tree = []"
  by code_simp

end
