(* ===== verification/Profiles.thy ===== *)
theory Profiles
  imports Dialect
begin

text \<open>
  Connection profiles (\<open>internal/dbconn/profile.go\<close>, the DBA block of \<open>admin.go\<close>, and the data
  source assembly of \<open>dialect.go\<close>): defaults, validation, password references, the API view, and
  the file store's list operations. Reading and writing \<open>db_profiles.json\<close> is the JSON library's
  and the file system's; the store operations work on the decoded list. The environment and the
  files behind a password reference are arguments.
\<close>

subsection \<open>Records\<close>

record routing =
  rt_schemas :: "string list"
  rt_tags :: "string list"
  rt_priority :: int
  rt_default :: bool
  rt_discover :: "bool option"

record pool =
  pl_max_open :: int
  pl_max_idle :: int
  pl_lifetime :: int
  pl_idle_time :: int

record policy =
  po_read_only :: "bool option"
  po_query_timeout :: int
  po_test_timeout :: int
  po_default_max_rows :: int
  po_max_rows :: int
  po_max_bytes :: int
  po_denied :: "string list"
  po_plan_gate :: "bool option"
  po_plan_gate_risk :: string
  po_max_plan_cost :: int
  po_max_plan_rows :: int

record dba_config =
  db_enabled :: bool
  db_username :: string
  db_password_ref :: string
  db_connect :: string

record profile =
  pr_id :: string
  pr_name :: string
  pr_type :: string
  pr_driver :: string
  pr_connect :: string
  pr_username :: string
  pr_password_ref :: string
  pr_pool :: pool
  pr_policy :: policy
  pr_routing :: routing
  pr_dba :: "dba_config option"

definition discover_enabled :: "routing \<Rightarrow> bool" where
  "discover_enabled r \<longleftrightarrow> rt_discover r = None \<or> rt_discover r = Some True"

definition plan_gate_enabled :: "policy \<Rightarrow> bool" where
  "plan_gate_enabled p \<longleftrightarrow> po_plan_gate p = None \<or> po_plan_gate p = Some True"

definition risk_rank :: "string \<Rightarrow> nat" where
  "risk_rank r = (if r = ''high'' then 3 else if r = ''medium'' then 2 else if r = ''low'' then 1 else 0)"

subsection \<open>Defaults\<close>

definition or_default :: "int \<Rightarrow> int \<Rightarrow> int" where
  "or_default n d = (if n \<le> 0 then d else n)"

definition pool_defaults :: "pool \<Rightarrow> pool" where
  "pool_defaults p = \<lparr>pl_max_open = or_default (pl_max_open p) 10, pl_max_idle = or_default (pl_max_idle p) 2,
     pl_lifetime = or_default (pl_lifetime p) 1800, pl_idle_time = or_default (pl_idle_time p) 600\<rparr>"

definition risk_labels :: "string list" where
  "risk_labels = [''low'', ''medium'', ''high'']"

definition policy_defaults :: "policy \<Rightarrow> policy" where
  "policy_defaults p = p \<lparr>
     po_query_timeout := or_default (po_query_timeout p) 30,
     po_test_timeout := or_default (po_test_timeout p) 5,
     po_default_max_rows := or_default (po_default_max_rows p) 100,
     po_max_rows := or_default (po_max_rows p) 1000,
     po_max_bytes := or_default (po_max_bytes p) 10485760,
     po_plan_gate := (case po_plan_gate p of None \<Rightarrow> Some True | Some b \<Rightarrow> Some b),
     po_plan_gate_risk := (let r = to_lower (po_plan_gate_risk p) in if r \<in> set risk_labels then r else ''high'')\<rparr>"

definition type_defaults :: "profile \<Rightarrow> profile" where
  "type_defaults p =
     (let t = to_lower (if pr_type p = [] then ''postgres'' else pr_type p) in
      case dialect_for t of
        Some d \<Rightarrow> p \<lparr>pr_type := dialect_name d, pr_driver := driver_name d\<rparr>
      | None \<Rightarrow> p \<lparr>pr_type := t\<rparr>)"

definition with_defaults :: "profile \<Rightarrow> profile" where
  "with_defaults p = (type_defaults p) \<lparr>pr_pool := pool_defaults (pr_pool p), pr_policy := policy_defaults (pr_policy p)\<rparr>"

subsection \<open>Validation\<close>

definition profile_id_ok :: "string \<Rightarrow> bool" where
  "profile_id_ok s \<longleftrightarrow> 1 \<le> length s \<and> length s \<le> 64 \<and>
     list_all (\<lambda>c. is_alpha c \<or> is_digit c \<or> c = CHR ''.'' \<or> c = CHR ''_'' \<or> c = CHR ''-'') s"

datatype ref_error = Ref_No_Scheme | Ref_Empty_Value | Ref_Bad_Scheme string

definition ref_value :: "string \<Rightarrow> string" where
  "ref_value ref = tl (dropWhile (\<lambda>c. c \<noteq> CHR '':'') ref)"

definition parse_password_ref :: "string \<Rightarrow> ref_error + string" where
  "parse_password_ref ref =
     (let raw = takeWhile (\<lambda>c. c \<noteq> CHR '':'') ref; scheme = to_lower raw in
      if raw = [] \<or> length raw = length ref then Inl Ref_No_Scheme
      else if scheme \<in> set [''env'', ''file'', ''plain'']
      then (if trim_space (ref_value ref) = [] then Inl Ref_Empty_Value else Inr scheme)
      else Inl (Ref_Bad_Scheme scheme))"

datatype profile_error =
    Bad_Id | No_Connect_String | No_Username | No_Password_Ref | Bad_Ref ref_error | Bad_Type
  | Driver_Mismatch | Not_Read_Only | Rows_Exceed_Max | Dba_No_Username | Dba_No_Ref | Dba_Bad_Ref ref_error

definition check :: "bool \<Rightarrow> 'e \<Rightarrow> 'e option" where
  "check ok e = (if ok then None else Some e)"

lemma check_None [simp]: "check ok e = None \<longleftrightarrow> ok"
  by (simp add: check_def)

definition check_ref :: "string \<Rightarrow> (ref_error \<Rightarrow> profile_error) \<Rightarrow> profile_error option" where
  "check_ref ref f = (case parse_password_ref ref of Inl e \<Rightarrow> Some (f e) | Inr _ \<Rightarrow> None)"

definition validate_dba :: "dba_config \<Rightarrow> profile_error option" where
  "validate_dba d =
     (if db_enabled d \<or> db_username d \<noteq> [] \<or> db_password_ref d \<noteq> []
      then first_error
        [check (trim_space (db_username d) \<noteq> []) Dba_No_Username,
         check (trim_space (db_password_ref d) \<noteq> []) Dba_No_Ref,
         check_ref (db_password_ref d) Dba_Bad_Ref]
      else None)"

definition validate_profile :: "profile \<Rightarrow> profile_error option" where
  "validate_profile p = first_error
     [check (profile_id_ok (pr_id p)) Bad_Id,
      check (trim_space (pr_connect p) \<noteq> []) No_Connect_String,
      check (trim_space (pr_username p) \<noteq> []) No_Username,
      check (trim_space (pr_password_ref p) \<noteq> []) No_Password_Ref,
      check_ref (pr_password_ref p) Bad_Ref,
      (case dialect_for (pr_type p) of
         None \<Rightarrow> Some Bad_Type
       | Some d \<Rightarrow> check (pr_driver p = [] \<or> equal_fold (pr_driver p) (driver_name d)) Driver_Mismatch),
      check (po_read_only (pr_policy p) \<noteq> Some False) Not_Read_Only,
      check (\<not> (0 < po_max_rows (pr_policy p) \<and> po_max_rows (pr_policy p) < po_default_max_rows (pr_policy p)))
        Rows_Exceed_Max,
      (case pr_dba p of None \<Rightarrow> None | Some d \<Rightarrow> validate_dba d)]"

definition admin_enabled :: "profile \<Rightarrow> bool" where
  "admin_enabled p = (case pr_dba p of None \<Rightarrow> False | Some d \<Rightarrow> db_enabled d \<and> trim_space (db_username d) \<noteq> [])"

subsection \<open>Password references\<close>

datatype secret_error = Secret_Ref ref_error | Env_Unset string | File_Error string

text \<open>\<open>env\<close> gives the empty string for an unset variable, as \<open>os.Getenv\<close> does.\<close>

definition trim_newlines :: "string \<Rightarrow> string" where
  "trim_newlines s = rev (dropWhile (\<lambda>c. c = newline \<or> c = CHR 0x0D) (rev s))"

definition resolve_password ::
  "(string \<Rightarrow> string) \<Rightarrow> (string \<Rightarrow> string option) \<Rightarrow> string \<Rightarrow> secret_error + string" where
  "resolve_password env file ref =
     (case parse_password_ref ref of
        Inl e \<Rightarrow> Inl (Secret_Ref e)
      | Inr scheme \<Rightarrow>
          let v = ref_value ref in
          if scheme = ''env'' then (if env v = [] then Inl (Env_Unset v) else Inr (env v))
          else if scheme = ''file'' then (case file v of None \<Rightarrow> Inl (File_Error v) | Some b \<Rightarrow> Inr (trim_newlines b))
          else Inr v)"

definition masked_ref :: "string \<Rightarrow> string" where
  "masked_ref ref =
     (case parse_password_ref ref of
        Inl _ \<Rightarrow> ''(invalid)''
      | Inr scheme \<Rightarrow> if scheme = ''plain'' then ''plain:****'' else ref)"

text \<open>The API view: the fields \<open>Masked\<close> copies.\<close>

record masked_view =
  mv_id :: string
  mv_name :: string
  mv_type :: string
  mv_driver :: string
  mv_connect :: string
  mv_username :: string
  mv_password_ref :: string
  mv_pool :: pool
  mv_policy :: policy
  mv_dba :: "(bool \<times> string \<times> string \<times> string) option"

definition masked :: "profile \<Rightarrow> masked_view" where
  "masked p = \<lparr>mv_id = pr_id p, mv_name = pr_name p, mv_type = pr_type p, mv_driver = pr_driver p,
     mv_connect = pr_connect p, mv_username = pr_username p, mv_password_ref = masked_ref (pr_password_ref p),
     mv_pool = pr_pool p, mv_policy = pr_policy p,
     mv_dba = map_option (\<lambda>d. (db_enabled d, db_username d, masked_ref (db_password_ref d), db_connect d)) (pr_dba p)\<rparr>"

subsection \<open>The profile list\<close>

datatype store_error = Invalid_Profile profile_error | Profile_Exists string | Profile_Not_Found string

definition load_profiles :: "profile list \<Rightarrow> profile list" where
  "load_profiles raw = map with_defaults raw"

definition get_profile :: "profile list \<Rightarrow> string \<Rightarrow> store_error + profile" where
  "get_profile raw pid =
     (case find (\<lambda>p. pr_id p = pid) (load_profiles raw) of
        Some p \<Rightarrow> Inr p | None \<Rightarrow> Inl (Profile_Not_Found pid))"

fun replace_first :: "profile \<Rightarrow> profile list \<Rightarrow> profile list" where
  "replace_first p [] = []"
| "replace_first p (q # qs) = (if pr_id q = pr_id p then p # qs else q # replace_first p qs)"

definition upsert_profile :: "profile list \<Rightarrow> profile \<Rightarrow> bool \<Rightarrow> store_error + profile list" where
  "upsert_profile raw p create =
     (case validate_profile p of
        Some e \<Rightarrow> Inl (Invalid_Profile e)
      | None \<Rightarrow>
          let ps = load_profiles raw; known = (pr_id p \<in> set (map pr_id ps)) in
          if create \<and> known then Inl (Profile_Exists (pr_id p))
          else if \<not> create \<and> \<not> known then Inl (Profile_Not_Found (pr_id p))
          else Inr (if known then replace_first (with_defaults p) ps else ps @ [with_defaults p]))"

definition remove_profile :: "profile list \<Rightarrow> string \<Rightarrow> store_error + profile list" where
  "remove_profile raw pid =
     (let ps = load_profiles raw in
      if pid \<in> set (map pr_id ps) then Inr (filter (\<lambda>p. pr_id p \<noteq> pid) ps) else Inl (Profile_Not_Found pid))"

subsection \<open>Data sources\<close>

text \<open>
  The short form \<open>^([^:/@\s]+):(\d+)/([^?\s]+)(?:\?(.*))?$\<close>; the last component is empty when
  there is no query.
\<close>

definition parse_connect_string :: "string \<Rightarrow> (string \<times> string \<times> string \<times> string) option" where
  "parse_connect_string cs =
     (let host = takeWhile (\<lambda>c. c \<noteq> CHR '':'' \<and> c \<noteq> CHR ''/'' \<and> c \<noteq> CHR ''@'' \<and> \<not> is_re_space c) cs;
          r1 = drop (length host) cs;
          port = takeWhile is_digit (drop 1 r1);
          r2 = drop (length port + 1) r1;
          name = takeWhile (\<lambda>c. c \<noteq> CHR ''?'' \<and> \<not> is_re_space c) (drop 1 r2);
          r3 = drop (length name + 1) r2 in
      if host \<noteq> [] \<and> prefix '':'' r1 \<and> port \<noteq> [] \<and> prefix ''/'' r2 \<and> name \<noteq> [] then
        (if r3 = [] then Some (host, port, name, [])
         else if prefix ''?'' r3 \<and> newline \<notin> set r3 then Some (host, port, name, tl r3) else None)
      else None)"

record source_url =
  su_scheme :: string
  su_host :: string
  su_path :: string
  su_user :: string
  su_password :: string
  su_query :: "string \<Rightarrow> string list"

record mysql_config =
  mc_net :: string
  mc_addr :: string
  mc_db :: string
  mc_user :: string
  mc_password :: string
  mc_params :: "string \<Rightarrow> string option"
  mc_parse_time :: bool
  mc_timeout_seconds :: nat

definition blank_mysql_config :: mysql_config where
  "blank_mysql_config = \<lparr>mc_net = [], mc_addr = [], mc_db = [], mc_user = [], mc_password = [],
     mc_params = Map.empty, mc_parse_time = False, mc_timeout_seconds = 0\<rparr>"

datatype source = Pg_Source source_url | My_Source mysql_config

datatype dsn_error = Bad_Url | Bad_Dsn | Bad_Connect_String

text \<open>\<open>url.Values\<close>: \<open>Get\<close> and \<open>Set\<close>.\<close>

definition query_get :: "(string \<Rightarrow> string list) \<Rightarrow> string \<Rightarrow> string" where
  "query_get q k = (case q k of [] \<Rightarrow> [] | v # _ \<Rightarrow> v)"

definition query_set :: "(string \<Rightarrow> string list) \<Rightarrow> string \<Rightarrow> string \<Rightarrow> string \<Rightarrow> string list" where
  "query_set q k v = q (k := [v])"

definition pg_query_defaults :: "(string \<Rightarrow> string list) \<Rightarrow> string \<Rightarrow> string list" where
  "pg_query_defaults q =
     (let q1 = query_set q ''default_transaction_read_only'' ''on'' in
      if query_get q1 ''connect_timeout'' = [] then query_set q1 ''connect_timeout'' ''5'' else q1)"

definition build_pg_dsn ::
  "(string \<Rightarrow> source_url option) \<Rightarrow> (string \<Rightarrow> string \<Rightarrow> string list) \<Rightarrow> profile \<Rightarrow> string \<Rightarrow> dsn_error + source" where
  "build_pg_dsn parse_url parse_query p password =
     (let cs = trim_space (pr_connect p);
          base =
            (if has_prefix cs ''postgres://'' \<or> has_prefix cs ''postgresql://''
             then (case parse_url cs of None \<Rightarrow> Inl Bad_Url | Some u \<Rightarrow> Inr u)
             else (case parse_connect_string cs of
                 None \<Rightarrow> Inl Bad_Connect_String
               | Some (host, port, name, query) \<Rightarrow>
                   Inr \<lparr>su_scheme = ''postgres'', su_host = host @ '':'' @ port, su_path = CHR ''/'' # name,
                     su_user = [], su_password = [],
                     su_query = (if query = [] then (\<lambda>_. []) else parse_query query)\<rparr>)) in
      bind_err base (\<lambda>u. Inr (Pg_Source (u \<lparr>su_user := pr_username p, su_password := password,
        su_query := pg_query_defaults (su_query u)\<rparr>))))"

definition read_only_param :: "dialect \<Rightarrow> string" where
  "read_only_param d = (if dialect_name d = ''mariadb'' then ''tx_read_only'' else ''transaction_read_only'')"

definition first_values :: "(string \<Rightarrow> string list) \<Rightarrow> string \<Rightarrow> string option" where
  "first_values q k = (case q k of [] \<Rightarrow> None | v # _ \<Rightarrow> Some v)"

definition build_mysql_dsn ::
  "dialect \<Rightarrow> (string \<Rightarrow> source_url option) \<Rightarrow> (string \<Rightarrow> mysql_config option) \<Rightarrow> profile \<Rightarrow> string \<Rightarrow> dsn_error + source" where
  "build_mysql_dsn d parse_url parse_dsn p password =
     (let cs = trim_space (pr_connect p);
          base =
            (if contains_sub cs ''@tcp('' then (case parse_dsn cs of None \<Rightarrow> Inl Bad_Dsn | Some c \<Rightarrow> Inr c)
             else if has_prefix cs ''mysql://'' \<or> has_prefix cs ''mariadb://''
             then (case parse_url cs of
                 None \<Rightarrow> Inl Bad_Url
               | Some u \<Rightarrow> Inr (blank_mysql_config \<lparr>mc_net := ''tcp'', mc_addr := su_host u,
                   mc_db := trim_prefix (su_path u) ''/'', mc_params := first_values (su_query u)\<rparr>))
             else (case parse_connect_string cs of
                 None \<Rightarrow> Inl Bad_Connect_String
               | Some (host, port, name, query) \<Rightarrow>
                   Inr (blank_mysql_config \<lparr>mc_net := ''tcp'', mc_addr := host @ '':'' @ port, mc_db := name\<rparr>))) in
      bind_err base (\<lambda>c. Inr (My_Source (c \<lparr>mc_user := pr_username p, mc_password := password,
        mc_parse_time := True, mc_timeout_seconds := 5,
        mc_params := (mc_params c) (read_only_param d := Some ''1'')\<rparr>))))"

definition build_dsn ::
  "dialect \<Rightarrow> (string \<Rightarrow> source_url option) \<Rightarrow> (string \<Rightarrow> string \<Rightarrow> string list) \<Rightarrow> (string \<Rightarrow> mysql_config option)
     \<Rightarrow> profile \<Rightarrow> string \<Rightarrow> dsn_error + source" where
  "build_dsn d parse_url parse_query parse_dsn p password =
     (if d = Postgres then build_pg_dsn parse_url parse_query p password
      else build_mysql_dsn d parse_url parse_dsn p password)"

subsection \<open>Lemmas\<close>

lemma or_default_pos: "0 < d \<Longrightarrow> 0 < or_default n d"
  by (simp add: or_default_def)

lemma or_default_idem [simp]: "or_default (or_default n d) d = or_default n d"
  by (simp add: or_default_def)

lemma risk_labels_lower: "r \<in> set risk_labels \<Longrightarrow> to_lower r = r"
  by (auto simp: risk_labels_def to_lower_def lower_char_def)

lemma pool_defaults_idem: "pool_defaults (pool_defaults p) = pool_defaults p"
  by (simp add: pool_defaults_def)

lemma policy_defaults_idem: "policy_defaults (policy_defaults p) = policy_defaults p"
proof -
  have "''high'' \<in> set risk_labels" by (simp add: risk_labels_def)
  then show ?thesis
    by (auto simp: policy_defaults_def Let_def risk_labels_lower split: option.split)
qed

lemma dialect_name_lower: "to_lower (dialect_name d) = dialect_name d"
  by (cases d) (simp_all add: to_lower_def lower_char_def)

lemma dialect_name_not_Nil [simp]: "dialect_name d \<noteq> []"
  by (cases d) simp_all

lemma to_lower_eq_Nil [simp]: "to_lower s = [] \<longleftrightarrow> s = []"
  by (simp add: to_lower_def)

lemma type_defaults_idem: "type_defaults (type_defaults p) = type_defaults p"
proof -
  define t where "t = to_lower (if pr_type p = [] then ''postgres'' else pr_type p)"
  have t: "t \<noteq> []" "to_lower t = t" by (simp_all add: t_def)
  show ?thesis
  proof (cases "dialect_for t")
    case None
    with t show ?thesis by (simp add: type_defaults_def Let_def flip: t_def)
  next
    case (Some d)
    then show ?thesis by (simp add: type_defaults_def Let_def dialect_name_lower flip: t_def)
  qed
qed

lemma type_defaults_frame [simp]:
  "pr_id (type_defaults p) = pr_id p" "pr_pool (type_defaults p) = pr_pool p" "pr_policy (type_defaults p) = pr_policy p"
  "type_defaults (p \<lparr>pr_pool := a, pr_policy := b\<rparr>) = (type_defaults p) \<lparr>pr_pool := a, pr_policy := b\<rparr>"
  by (simp_all add: type_defaults_def Let_def split: option.split)

lemma with_defaults_id [simp]: "pr_id (with_defaults p) = pr_id p"
  by (simp add: with_defaults_def)

lemma with_defaults_idem: "with_defaults (with_defaults p) = with_defaults p"
  by (simp add: with_defaults_def type_defaults_idem pool_defaults_idem policy_defaults_idem)

definition profile_canonical :: "profile \<Rightarrow> bool" where
  "profile_canonical p \<longleftrightarrow>
     0 < pl_max_open (pr_pool p) \<and> 0 < pl_max_idle (pr_pool p) \<and> 0 < pl_lifetime (pr_pool p) \<and> 0 < pl_idle_time (pr_pool p) \<and>
     0 < po_query_timeout (pr_policy p) \<and> 0 < po_test_timeout (pr_policy p) \<and> 0 < po_default_max_rows (pr_policy p) \<and>
     0 < po_max_rows (pr_policy p) \<and> 0 < po_max_bytes (pr_policy p) \<and> po_plan_gate (pr_policy p) \<noteq> None \<and>
     1 \<le> risk_rank (po_plan_gate_risk (pr_policy p)) \<and>
     (case dialect_for (pr_type p) of Some d \<Rightarrow> pr_type p = dialect_name d \<and> pr_driver p = driver_name d | None \<Rightarrow> True)"

lemma with_defaults_canonical_aux: "profile_canonical (with_defaults p)"
proof -
  define t where "t = to_lower (if pr_type p = [] then ''postgres'' else pr_type p)"
  have "case dialect_for (pr_type (type_defaults p)) of
      Some d \<Rightarrow> pr_type (type_defaults p) = dialect_name d \<and> pr_driver (type_defaults p) = driver_name d | None \<Rightarrow> True"
    by (cases "dialect_for t") (simp_all add: type_defaults_def Let_def flip: t_def)
  then show ?thesis
    by (auto simp: profile_canonical_def with_defaults_def pool_defaults_def policy_defaults_def or_default_pos
        Let_def risk_rank_def risk_labels_def split: option.splits)
qed

text \<open>
  C38. Defaults: filling them in twice changes nothing, and a filled-in profile has positive pool
  sizes, timeouts and row limits, an explicit plan gate with a known risk label, and, for a known
  database type, the canonical type name with its driver.
\<close>

theorem with_defaults_canonical:
  "with_defaults (with_defaults p) = with_defaults p \<and> profile_canonical (with_defaults p)"
  by (simp only: with_defaults_idem with_defaults_canonical_aux simp_thms)

text \<open>A profile for the examples.\<close>

definition demo_profile :: profile where
  "demo_profile = \<lparr>pr_id = ''dw'', pr_name = [], pr_type = ''pg'', pr_driver = [], pr_connect = ''db:5432/dw'',
     pr_username = ''ro'', pr_password_ref = ''env:PW'',
     pr_pool = \<lparr>pl_max_open = 0, pl_max_idle = 0, pl_lifetime = 0, pl_idle_time = 0\<rparr>,
     pr_policy = \<lparr>po_read_only = None, po_query_timeout = 0, po_test_timeout = 0, po_default_max_rows = 0, po_max_rows = 0,
       po_max_bytes = 0, po_denied = [], po_plan_gate = None, po_plan_gate_risk = [], po_max_plan_cost = 0, po_max_plan_rows = 0\<rparr>,
     pr_routing = \<lparr>rt_schemas = [], rt_tags = [], rt_priority = 0, rt_default = False, rt_discover = None\<rparr>,
     pr_dba = None\<rparr>"

definition demo_dba :: dba_config where
  "demo_dba = \<lparr>db_enabled = True, db_username = ''root'', db_password_ref = ''env:X'', db_connect = []\<rparr>"

lemma demo_profile_valid: "validate_profile demo_profile = None"
  by code_simp

text \<open>
  Plain passwords do not leave through the API view: two profiles that differ only in their
  \<open>plain:\<close> password have the same view, for the query account and for the DBA account.
\<close>

theorem masked_hides_plain_password:
  assumes "parse_password_ref r1 = Inr ''plain''" and "parse_password_ref r2 = Inr ''plain''"
  shows "masked (p \<lparr>pr_password_ref := r1\<rparr>) = masked (p \<lparr>pr_password_ref := r2\<rparr>)
    \<and> masked (p \<lparr>pr_dba := Some (d \<lparr>db_password_ref := r1\<rparr>)\<rparr>) = masked (p \<lparr>pr_dba := Some (d \<lparr>db_password_ref := r2\<rparr>)\<rparr>)"
  using assms by (simp add: masked_def masked_ref_def)

theorem masked_hides_plain_password_witness:
  "masked (demo_profile \<lparr>pr_password_ref := ''plain:secret''\<rparr>) = masked (demo_profile \<lparr>pr_password_ref := ''Plain:other''\<rparr>)"
proof -
  have "parse_password_ref ''plain:secret'' = Inr ''plain''" "parse_password_ref ''Plain:other'' = Inr ''plain''"
    by code_simp+
  from masked_hides_plain_password [OF this, of demo_profile demo_dba] show ?thesis by blast
qed

subsection \<open>The store\<close>

definition profile_ids :: "profile list \<Rightarrow> string list" where
  "profile_ids ps = map pr_id ps"

lemma find_map_defaults:
  "find (\<lambda>p. pr_id p = k) (map with_defaults ps) = map_option with_defaults (find (\<lambda>p. pr_id p = k) ps)"
  by (rule find_map_key) simp

lemma get_profile_find:
  "get_profile raw k = (case find (\<lambda>p. pr_id p = k) raw of Some p \<Rightarrow> Inr (with_defaults p) | None \<Rightarrow> Inl (Profile_Not_Found k))"
  unfolding get_profile_def load_profiles_def find_map_defaults by (simp split: option.split)

lemma profile_ids_load [simp]: "profile_ids (load_profiles raw) = profile_ids raw"
  by (simp add: profile_ids_def load_profiles_def comp_def)

lemma profile_ids_replace [simp]: "profile_ids (replace_first p ps) = profile_ids ps"
  by (induction ps) (auto simp: profile_ids_def)

lemma find_replace_first:
  "find (\<lambda>q. pr_id q = k) (replace_first p ps) =
     (if k = pr_id p \<and> k \<in> set (profile_ids ps) then Some p else find (\<lambda>q. pr_id q = k) ps)"
  by (induction ps) (auto simp: profile_ids_def)

lemma find_append: "find P (xs @ ys) = (case find P xs of Some x \<Rightarrow> Some x | None \<Rightarrow> find P ys)"
  by (induction xs) auto

lemma find_id_None: "find (\<lambda>q. pr_id q = k) ps = None \<longleftrightarrow> k \<notin> set (profile_ids ps)"
  by (auto simp: find_None_iff profile_ids_def)

lemma find_load:
  "find (\<lambda>q. pr_id q = k) (load_profiles raw) = map_option with_defaults (find (\<lambda>q. pr_id q = k) raw)"
  by (simp add: load_profiles_def find_map_defaults)

lemma find_filter_id:
  "find (\<lambda>q. pr_id q = k) (filter (\<lambda>q. pr_id q \<noteq> j) ps) = (if k = j then None else find (\<lambda>q. pr_id q = k) ps)"
  by (induction ps) auto

lemma get_profile_cong:
  "map_option with_defaults (find (\<lambda>q. pr_id q = k) ps) = map_option with_defaults (find (\<lambda>q. pr_id q = k) qs) \<Longrightarrow>
     get_profile ps k = get_profile qs k"
  by (cases "find (\<lambda>q. pr_id q = k) ps"; cases "find (\<lambda>q. pr_id q = k) qs") (auto simp: get_profile_find)

lemma upsert_shape:
  assumes "upsert_profile raw p create = Inr ps"
  shows "validate_profile p = None"
    and "ps = (if pr_id p \<in> set (profile_ids raw) then replace_first (with_defaults p) (load_profiles raw)
               else load_profiles raw @ [with_defaults p])"
    and "create \<longleftrightarrow> pr_id p \<notin> set (profile_ids raw)"
proof -
  have ids: "set (map pr_id (load_profiles raw)) = set (profile_ids raw)"
    using profile_ids_load [of raw] by (metis profile_ids_def)
  from assms show "validate_profile p = None"
    by (simp add: upsert_profile_def split: option.splits)
  with assms show "ps = (if pr_id p \<in> set (profile_ids raw) then replace_first (with_defaults p) (load_profiles raw)
      else load_profiles raw @ [with_defaults p])" "create \<longleftrightarrow> pr_id p \<notin> set (profile_ids raw)"
    unfolding upsert_profile_def Let_def ids by (auto split: if_splits)
qed

text \<open>
  Saving a profile: an accepted save keeps the ids unique, makes exactly the saved definition
  (with defaults) retrievable under its id and leaves every other profile as it was; only valid,
  read-only definitions are accepted, creation only for a new id and update only for a known one.
\<close>

theorem upsert_profile_correct:
  assumes "upsert_profile raw p create = Inr ps" and "distinct (profile_ids raw)"
  shows "distinct (profile_ids ps) \<and> get_profile ps (pr_id p) = Inr (with_defaults p)
    \<and> (\<forall>k. k = pr_id p \<or> get_profile ps k = get_profile raw k)
    \<and> validate_profile p = None \<and> po_read_only (pr_policy p) \<noteq> Some False
    \<and> create = (pr_id p \<notin> set (profile_ids raw))"
proof -
  note shape = upsert_shape [OF assms(1)]
  have "profile_ids (xs @ [q]) = profile_ids xs @ [pr_id q]" for xs q
    by (simp add: profile_ids_def)
  then have "distinct (profile_ids ps)"
    using assms(2) unfolding shape(2) by (auto simp del: append.simps)
  moreover have "get_profile ps (pr_id p) = Inr (with_defaults p)"
    using find_id_None [of "pr_id p" "load_profiles raw"]
    by (cases "pr_id p \<in> set (profile_ids raw)")
       (simp_all add: get_profile_find shape(2) find_replace_first find_append with_defaults_idem)
  moreover have "get_profile ps k = get_profile raw k" if "k \<noteq> pr_id p" for k
    by (rule get_profile_cong)
       (auto simp: shape(2) find_replace_first find_append find_load option.map_comp comp_def with_defaults_idem that
         split: option.split)
  moreover have "po_read_only (pr_policy p) \<noteq> Some False"
    using shape(1) by (simp add: validate_profile_def)
  ultimately show ?thesis using shape by blast
qed

theorem upsert_profile_correct_witness:
  "get_profile (case upsert_profile [] demo_profile True of Inr ps \<Rightarrow> ps | Inl _ \<Rightarrow> []) ''dw'' = Inr (with_defaults demo_profile)"
proof -
  have "upsert_profile [] demo_profile True = Inr [with_defaults demo_profile]"
    by (simp add: upsert_profile_def demo_profile_valid load_profiles_def)
  from upsert_profile_correct [OF this] show ?thesis
    by (simp add: profile_ids_def upsert_profile_def demo_profile_valid load_profiles_def) (simp add: demo_profile_def)
qed

lemma remove_profile_correct:
  assumes "remove_profile raw k = Inr ps"
  shows "get_profile ps k = Inl (Profile_Not_Found k)"
    and "j \<noteq> k \<Longrightarrow> get_profile ps j = get_profile raw j"
    and "distinct (profile_ids raw) \<Longrightarrow> distinct (profile_ids ps)"
proof -
  have ps: "ps = filter (\<lambda>p. pr_id p \<noteq> k) (load_profiles raw)"
    using assms by (auto simp: remove_profile_def Let_def split: if_splits)
  show "get_profile ps k = Inl (Profile_Not_Found k)"
    by (simp add: ps get_profile_find find_filter_id)
  show "get_profile ps j = get_profile raw j" if "j \<noteq> k"
    by (rule get_profile_cong) (use that in \<open>simp add: ps find_filter_id find_load option.map_comp comp_def with_defaults_idem\<close>)
  show "distinct (profile_ids ps)" if "distinct (profile_ids raw)"
  proof -
    have "distinct (map pr_id (load_profiles raw))" using that profile_ids_load [of raw] by (metis profile_ids_def)
    then show ?thesis unfolding ps profile_ids_def by (rule distinct_map_filter)
  qed
qed

subsection \<open>Sources are read-only\<close>

fun source_read_only :: "dialect \<Rightarrow> source \<Rightarrow> bool" where
  "source_read_only d (Pg_Source u) \<longleftrightarrow> su_query u ''default_transaction_read_only'' = [''on'']"
| "source_read_only d (My_Source c) \<longleftrightarrow> mc_params c (read_only_param d) = Some ''1''"

fun source_credentials :: "source \<Rightarrow> string \<times> string" where
  "source_credentials (Pg_Source u) = (su_user u, su_password u)"
| "source_credentials (My_Source c) = (mc_user c, mc_password c)"

text \<open>
  C17. Every data source is read-only and uses the profile's own account: whatever the connection
  string says (also when it is a full URL with contrary parameters or other credentials), the
  source that is built asks for a read-only session and carries the profile's user name and the
  resolved password.
\<close>

theorem build_dsn_read_only:
  "build_dsn d parse_url parse_query parse_dsn p password = Inr src \<Longrightarrow>
     source_read_only d src \<and> source_credentials src = (pr_username p, password)"
  by (cases "d = Postgres")
     (auto simp: build_dsn_def build_pg_dsn_def build_mysql_dsn_def Let_def err_simps pg_query_defaults_def query_set_def)

theorem build_dsn_read_only_witness:
  "source_credentials (case build_dsn Mysql (\<lambda>_. None) (\<lambda>_ _. []) (\<lambda>_. None) demo_profile ''pw'' of Inr s \<Rightarrow> s | Inl _ \<Rightarrow> undefined)
     = (''ro'', ''pw'')"
proof -
  have "parse_connect_string ''db:5432/dw'' = Some (''db'', ''5432'', ''dw'', [])" by code_simp
  moreover have "trim_space ''db:5432/dw'' = ''db:5432/dw''" "contains_sub ''db:5432/dw'' ''@tcp('' = False"
    by code_simp+
  ultimately obtain s where s: "build_dsn Mysql (\<lambda>_. None) (\<lambda>_ _. []) (\<lambda>_. None) demo_profile ''pw'' = Inr s"
    by (auto simp: build_dsn_def build_mysql_dsn_def demo_profile_def has_prefix_def)
  from build_dsn_read_only [OF s] s show ?thesis by (simp add: demo_profile_def)
qed

end
