(* ===== verification/Plan_Risk.thy ===== *)
theory Plan_Risk
  imports Json Profiles
begin

text \<open>
  Execution-plan analysis (\<open>internal/dbconn/explain.go\<close>) and the cost ceiling of \<open>manager.go\<close>. A
  PostgreSQL plan is the tree \<open>json.Unmarshal\<close> fills (numbers already truncated by \<open>int64\<close>, as the
  code does at each use); a MySQL plan is the decoded JSON. Risk factors and suggestions are
  constructors with the numbers and names the source formats into its messages. Integers do not
  overflow: row estimates and costs of a planner stay far below \<open>2^63\<close>.
\<close>

subsection \<open>Results\<close>

record plan_step =
  ps_id :: nat
  ps_parent :: int
  ps_depth :: nat
  ps_operation :: string
  ps_options :: string
  ps_object :: string
  ps_cardinality :: int
  ps_cost :: int
  ps_access :: string
  ps_filter :: string

datatype risk_factor =
    Empty_Plan
  | Full_Scan string int
  | Small_Full_Scan string int
  | Cartesian_Join
  | Big_Nested_Loop int
  | Large_Sort int
  | Large_Aggregate int
  | Filesort int
  | Join_Buffer
  | Rows_Too_Large int
  | High_Cost int

datatype suggestion =
    Add_Index_Condition string | Check_Join_Condition | Prefer_Hash_Join | Reduce_Sort | Filter_Before_Aggregate
  | Check_Join_Buffer | Add_Period_Condition | Narrow_And_Preview

record plan_result =
  pn_steps :: "plan_step list"
  pn_total_cost :: int
  pn_max_card :: int
  pn_risk :: string
  pn_score :: int
  pn_factors :: "risk_factor list"
  pn_suggestions :: "suggestion list"

definition empty_plan_result :: plan_result where
  "empty_plan_result = \<lparr>pn_steps = [], pn_total_cost = 0, pn_max_card = 0, pn_risk = ''low'', pn_score = 0,
     pn_factors = [], pn_suggestions = []\<rparr>"

definition risk_rows_huge :: int where "risk_rows_huge = 1000000"
definition risk_rows_full_scan :: int where "risk_rows_full_scan = 100000"
definition risk_rows_sort :: int where "risk_rows_sort = 500000"
definition risk_cost_high :: int where "risk_cost_high = 100000"
definition risk_nested_loop :: int where "risk_nested_loop = 10000"

text \<open>\<open>addRisk\<close>; \<open>pn_score\<close> is the running \<open>score\<close>.\<close>

definition add_risk :: "int \<Rightarrow> risk_factor \<Rightarrow> suggestion option \<Rightarrow> plan_result \<Rightarrow> plan_result" where
  "add_risk pts f sg r = r \<lparr>pn_score := pn_score r + pts, pn_factors := pn_factors r @ [f],
     pn_suggestions := (case sg of None \<Rightarrow> pn_suggestions r | Some s \<Rightarrow> append_unique (pn_suggestions r) s)\<rparr>"

definition note_rows :: "int \<Rightarrow> plan_result \<Rightarrow> plan_result" where
  "note_rows rows r = (if rows > pn_max_card r then r \<lparr>pn_max_card := rows\<rparr> else r)"

definition finish_risk :: "plan_result \<Rightarrow> plan_result" where
  "finish_risk r0 =
     (let r1 = (if pn_max_card r0 \<ge> risk_rows_huge
                then add_risk 20 (Rows_Too_Large (pn_max_card r0)) (Some Add_Period_Condition) r0 else r0);
          r2 = (if pn_total_cost r1 \<ge> risk_cost_high
                then add_risk 15 (High_Cost (pn_total_cost r1)) (Some Narrow_And_Preview) r1 else r1) in
      if pn_score r2 \<ge> 60 then r2 \<lparr>pn_risk := ''high''\<rparr>
      else if pn_score r2 \<ge> 25 then r2 \<lparr>pn_risk := ''medium''\<rparr>
      else r2)"

fun first_non_empty :: "string list \<Rightarrow> string" where
  "first_non_empty [] = []"
| "first_non_empty (v # vs) = (if v \<noteq> [] then v else first_non_empty vs)"

text \<open>\<open>comma\<close>: a separator before position \<open>i > 0\<close> when the number of characters left is a multiple of three.\<close>

fun comma_go :: "bool \<Rightarrow> string \<Rightarrow> string" where
  "comma_go started [] = []"
| "comma_go started (c # cs) =
     (if started \<and> length (c # cs) mod 3 = 0 then CHR '','' # c # comma_go True cs else c # comma_go True cs)"

definition comma :: "int \<Rightarrow> string" where
  "comma n = comma_go False (show_int n)"

subsection \<open>PostgreSQL\<close>

record pg_fields =
  pf_type :: string
  pf_relation :: string
  pf_index :: string
  pf_rows :: int
  pf_cost :: int
  pf_filter :: string
  pf_join_type :: string
  pf_join_filter :: string
  pf_hash_cond :: string
  pf_merge_cond :: string
  pf_index_cond :: string

datatype pg_node = Pg_Node (pg_data: pg_fields) (pg_plans: "pg_node list")

fun any_child_has_cond :: "pg_node \<Rightarrow> bool" where
  "any_child_has_cond (Pg_Node n cs) \<longleftrightarrow>
     list_ex (\<lambda>c. pf_index_cond (pg_data c) \<noteq> [] \<or> pf_hash_cond (pg_data c) \<noteq> [] \<or> pf_merge_cond (pg_data c) \<noteq> []
       \<or> pf_join_filter (pg_data c) \<noteq> [] \<or> any_child_has_cond c) cs"

definition pg_node_risk :: "pg_node \<Rightarrow> plan_result \<Rightarrow> plan_result" where
  "pg_node_risk nd r =
     (let n = pg_data nd; rows = pf_rows n in
      if pf_type n = ''Seq Scan'' then
        (if rows \<ge> risk_rows_full_scan
         then add_risk 30 (Full_Scan (pf_relation n) rows) (Some (Add_Index_Condition (pf_relation n))) r
         else if rows > 0 then add_risk 8 (Small_Full_Scan (pf_relation n) rows) None r else r)
      else if pf_type n = ''Nested Loop'' then
        (if \<not> (pf_join_filter n \<noteq> [] \<or> any_child_has_cond nd)
         then add_risk 60 Cartesian_Join (Some Check_Join_Condition) r
         else if rows \<ge> risk_nested_loop then add_risk 20 (Big_Nested_Loop rows) (Some Prefer_Hash_Join) r else r)
      else if pf_type n = ''Sort'' then
        (if rows \<ge> risk_rows_sort then add_risk 15 (Large_Sort rows) (Some Reduce_Sort) r else r)
      else if contains_sub (pf_type n) ''Aggregate'' then
        (if rows \<ge> risk_rows_huge then add_risk 15 (Large_Aggregate rows) (Some Filter_Before_Aggregate) r else r)
      else r)"

definition pg_step :: "pg_fields \<Rightarrow> nat \<Rightarrow> int \<Rightarrow> nat \<Rightarrow> plan_step" where
  "pg_step n myid parent depth = \<lparr>ps_id = myid, ps_parent = parent, ps_depth = depth, ps_operation = pf_type n,
     ps_options = pf_join_type n, ps_object = first_non_empty [pf_relation n, pf_index n],
     ps_cardinality = pf_rows n, ps_cost = pf_cost n,
     ps_access = first_non_empty [pf_index_cond n, pf_hash_cond n, pf_merge_cond n, pf_join_filter n],
     ps_filter = pf_filter n\<rparr>"

text \<open>\<open>walk\<close>: the next id is the number of steps so far.\<close>

fun walk_plan :: "pg_node \<Rightarrow> int \<Rightarrow> nat \<Rightarrow> plan_result \<Rightarrow> plan_result" and
  walk_plans :: "pg_node list \<Rightarrow> int \<Rightarrow> nat \<Rightarrow> plan_result \<Rightarrow> plan_result" where
  "walk_plan (Pg_Node n cs) parent depth r =
     (let myid = length (pn_steps r);
          r1 = note_rows (pf_rows n) (r \<lparr>pn_steps := pn_steps r @ [pg_step n myid parent depth]\<rparr>) in
      walk_plans cs (int myid) (depth + 1) (pg_node_risk (Pg_Node n cs) r1))"
| "walk_plans [] parent depth r = r"
| "walk_plans (c # cs) parent depth r = walk_plans cs parent depth (walk_plan c parent depth r)"

definition analyze_postgres_plan :: "pg_node list \<Rightarrow> plan_result" where
  "analyze_postgres_plan roots =
     (case roots of
        [] \<Rightarrow> empty_plan_result \<lparr>pn_factors := [Empty_Plan]\<rparr>
      | t # _ \<Rightarrow> finish_risk ((walk_plan t (-1) 0 empty_plan_result) \<lparr>pn_total_cost := pf_cost (pg_data t)\<rparr>))"

subsection \<open>MySQL and MariaDB\<close>

definition mysql_walk_keys :: "string list" where
  "mysql_walk_keys = [''query_block'', ''table'', ''nested_loop'', ''grouping_operation'', ''ordering_operation'',
     ''duplicates_removal'', ''materialized_from_subquery'', ''attached_subqueries'', ''union_result'',
     ''query_specifications'', ''query_specification'', ''subqueries'', ''temporary_table'', ''read_sorted_file'',
     ''having_subqueries'', ''select_list_subqueries'']"

text \<open>\<open>parse_float\<close> is \<open>strconv.ParseFloat\<close> followed by \<open>int64\<close>.\<close>

fun mysql_rows_of :: "(string \<Rightarrow> int option) \<Rightarrow> json \<Rightarrow> string list \<Rightarrow> int" where
  "mysql_rows_of parse_float node [] = 0"
| "mysql_rows_of parse_float node (k # ks) =
     (case j_get k node of
        Some (J_Num m s) \<Rightarrow> decimal_int m s
      | Some (J_Str t) \<Rightarrow> (case parse_float t of Some n \<Rightarrow> n | None \<Rightarrow> mysql_rows_of parse_float node ks)
      | _ \<Rightarrow> mysql_rows_of parse_float node ks)"

definition mysql_rows :: "(string \<Rightarrow> int option) \<Rightarrow> json \<Rightarrow> int" where
  "mysql_rows parse_float node = mysql_rows_of parse_float node [''rows_examined_per_scan'', ''rows_produced_per_join'', ''rows'']"

record mysql_walk =
  mw_plan :: plan_result
  mw_tables :: nat
  mw_buffered :: nat
  mw_filesort :: bool

definition mysql_table :: "(string \<Rightarrow> int option) \<Rightarrow> json \<Rightarrow> nat \<Rightarrow> mysql_walk \<Rightarrow> mysql_walk" where
  "mysql_table parse_float node depth w =
     (case j_get ''table_name'' node of
        Some (J_Str name) \<Rightarrow>
          let access = j_str (j_get ''access_type'' node);
              rows = mysql_rows parse_float node;
              step = \<lparr>ps_id = length (pn_steps (mw_plan w)), ps_parent = -1, ps_depth = depth,
                ps_operation = ''TABLE ACCESS'', ps_options = to_upper access, ps_object = name,
                ps_cardinality = rows, ps_cost = 0, ps_access = j_str (j_get ''key'' node),
                ps_filter = j_str (j_get ''attached_condition'' node)\<rparr>;
              r1 = note_rows rows ((mw_plan w) \<lparr>pn_steps := pn_steps (mw_plan w) @ [step]\<rparr>);
              r2 = (if equal_fold access ''ALL'' then
                      (if rows \<ge> risk_rows_full_scan then add_risk 30 (Full_Scan name rows) (Some (Add_Index_Condition name)) r1
                       else if rows > 0 then add_risk 8 (Small_Full_Scan name rows) None r1 else r1)
                    else r1) in
          w \<lparr>mw_plan := r2, mw_tables := mw_tables w + 1,
             mw_buffered := mw_buffered w + (if j_str (j_get ''using_join_buffer'' node) \<noteq> [] then 1 else 0)\<rparr>
      | _ \<Rightarrow> w)"

definition mysql_filesort_flags :: "json \<Rightarrow> mysql_walk \<Rightarrow> mysql_walk" where
  "mysql_filesort_flags node w =
     (if j_get ''using_filesort'' node = Some (J_Bool True) \<or> j_obj (j_get ''filesort'' node) \<noteq> None
      then w \<lparr>mw_filesort := True\<rparr> else w)"

text \<open>The members the walk enters: the MariaDB \<open>filesort\<close> object, and the known keys.\<close>

definition mysql_filesort_member :: "string \<Rightarrow> json \<Rightarrow> bool" where
  "mysql_filesort_member k v \<longleftrightarrow> k = ''filesort'' \<and> j_obj (Some v) \<noteq> None"

definition mysql_descend :: "string \<Rightarrow> json \<Rightarrow> bool" where
  "mysql_descend k v \<longleftrightarrow> k \<in> set mysql_walk_keys \<or> has_suffix k ''-join''"

text \<open>
  The walk of an object: its table, its filesort flags, its \<open>filesort\<close> object, then the members with
  a known key.
\<close>

fun walk_mysql :: "(string \<Rightarrow> int option) \<Rightarrow> json \<Rightarrow> nat \<Rightarrow> mysql_walk \<Rightarrow> mysql_walk" and
  walk_mysql_list :: "(string \<Rightarrow> int option) \<Rightarrow> json list \<Rightarrow> nat \<Rightarrow> mysql_walk \<Rightarrow> mysql_walk" and
  walk_mysql_obj :: "(string \<Rightarrow> int option) \<Rightarrow> (string \<Rightarrow> json \<Rightarrow> bool) \<Rightarrow> (string \<times> json) list \<Rightarrow> nat \<Rightarrow> mysql_walk \<Rightarrow> mysql_walk"
where
  "walk_mysql pf (J_Obj ms) depth w =
     walk_mysql_obj pf mysql_descend ms depth (walk_mysql_obj pf mysql_filesort_member ms depth
       (mysql_filesort_flags (J_Obj ms) (mysql_table pf (J_Obj ms) depth w)))"
| "walk_mysql pf (J_Arr xs) depth w = walk_mysql_list pf xs depth w"
| "walk_mysql pf J_Null depth w = w"
| "walk_mysql pf (J_Bool _) depth w = w"
| "walk_mysql pf (J_Num _ _) depth w = w"
| "walk_mysql pf (J_Str _) depth w = w"
| "walk_mysql_list pf [] depth w = w"
| "walk_mysql_list pf (x # xs) depth w = walk_mysql_list pf xs depth (walk_mysql pf x depth w)"
| "walk_mysql_obj pf sel [] depth w = w"
| "walk_mysql_obj pf sel ((k, v) # ms) depth w =
     walk_mysql_obj pf sel ms depth (if sel k v then walk_mysql pf v (depth + 1) w else w)"

definition mysql_total_cost :: "(string \<Rightarrow> int option) \<Rightarrow> json \<Rightarrow> int" where
  "mysql_total_cost parse_float tree =
     (case j_obj (j_get ''query_block'' tree) of
        None \<Rightarrow> 0
      | Some qb \<Rightarrow> (case j_obj (j_get ''cost_info'' qb) of
          None \<Rightarrow> 0
        | Some ci \<Rightarrow> (case j_get ''query_cost'' ci of
            Some (J_Str s) \<Rightarrow> (case parse_float s of Some n \<Rightarrow> n | None \<Rightarrow> 0)
          | _ \<Rightarrow> 0)))"

definition analyze_mysql_plan :: "(string \<Rightarrow> int option) \<Rightarrow> json \<Rightarrow> plan_result" where
  "analyze_mysql_plan parse_float tree =
     (let w = walk_mysql parse_float tree 0
            \<lparr>mw_plan = empty_plan_result \<lparr>pn_total_cost := mysql_total_cost parse_float tree\<rparr>,
             mw_tables = 0, mw_buffered = 0, mw_filesort = False\<rparr>;
          r0 = mw_plan w;
          r1 = (if mw_filesort w \<and> pn_max_card r0 \<ge> risk_rows_sort
                then add_risk 15 (Filesort (pn_max_card r0)) (Some Reduce_Sort) r0 else r0);
          r2 = (if mw_tables w \<ge> 2 \<and> mw_buffered w > 0 \<and> pn_max_card r1 \<ge> risk_nested_loop
                then add_risk 40 Join_Buffer (Some Check_Join_Buffer) r1 else r1);
          r3 = (if pn_steps r2 = [] then r2 \<lparr>pn_factors := pn_factors r2 @ [Empty_Plan]\<rparr> else r2) in
      finish_risk r3)"

subsection \<open>The cost ceiling\<close>

datatype cost_measure = Measure_Cost | Measure_Rows

record cost_error =
  ce_measure :: cost_measure
  ce_limit :: int
  ce_actual :: int

definition cost_ceiling_error :: "plan_result \<Rightarrow> policy \<Rightarrow> cost_error option" where
  "cost_ceiling_error plan pol =
     (if po_max_plan_cost pol > 0 \<and> pn_total_cost plan > po_max_plan_cost pol
      then Some \<lparr>ce_measure = Measure_Cost, ce_limit = po_max_plan_cost pol, ce_actual = pn_total_cost plan\<rparr>
      else if po_max_plan_rows pol > 0 \<and> pn_max_card plan > po_max_plan_rows pol
      then Some \<lparr>ce_measure = Measure_Rows, ce_limit = po_max_plan_rows pol, ce_actual = pn_max_card plan\<rparr>
      else None)"

subsection \<open>What the analysis computes\<close>

fun pg_nodes :: "pg_node \<Rightarrow> pg_node list" and
  pg_nodes_list :: "pg_node list \<Rightarrow> pg_node list" where
  "pg_nodes (Pg_Node n cs) = Pg_Node n cs # pg_nodes_list cs"
| "pg_nodes_list [] = []"
| "pg_nodes_list (c # cs) = pg_nodes c @ pg_nodes_list cs"

definition node_rows :: "pg_node \<Rightarrow> int" where
  "node_rows nd = pf_rows (pg_data nd)"

definition cartesian :: "pg_node \<Rightarrow> bool" where
  "cartesian nd \<longleftrightarrow> pf_type (pg_data nd) = ''Nested Loop'' \<and> pf_join_filter (pg_data nd) = [] \<and> \<not> any_child_has_cond nd"

definition node_points :: "pg_node \<Rightarrow> int" where
  "node_points nd = pn_score (pg_node_risk nd empty_plan_result)"

lemma add_risk_simps [simp]:
  "pn_score (add_risk p f sg r) = pn_score r + p" "pn_steps (add_risk p f sg r) = pn_steps r"
  "pn_max_card (add_risk p f sg r) = pn_max_card r" "pn_total_cost (add_risk p f sg r) = pn_total_cost r"
  "pn_risk (add_risk p f sg r) = pn_risk r"
  by (simp_all add: add_risk_def)

lemma note_rows_simps [simp]:
  "pn_score (note_rows n r) = pn_score r" "pn_steps (note_rows n r) = pn_steps r"
  "pn_max_card (note_rows n r) = max (pn_max_card r) n" "pn_risk (note_rows n r) = pn_risk r"
  by (simp_all add: note_rows_def)

lemma pg_node_risk_simps [simp]:
  "pn_score (pg_node_risk nd r) = pn_score r + node_points nd" "pn_steps (pg_node_risk nd r) = pn_steps r"
  "pn_max_card (pg_node_risk nd r) = pn_max_card r" "pn_risk (pg_node_risk nd r) = pn_risk r"
  by (simp_all add: node_points_def pg_node_risk_def Let_def empty_plan_result_def)

lemma node_points_nonneg: "0 \<le> node_points nd"
  by (simp add: node_points_def pg_node_risk_def Let_def empty_plan_result_def)

lemma cartesian_points: "cartesian nd \<Longrightarrow> node_points nd = 60"
  by (simp add: cartesian_def node_points_def pg_node_risk_def Let_def empty_plan_result_def)

lemma walk_plan_score:
  "pn_score (walk_plan nd p d r) = pn_score r + sum_list (map node_points (pg_nodes nd))"
  "pn_score (walk_plans nds p d r) = pn_score r + sum_list (map node_points (pg_nodes_list nds))"
  by (induction nd p d r and nds p d r rule: walk_plan_walk_plans.induct) (simp_all add: Let_def)

lemma walk_plan_max:
  "pn_max_card (walk_plan nd p d r) = foldl max (pn_max_card r) (map node_rows (pg_nodes nd))"
  "pn_max_card (walk_plans nds p d r) = foldl max (pn_max_card r) (map node_rows (pg_nodes_list nds))"
  by (induction nd p d r and nds p d r rule: walk_plan_walk_plans.induct)
     (simp_all add: Let_def node_rows_def)

definition steps_ok :: "plan_step list \<Rightarrow> bool" where
  "steps_ok ss \<longleftrightarrow> map ps_id ss = [0..<length ss] \<and> (\<forall>s \<in> set ss. ps_parent s < int (ps_id s))"

lemma pg_step_simps [simp]:
  "ps_id (pg_step n i p d) = i" "ps_parent (pg_step n i p d) = p" "ps_cardinality (pg_step n i p d) = pf_rows n"
  by (simp_all add: pg_step_def)

lemma steps_ok_snoc:
  "steps_ok ss \<Longrightarrow> p < int (length ss) \<Longrightarrow> steps_ok (ss @ [pg_step n (length ss) p d])"
  by (auto simp: steps_ok_def)

lemma walk_plan_steps:
  "steps_ok (pn_steps r) \<Longrightarrow> p < int (length (pn_steps r)) \<Longrightarrow>
     steps_ok (pn_steps (walk_plan nd p d r)) \<and>
     map ps_cardinality (pn_steps (walk_plan nd p d r)) = map ps_cardinality (pn_steps r) @ map node_rows (pg_nodes nd)"
  "steps_ok (pn_steps r) \<Longrightarrow> p < int (length (pn_steps r)) \<Longrightarrow>
     steps_ok (pn_steps (walk_plans nds p d r)) \<and>
     map ps_cardinality (pn_steps (walk_plans nds p d r)) = map ps_cardinality (pn_steps r) @ map node_rows (pg_nodes_list nds)"
proof (induction nd p d r and nds p d r rule: walk_plan_walk_plans.induct)
  case (1 n cs parent depth r)
  define r' where "r' = pg_node_risk (Pg_Node n cs) (note_rows (pf_rows n)
    (r \<lparr>pn_steps := pn_steps r @ [pg_step n (length (pn_steps r)) parent depth]\<rparr>))"
  have steps: "pn_steps r' = pn_steps r @ [pg_step n (length (pn_steps r)) parent depth]"
    by (simp add: r'_def)
  have "steps_ok (pn_steps r')" using steps_ok_snoc [OF 1(2,3)] by (simp only: steps)
  moreover have "int (length (pn_steps r)) < int (length (pn_steps r'))" by (simp add: steps)
  ultimately have "steps_ok (pn_steps (walk_plans cs (int (length (pn_steps r))) (depth + 1) r'))"
    "map ps_cardinality (pn_steps (walk_plans cs (int (length (pn_steps r))) (depth + 1) r')) =
       map ps_cardinality (pn_steps r') @ map node_rows (pg_nodes_list cs)"
    using 1(1) [OF refl refl, folded r'_def] by blast+
  then show ?case by (simp add: Let_def r'_def [symmetric] steps node_rows_def)
next
  case (3 c cs parent depth r)
  then have "steps_ok (pn_steps (walk_plan c parent depth r))"
    and card: "map ps_cardinality (pn_steps (walk_plan c parent depth r)) = map ps_cardinality (pn_steps r) @ map node_rows (pg_nodes c)"
    by blast+
  moreover have "length (pn_steps (walk_plan c parent depth r)) = length (pn_steps r) + length (pg_nodes c)"
    using arg_cong [OF card, of length] by simp
  ultimately show ?case using 3 by simp
qed simp

lemma finish_risk_simps [simp]:
  "pn_max_card (finish_risk r) = pn_max_card r" "pn_total_cost (finish_risk r) = pn_total_cost r"
  "pn_steps (finish_risk r) = pn_steps r" "pn_score r \<le> pn_score (finish_risk r)"
proof -
  define r1 where "r1 = (if pn_max_card r \<ge> risk_rows_huge
    then add_risk 20 (Rows_Too_Large (pn_max_card r)) (Some Add_Period_Condition) r else r)"
  define r2 where "r2 = (if pn_total_cost r1 \<ge> risk_cost_high
    then add_risk 15 (High_Cost (pn_total_cost r1)) (Some Narrow_And_Preview) r1 else r1)"
  have 1: "pn_max_card r1 = pn_max_card r \<and> pn_total_cost r1 = pn_total_cost r \<and> pn_steps r1 = pn_steps r
    \<and> pn_score r \<le> pn_score r1" by (simp add: r1_def)
  have 2: "pn_max_card r2 = pn_max_card r1 \<and> pn_total_cost r2 = pn_total_cost r1 \<and> pn_steps r2 = pn_steps r1
    \<and> pn_score r1 \<le> pn_score r2" by (simp add: r2_def)
  show "pn_max_card (finish_risk r) = pn_max_card r" "pn_total_cost (finish_risk r) = pn_total_cost r"
    "pn_steps (finish_risk r) = pn_steps r" "pn_score r \<le> pn_score (finish_risk r)"
    unfolding finish_risk_def Let_def r1_def [symmetric] r2_def [symmetric] using 1 2 by simp_all
qed

lemma finish_risk_high:
  assumes "60 \<le> pn_score r" shows "pn_risk (finish_risk r) = ''high''"
proof -
  define r1 where "r1 = (if pn_max_card r \<ge> risk_rows_huge
    then add_risk 20 (Rows_Too_Large (pn_max_card r)) (Some Add_Period_Condition) r else r)"
  define r2 where "r2 = (if pn_total_cost r1 \<ge> risk_cost_high
    then add_risk 15 (High_Cost (pn_total_cost r1)) (Some Narrow_And_Preview) r1 else r1)"
  have "60 \<le> pn_score r1" using assms by (simp add: r1_def)
  then have "60 \<le> pn_score r2" by (simp add: r2_def)
  then show ?thesis unfolding finish_risk_def Let_def r1_def [symmetric] r2_def [symmetric] by simp
qed

lemma sum_list_member_le: "(\<forall>x \<in> set xs. 0 \<le> f x) \<Longrightarrow> y \<in> set xs \<Longrightarrow> f y \<le> (sum_list (map f xs) :: int)"
proof (induction xs)
  case (Cons x xs)
  have "0 \<le> sum_list (map f xs)" using Cons.prems(1) by (intro sum_list_nonneg) auto
  moreover have "0 \<le> f x" using Cons.prems(1) by simp
  moreover have "y \<in> set xs \<Longrightarrow> f y \<le> sum_list (map f xs)" using Cons by simp
  ultimately show ?case using Cons.prems(2) by auto
qed simp

text \<open>
  A cartesian product is always high risk: if anywhere in the plan a nested loop has neither a
  join filter nor a condition below it, the analysis rates the whole plan \<open>high\<close>, whatever the
  row estimates, so that the plan gate asks for approval.
\<close>

theorem cartesian_is_high_risk:
  assumes "nd \<in> set (pg_nodes t)" and "cartesian nd"
  shows "pn_risk (analyze_postgres_plan (t # ts)) = ''high''"
proof -
  have "60 \<le> sum_list (map node_points (pg_nodes t))"
    using sum_list_member_le [OF _ assms(1), of node_points] node_points_nonneg cartesian_points [OF assms(2)] by simp
  then show ?thesis
    by (simp add: analyze_postgres_plan_def finish_risk_high walk_plan_score empty_plan_result_def)
qed

definition demo_node :: "string \<Rightarrow> int \<Rightarrow> pg_fields" where
  "demo_node t rows = \<lparr>pf_type = t, pf_relation = [], pf_index = [], pf_rows = rows, pf_cost = 5, pf_filter = [],
     pf_join_type = [], pf_join_filter = [], pf_hash_cond = [], pf_merge_cond = [], pf_index_cond = []\<rparr>"

definition demo_plan :: pg_node where
  "demo_plan = Pg_Node (demo_node ''Limit'' 10)
     [Pg_Node (demo_node ''Nested Loop'' 10) [Pg_Node (demo_node ''Seq Scan'' 5) [], Pg_Node (demo_node ''Seq Scan'' 2) []]]"

theorem cartesian_is_high_risk_witness: "pn_risk (analyze_postgres_plan [demo_plan]) = ''high''"
  by (rule cartesian_is_high_risk [of "Pg_Node (demo_node ''Nested Loop'' 10)
        [Pg_Node (demo_node ''Seq Scan'' 5) [], Pg_Node (demo_node ''Seq Scan'' 2) []]"])
     (simp_all add: demo_plan_def cartesian_def demo_node_def)

lemma foldl_max_le: "foldl max (a :: int) xs \<le> m \<longleftrightarrow> a \<le> m \<and> list_all (\<lambda>x. x \<le> m) xs"
  by (induction xs arbitrary: a) auto

text \<open>
  The hard ceiling looks at the whole plan: a PostgreSQL plan passes exactly when, for each
  ceiling that is set, the root's total cost stays below the cost ceiling and the row estimate of
  every node, however deep, stays below the row ceiling.
\<close>

theorem cost_ceiling_covers_plan:
  "cost_ceiling_error (analyze_postgres_plan (t # ts)) pol = None \<longleftrightarrow>
     (if 0 < po_max_plan_cost pol then pf_cost (pg_data t) \<le> po_max_plan_cost pol else True) \<and>
     (if 0 < po_max_plan_rows pol then list_all (\<lambda>nd. node_rows nd \<le> po_max_plan_rows pol) (pg_nodes t) else True)"
proof -
  have "pn_max_card (analyze_postgres_plan (t # ts)) = foldl max 0 (map node_rows (pg_nodes t))"
    "pn_total_cost (analyze_postgres_plan (t # ts)) = pf_cost (pg_data t)"
    by (simp_all add: analyze_postgres_plan_def walk_plan_max) (simp add: empty_plan_result_def)
  moreover have "foldl max 0 (map node_rows (pg_nodes t)) \<le> m \<longleftrightarrow> list_all (\<lambda>nd. node_rows nd \<le> m) (pg_nodes t)"
    if "0 < m" for m
    using that by (simp add: foldl_max_le list_all_iff)
  ultimately show ?thesis
    by (auto simp: cost_ceiling_error_def not_less [symmetric])
qed

text \<open>
  The reported steps are the plan: they list every node once in preorder, numbered from 0, each
  step's parent comes before it, and the row estimates are those of the nodes.
\<close>

theorem plan_steps_are_the_plan:
  "steps_ok (pn_steps (analyze_postgres_plan (t # ts))) \<and>
   map ps_cardinality (pn_steps (analyze_postgres_plan (t # ts))) = map node_rows (pg_nodes t)"
  using walk_plan_steps(1) [of empty_plan_result "-1" t 0]
  by (simp add: analyze_postgres_plan_def) (simp add: empty_plan_result_def steps_ok_def)

lemma comma_go_digits: "CHR '','' \<notin> set s \<Longrightarrow> filter (\<lambda>c. c \<noteq> CHR '','') (comma_go b s) = s"
  by (induction b s rule: comma_go.induct) auto

text \<open>A server that reports no cost never meets the cost ceiling (MariaDB).\<close>

lemma no_cost_no_ceiling:
  assumes "j_get ''query_block'' tree = Some (J_Obj qb)" and "map_of qb ''cost_info'' = None"
  shows "mysql_total_cost pf tree = 0"
  using assms by (simp add: mysql_total_cost_def j_obj_def j_get_def)

end
