(* ===== verification/Executor.thy ===== *)
theory Executor
  imports Plan_Risk Ast_Guard
begin

text \<open>
  The connection manager (\<open>internal/dbconn/manager.go\<close>, \<open>ExplainPlan\<close> of \<open>explain.go\<close>, error codes of
  \<open>errors.go\<close>): pools, circuit breaker, plan gate, execution with row and byte caps, counting,
  column metadata, cancellation, history and metrics.

  The manager is a record passed from operation to operation; the mutexes make each step of the
  source atomic. What the manager asks of the outside is the record \<open>exec_env\<close>: the profile store,
  the guard, secrets, the driver's answers, the clock at the start and at the end of the call,
  the fresh execution id, the hash. \<open>mg_sent\<close> lists the statements sent to the databases, the
  effect that the safety properties are about; audit files mirror \<open>mg_history\<close> and are not modelled.
\<close>

subsection \<open>Errors\<close>

datatype db_err = Db_Deadline string | Db_Canceled string | Db_Pg string string | Db_My nat string | Db_Other string

datatype exec_error =
    Ex_Profile string
  | Ex_Dialect
  | Ex_Guard read_only_error
  | Ex_Breaker string nat
  | Ex_Cost cost_error
  | Ex_Gate string string
  | Ex_Secret secret_error
  | Ex_Db db_err
  | Ex_Timeout db_err
  | Ex_Canceled_Query db_err
  | Ex_Explain db_err
  | Ex_Bad_Plan

fun db_err_code :: "db_err \<Rightarrow> string" where
  "db_err_code (Db_Deadline _) = ''TIMEOUT''"
| "db_err_code (Db_Canceled _) = ''CANCELED''"
| "db_err_code (Db_Pg code _) = ''PG-'' @ code"
| "db_err_code (Db_My n _) = ''MY-'' @ show_nat n"
| "db_err_code (Db_Other _) = ''INTERNAL''"

fun error_code :: "exec_error \<Rightarrow> string" where
  "error_code (Ex_Db e) = db_err_code e"
| "error_code (Ex_Timeout e) = db_err_code e"
| "error_code (Ex_Canceled_Query e) = db_err_code e"
| "error_code _ = ''INTERNAL''"

definition sanitize_db_error :: "string \<Rightarrow> string" where
  "sanitize_db_error msg =
     (let m = replace_char newline '' '' msg in if length m > 500 then take 500 m @ ''...'' else m)"

definition truncate_str :: "string \<Rightarrow> nat \<Rightarrow> string" where
  "truncate_str s n = (if length s \<le> n then s else take n s @ ''...(truncated)'')"

datatype ctx_state = Ctx_Live | Ctx_Deadline | Ctx_Canceled

definition wrap_exec_error :: "ctx_state \<Rightarrow> db_err \<Rightarrow> exec_error" where
  "wrap_exec_error c e = (case c of Ctx_Deadline \<Rightarrow> Ex_Timeout e | Ctx_Canceled \<Rightarrow> Ex_Canceled_Query e | Ctx_Live \<Rightarrow> Ex_Db e)"

subsection \<open>State\<close>

record breaker =
  bk_failures :: nat
  bk_open_until :: "int option"

record execution =
  ex_id :: string
  ex_profile :: string
  ex_sql_hash :: string
  ex_user :: string

record history_entry =
  he_trace :: string
  he_exec :: string
  he_user :: string
  he_profile :: string
  he_sql_hash :: string
  he_sql :: string
  he_elapsed :: int
  he_rows :: nat
  he_truncated :: bool
  he_success :: bool
  he_code :: string
  he_msg :: string

record metrics =
  mt_total :: int
  mt_success :: int
  mt_failure :: int
  mt_slow :: int
  mt_ping_failure :: int
  mt_elapsed_sum :: int

record manager =
  mg_pools :: "string \<Rightarrow> string option"
  mg_brk :: "string \<Rightarrow> breaker option"
  mg_execs :: "string \<Rightarrow> execution option"
  mg_history :: "history_entry list"
  mg_metrics :: metrics
  mg_sent :: "(string \<times> string) list"
  mg_cancelled :: "string list"

definition new_manager :: manager where
  "new_manager = \<lparr>mg_pools = Map.empty, mg_brk = Map.empty, mg_execs = Map.empty, mg_history = [],
     mg_metrics = \<lparr>mt_total = 0, mt_success = 0, mt_failure = 0, mt_slow = 0, mt_ping_failure = 0, mt_elapsed_sum = 0\<rparr>,
     mg_sent = [], mg_cancelled = []\<rparr>"

datatype sql_value = V_Null | V_Text string | V_Other string

record query_result =
  qr_exec_id :: string
  qr_profile :: string
  qr_columns :: "(string \<times> string) list"
  qr_rows :: "(string \<Rightarrow> sql_value option) list"
  qr_row_count :: nat
  qr_truncated :: bool
  qr_bytes_capped :: bool
  qr_max_rows :: nat
  qr_elapsed :: int

record exec_options =
  eo_max_rows :: int
  eo_timeout :: int
  eo_preview :: bool
  eo_binds :: "string list"
  eo_user :: string
  eo_trace :: string
  eo_approve :: bool

text \<open>A result set: columns, then rows or a scan error, and the error left at the end.\<close>

datatype cursor_row = Row "sql_value list" | Scan_Error db_err

record cursor =
  cu_columns :: "db_err + (string \<times> string) list"
  cu_rows :: "cursor_row list"
  cu_end :: "db_err option"

datatype raw_plan = Raw_Pg "pg_node list" | Raw_My json | Raw_Bad

record exec_env =
  ee_get :: "string \<Rightarrow> string + profile"
  ee_guard :: "dialect \<Rightarrow> string \<Rightarrow> string list \<Rightarrow> read_only_error option"
  ee_sig :: "profile \<Rightarrow> string"
  ee_secret :: "string \<Rightarrow> secret_error + string"
  ee_open :: "dialect \<Rightarrow> profile \<Rightarrow> string \<Rightarrow> db_err option"
  ee_explain :: "string \<Rightarrow> string \<Rightarrow> db_err + raw_plan"
  ee_query :: "string \<Rightarrow> string \<Rightarrow> string list \<Rightarrow> db_err + cursor"
  ee_count :: "string \<Rightarrow> string \<Rightarrow> db_err + int"
  ee_ping :: "string \<Rightarrow> db_err option"
  ee_ctx :: ctx_state
  ee_start :: int
  ee_end :: int
  ee_exec_id :: string
  ee_hash :: "string \<Rightarrow> string"
  ee_text :: "exec_error \<Rightarrow> string"
  ee_float :: "string \<Rightarrow> int option"

subsection \<open>Circuit breaker\<close>

definition breaker_threshold :: nat where "breaker_threshold = 3"
definition breaker_cooldown :: int where "breaker_cooldown = 30000"

definition breaker_check :: "manager \<Rightarrow> string \<Rightarrow> int \<Rightarrow> exec_error option" where
  "breaker_check m pid now =
     (case mg_brk m pid of
        Some b \<Rightarrow> (case bk_open_until b of
            Some t \<Rightarrow> if now < t then Some (Ex_Breaker pid (bk_failures b)) else None
          | None \<Rightarrow> None)
      | None \<Rightarrow> None)"

definition breaker_after :: "breaker \<Rightarrow> bool \<Rightarrow> int \<Rightarrow> breaker" where
  "breaker_after b ok now =
     (if ok then \<lparr>bk_failures = 0, bk_open_until = None\<rparr>
      else let f = bk_failures b + 1 in
        \<lparr>bk_failures = f, bk_open_until = (if f \<ge> breaker_threshold then Some (now + breaker_cooldown) else bk_open_until b)\<rparr>)"

definition fresh_breaker :: breaker where
  "fresh_breaker = \<lparr>bk_failures = 0, bk_open_until = None\<rparr>"

definition breaker_of :: "manager \<Rightarrow> string \<Rightarrow> breaker" where
  "breaker_of m pid = (case mg_brk m pid of Some b \<Rightarrow> b | None \<Rightarrow> fresh_breaker)"

definition breaker_record :: "string \<Rightarrow> bool \<Rightarrow> int \<Rightarrow> manager \<Rightarrow> manager" where
  "breaker_record pid ok now m = m \<lparr>mg_brk := (mg_brk m) (pid := Some (breaker_after (breaker_of m pid) ok now))\<rparr>"

subsection \<open>Audit, history, metrics\<close>

definition history_limit :: nat where "history_limit = 200"
definition slow_query_ms :: int where "slow_query_ms = 5000"

definition keep_last :: "nat \<Rightarrow> 'a list \<Rightarrow> 'a list" where
  "keep_last n xs = drop (length xs - n) xs"

definition audit_entry ::
  "exec_env \<Rightarrow> string \<Rightarrow> string \<Rightarrow> exec_options \<Rightarrow> query_result option \<Rightarrow> int \<Rightarrow> exec_error option \<Rightarrow> history_entry" where
  "audit_entry env pid sql opts res elapsed err =
     \<lparr>he_trace = eo_trace opts, he_exec = (case res of Some r \<Rightarrow> qr_exec_id r | None \<Rightarrow> []), he_user = eo_user opts,
      he_profile = pid, he_sql_hash = ee_hash env (trim_space sql), he_sql = truncate_str sql 4000, he_elapsed = elapsed,
      he_rows = (case res of Some r \<Rightarrow> qr_row_count r | None \<Rightarrow> 0),
      he_truncated = (case res of Some r \<Rightarrow> qr_truncated r | None \<Rightarrow> False), he_success = (err = None),
      he_code = (case err of Some e \<Rightarrow> error_code e | None \<Rightarrow> []),
      he_msg = (case err of Some e \<Rightarrow> sanitize_db_error (ee_text env e) | None \<Rightarrow> [])\<rparr>"

definition count_execution :: "bool \<Rightarrow> int \<Rightarrow> metrics \<Rightarrow> metrics" where
  "count_execution ok elapsed mt = mt \<lparr>mt_total := mt_total mt + 1, mt_elapsed_sum := mt_elapsed_sum mt + elapsed,
     mt_success := mt_success mt + (if ok then 1 else 0), mt_failure := mt_failure mt + (if ok then 0 else 1),
     mt_slow := mt_slow mt + (if elapsed \<ge> slow_query_ms then 1 else 0)\<rparr>"

definition audit ::
  "exec_env \<Rightarrow> string \<Rightarrow> string \<Rightarrow> exec_options \<Rightarrow> query_result option \<Rightarrow> int \<Rightarrow> exec_error option \<Rightarrow> manager \<Rightarrow> manager" where
  "audit env pid sql opts res elapsed err m =
     m \<lparr>mg_metrics := count_execution (err = None) elapsed (mg_metrics m),
        mg_history := keep_last history_limit (mg_history m @ [audit_entry env pid sql opts res elapsed err])\<rparr>"

text \<open>\<open>History\<close>: newest first.\<close>

definition history :: "manager \<Rightarrow> int \<Rightarrow> history_entry list" where
  "history m limit =
     (let n = (if limit \<le> 0 \<or> limit > int history_limit then 50 else nat limit) in take n (rev (mg_history m)))"

subsection \<open>Pools\<close>

definition db_for :: "exec_env \<Rightarrow> profile \<Rightarrow> manager \<Rightarrow> exec_error option \<times> manager" where
  "db_for env p m =
     (if mg_pools m (pr_id p) = Some (ee_sig env p) then (None, m)
      else
        let m1 = m \<lparr>mg_pools := (mg_pools m) (pr_id p := None)\<rparr> in
        case ee_secret env (pr_password_ref p) of
          Inl e \<Rightarrow> (Some (Ex_Secret e), m1)
        | Inr pw \<Rightarrow> (case dialect_for (pr_type p) of
            None \<Rightarrow> (Some Ex_Dialect, m1)
          | Some d \<Rightarrow> (case ee_open env d p pw of
              Some e \<Rightarrow> (Some (Ex_Db e), m1)
            | None \<Rightarrow> (None, m1 \<lparr>mg_pools := (mg_pools m1) (pr_id p := Some (ee_sig env p))\<rparr>))))"

definition send :: "string \<Rightarrow> string \<Rightarrow> manager \<Rightarrow> manager" where
  "send pid stmt m = m \<lparr>mg_sent := mg_sent m @ [(pid, stmt)]\<rparr>"

definition invalidate :: "string \<Rightarrow> manager \<Rightarrow> manager" where
  "invalidate pid m = m \<lparr>mg_pools := (mg_pools m) (pid := None), mg_brk := (mg_brk m) (pid := None)\<rparr>"

definition close_manager :: "manager \<Rightarrow> manager" where
  "close_manager m = m \<lparr>mg_pools := Map.empty\<rparr>"

subsection \<open>Result sets\<close>

fun approx_size :: "sql_value \<Rightarrow> int" where
  "approx_size V_Null = 4"
| "approx_size (V_Text s) = int (length s)"
| "approx_size (V_Other _) = 16"

definition row_bytes :: "string list \<Rightarrow> sql_value list \<Rightarrow> int" where
  "row_bytes names vs = sum_list (map (\<lambda>(c, v). int (length c) + approx_size v + 8) (zip names vs))"

text \<open>A row is a Go map: of two columns with one name the later one stays.\<close>

definition row_map :: "string list \<Rightarrow> sql_value list \<Rightarrow> string \<Rightarrow> sql_value option" where
  "row_map names vs = map_of (rev (zip names vs))"

record scan_state =
  sc_rows :: "(string \<Rightarrow> sql_value option) list"
  sc_truncated :: bool
  sc_capped :: bool

fun scan_go :: "string list \<Rightarrow> nat \<Rightarrow> int \<Rightarrow> int \<Rightarrow> scan_state \<Rightarrow> cursor_row list \<Rightarrow> db_err option \<Rightarrow> db_err + scan_state" where
  "scan_go names maxr maxb bytes st [] fin = (case fin of Some e \<Rightarrow> Inl e | None \<Rightarrow> Inr st)"
| "scan_go names maxr maxb bytes st (Scan_Error e # rs) fin = Inl e"
| "scan_go names maxr maxb bytes st (Row vs # rs) fin =
     (if length (sc_rows st) \<ge> maxr then Inr (st \<lparr>sc_truncated := True\<rparr>)
      else
        let st1 = st \<lparr>sc_rows := sc_rows st @ [row_map names vs]\<rparr>; b1 = bytes + row_bytes names vs in
        if maxb > 0 \<and> b1 > maxb then Inr (st1 \<lparr>sc_truncated := True, sc_capped := True\<rparr>)
        else scan_go names maxr maxb b1 st1 rs fin)"

definition scan_rows :: "cursor \<Rightarrow> nat \<Rightarrow> int \<Rightarrow> db_err + query_result" where
  "scan_rows cu maxr maxb =
     bind_err (cu_columns cu) (\<lambda>cols.
     bind_err (scan_go (map fst cols) maxr maxb 0 \<lparr>sc_rows = [], sc_truncated = False, sc_capped = False\<rparr> (cu_rows cu) (cu_end cu))
       (\<lambda>st. Inr \<lparr>qr_exec_id = [], qr_profile = [], qr_columns = cols, qr_rows = sc_rows st,
         qr_row_count = length (sc_rows st), qr_truncated = sc_truncated st, qr_bytes_capped = sc_capped st,
         qr_max_rows = 0, qr_elapsed = 0\<rparr>))"

subsection \<open>Explain\<close>

definition denied_for_profile :: "dialect \<Rightarrow> profile \<Rightarrow> string list" where
  "denied_for_profile d p = denied_extras d @ po_denied (pr_policy p)"

definition explain_stmt :: "dialect \<Rightarrow> string \<Rightarrow> string" where
  "explain_stmt d sql = (if d = Postgres then ''EXPLAIN (FORMAT JSON) '' else ''EXPLAIN FORMAT=JSON '') @ trim_sql sql"

definition analyze_raw :: "exec_env \<Rightarrow> raw_plan \<Rightarrow> exec_error + plan_result" where
  "analyze_raw env raw =
     (case raw of
        Raw_Pg ns \<Rightarrow> Inr (analyze_postgres_plan ns)
      | Raw_My j \<Rightarrow> Inr (analyze_mysql_plan (ee_float env) j)
      | Raw_Bad \<Rightarrow> Inl Ex_Bad_Plan)"

text \<open>The checks every operation starts with: profile, dialect, guard.\<close>

definition resolve :: "exec_env \<Rightarrow> string \<Rightarrow> exec_error + profile \<times> dialect" where
  "resolve env pid =
     (case ee_get env pid of
        Inl e \<Rightarrow> Inl (Ex_Profile e)
      | Inr p \<Rightarrow> (case dialect_for (pr_type p) of None \<Rightarrow> Inl Ex_Dialect | Some d \<Rightarrow> Inr (p, d)))"

definition explain_plan :: "exec_env \<Rightarrow> string \<Rightarrow> string \<Rightarrow> manager \<Rightarrow> (exec_error + plan_result) \<times> manager" where
  "explain_plan env pid sql m =
     (case resolve env pid of
        Inl e \<Rightarrow> (Inl e, m)
      | Inr (p, d) \<Rightarrow>
        (case ee_guard env d sql (denied_for_profile d p) of
           Some e \<Rightarrow> (Inl (Ex_Guard e), m)
         | None \<Rightarrow>
        (case breaker_check m (pr_id p) (ee_start env) of
           Some e \<Rightarrow> (Inl e, m)
         | None \<Rightarrow>
        (case db_for env p m of
           (Some e, m1) \<Rightarrow> (Inl e, breaker_record (pr_id p) False (ee_start env) m1)
         | (None, m1) \<Rightarrow>
             let stmt = explain_stmt d sql; m2 = send (pr_id p) stmt m1 in
             (case ee_explain env (pr_id p) stmt of
                Inl e \<Rightarrow> (Inl (Ex_Explain e), breaker_record (pr_id p) False (ee_start env) m2)
              | Inr raw \<Rightarrow>
                  (case analyze_raw env raw of
                     Inl e \<Rightarrow> (Inl e, m2)
                   | Inr plan \<Rightarrow> (Inr plan, breaker_record (pr_id p) True (ee_start env) m2)))))))"

subsection \<open>Execute\<close>

definition cost_guard :: "policy \<Rightarrow> bool" where
  "cost_guard pol \<longleftrightarrow> po_max_plan_cost pol > 0 \<or> po_max_plan_rows pol > 0"

definition gate_verdict :: "policy \<Rightarrow> exec_options \<Rightarrow> plan_result \<Rightarrow> exec_error option" where
  "gate_verdict pol opts plan =
     (case cost_ceiling_error plan pol of
        Some ce \<Rightarrow> Some (Ex_Cost ce)
      | None \<Rightarrow>
          if plan_gate_enabled pol \<and> \<not> eo_approve opts \<and> risk_rank (pn_risk plan) \<ge> risk_rank (po_plan_gate_risk pol)
          then Some (Ex_Gate (pn_risk plan) (po_plan_gate_risk pol)) else None)"

text \<open>A failed EXPLAIN does not block.\<close>

definition plan_gate :: "exec_env \<Rightarrow> profile \<Rightarrow> string \<Rightarrow> string \<Rightarrow> exec_options \<Rightarrow> manager \<Rightarrow> exec_error option \<times> manager" where
  "plan_gate env p pid sql opts m =
     (if (plan_gate_enabled (pr_policy p) \<or> cost_guard (pr_policy p)) \<and> \<not> eo_preview opts
      then (case explain_plan env pid sql m of
          (Inr plan, m1) \<Rightarrow> (gate_verdict (pr_policy p) opts plan, m1)
        | (Inl _, m1) \<Rightarrow> (None, m1))
      else (None, m))"

definition effective_max_rows :: "policy \<Rightarrow> exec_options \<Rightarrow> int" where
  "effective_max_rows pol opts =
     (let r = (if eo_preview opts \<or> eo_max_rows opts \<le> 0 then po_default_max_rows pol else eo_max_rows opts) in
      if r > po_max_rows pol then po_max_rows pol else r)"

definition effective_timeout :: "policy \<Rightarrow> exec_options \<Rightarrow> int" where
  "effective_timeout pol opts =
     (if eo_timeout opts > 0 \<and> eo_timeout opts < po_query_timeout pol then eo_timeout opts else po_query_timeout pol)"

definition register_exec :: "execution \<Rightarrow> manager \<Rightarrow> manager" where
  "register_exec e m = m \<lparr>mg_execs := (mg_execs m) (ex_id e := Some e)\<rparr>"

definition unregister_exec :: "string \<Rightarrow> manager \<Rightarrow> manager" where
  "unregister_exec eid m = m \<lparr>mg_execs := (mg_execs m) (eid := None)\<rparr>"

definition run_query ::
  "exec_env \<Rightarrow> profile \<Rightarrow> dialect \<Rightarrow> string \<Rightarrow> exec_options \<Rightarrow> manager \<Rightarrow> (exec_error + query_result) \<times> manager" where
  "run_query env p d sql opts m =
     (let maxr = nat (effective_max_rows (pr_policy p) opts); elapsed = ee_end env - ee_start env in
      case db_for env p m of
        (Some e, m1) \<Rightarrow> (Inl e, audit env (pr_id p) sql opts None 0 (Some e) (breaker_record (pr_id p) False (ee_start env) m1))
      | (None, m1) \<Rightarrow>
          let ex = \<lparr>ex_id = ee_exec_id env, ex_profile = pr_id p, ex_sql_hash = ee_hash env (trim_space sql), ex_user = eo_user opts\<rparr>;
              m2 = register_exec ex m1;
              stmt = wrap_limit d sql (maxr + 1);
              m3 = send (pr_id p) stmt m2;
              fail = (\<lambda>e. (Inl (wrap_exec_error (ee_ctx env) e), unregister_exec (ex_id ex)
                (audit env (pr_id p) sql opts None elapsed (Some (Ex_Db e)) (breaker_record (pr_id p) False (ee_end env) m3)))) in
          (case ee_query env (pr_id p) stmt (eo_binds opts) of
             Inl e \<Rightarrow> fail e
           | Inr cu \<Rightarrow>
               (case scan_rows cu maxr (po_max_bytes (pr_policy p)) of
                  Inl e \<Rightarrow> fail e
                | Inr r0 \<Rightarrow>
                    let r = r0 \<lparr>qr_exec_id := ex_id ex, qr_profile := pr_id p, qr_max_rows := maxr, qr_elapsed := elapsed\<rparr> in
                    (Inr r, unregister_exec (ex_id ex)
                       (audit env (pr_id p) sql opts (Some r) elapsed None (breaker_record (pr_id p) True (ee_end env) m3))))))"

definition execute :: "exec_env \<Rightarrow> string \<Rightarrow> string \<Rightarrow> exec_options \<Rightarrow> manager \<Rightarrow> (exec_error + query_result) \<times> manager" where
  "execute env pid sql opts m =
     (case resolve env pid of
        Inl e \<Rightarrow> (Inl e, m)
      | Inr (p, d) \<Rightarrow>
        (case ee_guard env d sql (denied_for_profile d p) of
           Some e \<Rightarrow> (Inl (Ex_Guard e), audit env (pr_id p) sql opts None 0 (Some (Ex_Guard e)) m)
         | None \<Rightarrow>
        (case breaker_check m (pr_id p) (ee_start env) of
           Some e \<Rightarrow> (Inl e, m)
         | None \<Rightarrow>
        (case plan_gate env p pid sql opts m of
           (Some e, m1) \<Rightarrow> (Inl e, audit env (pr_id p) sql opts None 0 (Some e) m1)
         | (None, m1) \<Rightarrow> run_query env p d sql opts m1))))"

subsection \<open>The other operations\<close>

definition count_rows :: "exec_env \<Rightarrow> string \<Rightarrow> string \<Rightarrow> manager \<Rightarrow> (exec_error + int) \<times> manager" where
  "count_rows env pid sql m =
     (case resolve env pid of
        Inl e \<Rightarrow> (Inl e, m)
      | Inr (p, d) \<Rightarrow>
        (case ee_guard env d sql (denied_for_profile d p) of
           Some e \<Rightarrow> (Inl (Ex_Guard e), m)
         | None \<Rightarrow>
        (case breaker_check m (pr_id p) (ee_start env) of
           Some e \<Rightarrow> (Inl e, m)
         | None \<Rightarrow>
        (case db_for env p m of
           (Some e, m1) \<Rightarrow> (Inl e, breaker_record (pr_id p) False (ee_start env) m1)
         | (None, m1) \<Rightarrow>
             let stmt = count_wrap sql; m2 = send (pr_id p) stmt m1 in
             (case ee_count env (pr_id p) stmt of
                Inl e \<Rightarrow> (Inl (wrap_exec_error (ee_ctx env) e), breaker_record (pr_id p) False (ee_end env) m2)
              | Inr n \<Rightarrow> (Inr n, breaker_record (pr_id p) True (ee_end env) m2))))))"

text \<open>\<open>Metadata\<close>; an error while reading the columns or the (empty) rows is not recorded by the breaker.\<close>

definition metadata :: "exec_env \<Rightarrow> string \<Rightarrow> string \<Rightarrow> manager \<Rightarrow> (exec_error + (string \<times> string) list) \<times> manager" where
  "metadata env pid sql m =
     (case resolve env pid of
        Inl e \<Rightarrow> (Inl e, m)
      | Inr (p, d) \<Rightarrow>
        (case ee_guard env d sql (denied_for_profile d p) of
           Some e \<Rightarrow> (Inl (Ex_Guard e), m)
         | None \<Rightarrow>
        (case breaker_check m (pr_id p) (ee_start env) of
           Some e \<Rightarrow> (Inl e, m)
         | None \<Rightarrow>
        (case db_for env p m of
           (Some e, m1) \<Rightarrow> (Inl e, breaker_record (pr_id p) False (ee_start env) m1)
         | (None, m1) \<Rightarrow>
             let stmt = wrap_limit d sql 0; m2 = send (pr_id p) stmt m1 in
             (case ee_query env (pr_id p) stmt [] of
                Inl e \<Rightarrow> (Inl (wrap_exec_error (ee_ctx env) e), breaker_record (pr_id p) False (ee_end env) m2)
              | Inr cu \<Rightarrow> (case cu_columns cu of
                    Inl e \<Rightarrow> (Inl (Ex_Db e), m2)
                  | Inr cols \<Rightarrow> (case cu_end cu of
                      Some e \<Rightarrow> (Inl (Ex_Db e), m2)
                    | None \<Rightarrow> (Inr cols, breaker_record (pr_id p) True (ee_end env) m2))))))))"

definition ping :: "exec_env \<Rightarrow> string \<Rightarrow> manager \<Rightarrow> exec_error option \<times> manager" where
  "ping env pid m =
     (case ee_get env pid of
        Inl e \<Rightarrow> (Some (Ex_Profile e), m)
      | Inr p \<Rightarrow>
        (case breaker_check m (pr_id p) (ee_start env) of
           Some e \<Rightarrow> (Some e, m)
         | None \<Rightarrow>
             (case db_for env p m of (e0, m1) \<Rightarrow>
               let e = (case e0 of Some e \<Rightarrow> Some e | None \<Rightarrow> map_option Ex_Db (ee_ping env (pr_id p)));
                   m2 = breaker_record (pr_id p) (e = None) (ee_end env) m1 in
               (e, if e = None then m2
                   else m2 \<lparr>mg_metrics := (mg_metrics m2) \<lparr>mt_ping_failure := mt_ping_failure (mg_metrics m2) + 1\<rparr>\<rparr>))))"

datatype cancel_error = Cancel_Not_Found string | Cancel_Not_Owner string

definition cancel_as :: "string \<Rightarrow> string \<Rightarrow> bool \<Rightarrow> manager \<Rightarrow> cancel_error option \<times> manager" where
  "cancel_as eid requester admin m =
     (case mg_execs m eid of
        None \<Rightarrow> (Some (Cancel_Not_Found eid), m)
      | Some e \<Rightarrow>
          if \<not> admin \<and> ex_user e \<noteq> requester then (Some (Cancel_Not_Owner eid), m)
          else (None, m \<lparr>mg_cancelled := mg_cancelled m @ [eid]\<rparr>))"

subsection \<open>Safety of execution\<close>

lemma breaker_record_simps [simp]:
  "mg_sent (breaker_record pid ok now m) = mg_sent m" "mg_history (breaker_record pid ok now m) = mg_history m"
  "mg_metrics (breaker_record pid ok now m) = mg_metrics m" "mg_execs (breaker_record pid ok now m) = mg_execs m"
  by (simp_all add: breaker_record_def)

lemma audit_simps [simp]:
  "mg_sent (audit env pid sql opts res el err m) = mg_sent m" "mg_brk (audit env pid sql opts res el err m) = mg_brk m"
  "mg_execs (audit env pid sql opts res el err m) = mg_execs m"
  by (simp_all add: audit_def)

lemma send_simps [simp]:
  "mg_sent (send pid stmt m) = mg_sent m @ [(pid, stmt)]" "mg_history (send pid stmt m) = mg_history m"
  "mg_metrics (send pid stmt m) = mg_metrics m" "mg_brk (send pid stmt m) = mg_brk m"
  by (simp_all add: send_def)

lemma exec_registry_simps [simp]:
  "mg_sent (register_exec e m) = mg_sent m" "mg_sent (unregister_exec i m) = mg_sent m"
  "mg_history (register_exec e m) = mg_history m" "mg_history (unregister_exec i m) = mg_history m"
  "mg_metrics (register_exec e m) = mg_metrics m" "mg_metrics (unregister_exec i m) = mg_metrics m"
  "mg_brk (register_exec e m) = mg_brk m" "mg_brk (unregister_exec i m) = mg_brk m"
  by (simp_all add: register_exec_def unregister_exec_def)

lemma db_for_frame:
  "db_for env p m = (e, m1) \<Longrightarrow> mg_sent m1 = mg_sent m \<and> mg_history m1 = mg_history m \<and> mg_metrics m1 = mg_metrics m
     \<and> mg_brk m1 = mg_brk m \<and> mg_execs m1 = mg_execs m"
  by (auto simp: db_for_def Let_def split: if_splits sum.splits option.splits)

lemma explain_plan_sent:
  "explain_plan env pid sql m = (r, m1) \<Longrightarrow>
     mg_sent m1 = mg_sent m \<or>
     (\<exists>p d. resolve env pid = Inr (p, d) \<and> mg_sent m1 = mg_sent m @ [(pr_id p, explain_stmt d sql)])"
  by (auto simp: explain_plan_def Let_def split: sum.splits option.splits prod.splits dest!: db_for_frame)

lemma run_query_sent:
  "run_query env p d sql opts m = (r, m1) \<Longrightarrow>
     mg_sent m1 = mg_sent m \<or>
     mg_sent m1 = mg_sent m @ [(pr_id p, wrap_limit d sql (nat (effective_max_rows (pr_policy p) opts) + 1))]"
  by (auto simp: run_query_def Let_def split: sum.splits option.splits prod.splits dest!: db_for_frame)

definition passes_guards :: "exec_env \<Rightarrow> string \<Rightarrow> string \<Rightarrow> manager \<Rightarrow> profile \<Rightarrow> dialect \<Rightarrow> bool" where
  "passes_guards env pid sql m p d \<longleftrightarrow>
     resolve env pid = Inr (p, d) \<and> ee_guard env d sql (denied_for_profile d p) = None \<and>
     breaker_check m (pr_id p) (ee_start env) = None"

lemma plan_gate_sent:
  assumes "plan_gate env p pid sql opts m = (r, m1)" and "resolve env pid = Inr (p, d)"
  shows "\<exists>sent. mg_sent m1 = mg_sent m @ sent \<and> set sent \<subseteq> {(pr_id p, explain_stmt d sql)}"
proof (cases "(plan_gate_enabled (pr_policy p) \<or> cost_guard (pr_policy p)) \<and> \<not> eo_preview opts")
  case True
  obtain q m2 where q: "explain_plan env pid sql m = (q, m2)" by fastforce
  then have "m1 = m2" using assms(1) True by (auto simp: plan_gate_def split: sum.splits)
  then show ?thesis using explain_plan_sent [OF q] assms(2) by force
next
  case False
  then have "m1 = m" using assms(1) unfolding plan_gate_def by (metis Pair_inject)
  then show ?thesis by force
qed

lemma execute_unfold:
  assumes "passes_guards env pid sql m p d"
  shows "execute env pid sql opts m =
    (case plan_gate env p pid sql opts m of
       (Some e, m1) \<Rightarrow> (Inl e, audit env (pr_id p) sql opts None 0 (Some e) m1)
     | (None, m1) \<Rightarrow> run_query env p d sql opts m1)"
  using assms by (simp add: execute_def passes_guards_def)

lemma execute_refused:
  assumes "\<not> (\<exists>p d. passes_guards env pid sql m p d)"
  shows "mg_sent (snd (execute env pid sql opts m)) = mg_sent m \<and> (\<exists>e. fst (execute env pid sql opts m) = Inl e)"
  using assms by (auto simp: execute_def passes_guards_def split: sum.split option.split)

definition query_stmt :: "profile \<Rightarrow> dialect \<Rightarrow> string \<Rightarrow> exec_options \<Rightarrow> string" where
  "query_stmt p d sql opts = wrap_limit d sql (nat (effective_max_rows (pr_policy p) opts) + 1)"

lemma execute_sent:
  "mg_sent (snd (execute env pid sql opts m)) = mg_sent m \<or>
   (\<exists>p d sent. passes_guards env pid sql m p d \<and>
      mg_sent (snd (execute env pid sql opts m)) = mg_sent m @ sent \<and>
      set sent \<subseteq> {(pr_id p, explain_stmt d sql), (pr_id p, query_stmt p d sql opts)})"
proof (cases "\<exists>p d. passes_guards env pid sql m p d")
  case False
  then show ?thesis using execute_refused by blast
next
  case True
  then obtain p d where pg: "passes_guards env pid sql m p d" by blast
  then have res: "resolve env pid = Inr (p, d)" by (simp add: passes_guards_def)
  obtain e m1 where gate: "plan_gate env p pid sql opts m = (e, m1)" by fastforce
  obtain s1 where s1: "mg_sent m1 = mg_sent m @ s1" "set s1 \<subseteq> {(pr_id p, explain_stmt d sql)}"
    using plan_gate_sent [OF gate res] by blast
  have "\<exists>s2. mg_sent (snd (execute env pid sql opts m)) = mg_sent m @ s1 @ s2 \<and> set s2 \<subseteq> {(pr_id p, query_stmt p d sql opts)}"
  proof (cases e)
    case None
    obtain r m2 where q: "run_query env p d sql opts m1 = (r, m2)" by fastforce
    then have "snd (execute env pid sql opts m) = m2"
      by (simp add: execute_unfold [OF pg] gate None)
    then show ?thesis
      using run_query_sent [OF q] s1 by (force simp: query_stmt_def)
  next
    case (Some e')
    then have "snd (execute env pid sql opts m) = audit env (pr_id p) sql opts None 0 (Some e') m1"
      by (simp add: execute_unfold [OF pg] gate)
    then show ?thesis using s1 by force
  qed
  then obtain s2 where s2: "mg_sent (snd (execute env pid sql opts m)) = mg_sent m @ s1 @ s2"
    "set s2 \<subseteq> {(pr_id p, query_stmt p d sql opts)}" by blast
  have "set (s1 @ s2) \<subseteq> {(pr_id p, explain_stmt d sql), (pr_id p, query_stmt p d sql opts)}"
    using s1 s2 by auto
  with pg s2 show ?thesis by blast
qed

text \<open>
  C4. Nothing reaches a database unguarded: a call of \<open>Execute\<close> either sends no statement at all,
  or the profile resolves, the read-only guard accepts the text under the dialect's and the
  profile's deny lists and the circuit breaker is closed, and then at most the EXPLAIN of the
  text and the text wrapped with its row limit are sent, to the pool of that profile.
\<close>

theorem execute_sends_only_guarded:
  "mg_sent (snd (execute env pid sql opts m)) = mg_sent m \<or>
   (\<exists>p d sent. passes_guards env pid sql m p d \<and>
      mg_sent (snd (execute env pid sql opts m)) = mg_sent m @ sent \<and>
      set sent \<subseteq> {(pr_id p, explain_stmt d sql), (pr_id p, query_stmt p d sql opts)})"
  by (rule execute_sent)


text \<open>The file store: \<open>FileProfileStore.GetProfileByID\<close> over the decoded list.\<close>

definition file_get :: "profile list \<Rightarrow> string \<Rightarrow> string + profile" where
  "file_get raw pid = (case get_profile raw pid of Inl _ \<Rightarrow> Inl (''db profile not found: '' @ pid) | Inr p \<Rightarrow> Inr p)"

subsection \<open>A concrete environment\<close>

text \<open>One stored profile with a cost ceiling of 10; its plan costs \<open>cost\<close>; queries return three rows.\<close>

definition capped_profile :: profile where
  "capped_profile = demo_profile \<lparr>pr_policy := (pr_policy demo_profile) \<lparr>po_max_plan_cost := 10, po_max_rows := 2\<rparr>\<rparr>"

definition demo_env :: "int \<Rightarrow> exec_env" where
  "demo_env cost = \<lparr>ee_get = file_get [capped_profile], ee_guard = (\<lambda>d sql ks. map_option Keyword_Guard (validate_read_only_sql sql [])),
     ee_sig = (\<lambda>p. []), ee_secret = resolve_password (\<lambda>_. ''pw'') (\<lambda>_. None), ee_open = (\<lambda>d p pw. None),
     ee_explain = (\<lambda>pid stmt. Inr (Raw_Pg [Pg_Node ((demo_node ''Seq Scan'' 5) \<lparr>pf_cost := cost\<rparr>) []])),
     ee_query = (\<lambda>pid stmt binds. Inr \<lparr>cu_columns = Inr [(''a'', ''int4'')],
        cu_rows = [Row [V_Text ''1''], Row [V_Text ''2''], Row [V_Text ''3'']], cu_end = None\<rparr>),
     ee_count = (\<lambda>pid stmt. Inr 3), ee_ping = (\<lambda>pid. None), ee_ctx = Ctx_Live, ee_start = 0, ee_end = 7, ee_exec_id = ''exec-1'',
     ee_hash = (\<lambda>s. s), ee_text = (\<lambda>e. []), ee_float = (\<lambda>s. None)\<rparr>"

definition demo_options :: exec_options where
  "demo_options = \<lparr>eo_max_rows = 0, eo_timeout = 0, eo_preview = False, eo_binds = [], eo_user = ''u'', eo_trace = [], eo_approve = True\<rparr>"

lemma demo_guard: "validate_read_only_sql ''SELECT a'' [] = None"
  by code_simp

lemma demo_type: "dialect_for (pr_type (with_defaults capped_profile)) = Some Postgres"
  by code_simp

lemma demo_secret: "parse_password_ref ''env:PW'' = Inr ''env''" "ref_value ''env:PW'' = ''PW''"
  by code_simp+

lemma demo_profile_fields:
  "pr_id (with_defaults capped_profile) = ''dw''" "pr_password_ref (with_defaults capped_profile) = ''env:PW''"
  "po_max_plan_cost (pr_policy (with_defaults capped_profile)) = 10" "po_max_plan_rows (pr_policy (with_defaults capped_profile)) = 0"
  "po_max_rows (pr_policy (with_defaults capped_profile)) = 2" "po_default_max_rows (pr_policy (with_defaults capped_profile)) = 100"
  "po_max_bytes (pr_policy (with_defaults capped_profile)) = 10485760"
  by code_simp+

lemma demo_resolve: "resolve (demo_env c) ''dw'' = Inr (with_defaults capped_profile, Postgres)"
  by (simp add: resolve_def demo_env_def file_get_def get_profile_find demo_type) (simp add: capped_profile_def demo_profile_def)

lemma demo_passes: "passes_guards (demo_env c) ''dw'' ''SELECT a'' new_manager (with_defaults capped_profile) Postgres"
  by (simp add: passes_guards_def demo_resolve breaker_check_def new_manager_def) (simp add: demo_env_def demo_guard)

lemma demo_db: "db_for (demo_env c) (with_defaults capped_profile) new_manager =
    (None, new_manager \<lparr>mg_pools := [''dw'' \<mapsto> []]\<rparr>)"
proof -
  have "pr_id capped_profile = ''dw''" by (simp add: capped_profile_def demo_profile_def)
  then show ?thesis
    by (simp add: db_for_def demo_env_def new_manager_def demo_profile_fields resolve_password_def demo_secret demo_type Let_def)
qed

lemma demo_explain:
  "\<exists>m1. explain_plan (demo_env c) ''dw'' ''SELECT a'' new_manager =
     (Inr (analyze_postgres_plan [Pg_Node ((demo_node ''Seq Scan'' 5) \<lparr>pf_cost := c\<rparr>) []]), m1)"
proof -
  have g: "ee_guard (demo_env c) Postgres ''SELECT a'' ks = None" "breaker_check new_manager pid t = None" for ks pid t
    by (simp_all add: demo_env_def demo_guard breaker_check_def new_manager_def)
  have "ee_explain (demo_env c) pid stmt = Inr (Raw_Pg [Pg_Node ((demo_node ''Seq Scan'' 5) \<lparr>pf_cost := c\<rparr>) []])" for pid stmt
    by (simp add: demo_env_def)
  then show ?thesis
    by (simp add: explain_plan_def demo_resolve g demo_db Let_def analyze_raw_def)
qed


subsection \<open>Row cap\<close>

lemma scan_go_spec:
  assumes "scan_go names maxr maxb bytes st rs fin = Inr st'" and "length (sc_rows st) \<le> maxr"
  shows "length (sc_rows st') \<le> maxr \<and> prefix (sc_rows st) (sc_rows st')"
  using assms
proof (induction names maxr maxb bytes st rs fin rule: scan_go.induct)
  case (3 names maxr maxb bytes st vs rs fin)
  show ?case
  proof (cases "length (sc_rows st) \<ge> maxr")
    case True
    with 3 show ?thesis by auto
  next
    case room: False
    show ?thesis
    proof (cases "maxb > 0 \<and> bytes + row_bytes names vs > maxb")
      case True
      with room 3(2) show ?thesis by (auto simp: Let_def)
    next
      case False
      let ?st = "st \<lparr>sc_rows := sc_rows st @ [row_map names vs]\<rparr>"
      have "scan_go names maxr maxb (bytes + row_bytes names vs) ?st rs fin = Inr st'"
        using 3(2) room False by (simp add: Let_def)
      moreover have "length (sc_rows ?st) \<le> maxr" using room by simp
      ultimately have "length (sc_rows st') \<le> maxr \<and> prefix (sc_rows ?st) (sc_rows st')"
        using 3(1) [OF room refl refl False] by blast
      then show ?thesis by (auto dest: append_prefixD)
    qed
  qed
qed (auto split: option.splits)

lemma scan_rows_cap:
  "scan_rows cu maxr maxb = Inr r \<Longrightarrow> qr_row_count r \<le> maxr \<and> length (qr_rows r) = qr_row_count r"
  by (auto simp: scan_rows_def err_simps dest!: scan_go_spec)

lemma run_query_cap:
  assumes "run_query env p d sql opts m = (Inr r, m')"
  shows "qr_row_count r \<le> nat (effective_max_rows (pr_policy p) opts) \<and> length (qr_rows r) = qr_row_count r"
  using assms scan_rows_cap
  by (fastforce simp: run_query_def Let_def split: sum.splits option.splits prod.splits)

text \<open>The contract of a profile store (\<open>ProfileStore\<close>): profiles come with their defaults, under their id.\<close>

locale profile_source =
  fixes get :: "string \<Rightarrow> string + profile"
  assumes get_canonical: "get pid = Inr p \<Longrightarrow> profile_canonical p"
    and get_id: "get pid = Inr p \<Longrightarrow> pr_id p = pid"
begin

lemma execute_capped:
  assumes "ee_get env = get" and "execute env pid sql opts m = (Inr r, m')"
  shows "\<exists>p. get pid = Inr p \<and> length (qr_rows r) = qr_row_count r \<and> int (qr_row_count r) \<le> po_max_rows (pr_policy p) \<and>
    (if eo_preview opts then int (qr_row_count r) \<le> po_default_max_rows (pr_policy p)
     else if 0 < eo_max_rows opts then int (qr_row_count r) \<le> eo_max_rows opts else True)"
proof -
  obtain p d where pg: "passes_guards env pid sql m p d"
    using execute_refused [of env pid sql m opts] assms(2) by (metis Inl_Inr_False fst_conv)
  then have p: "get pid = Inr p"
    using assms(1) by (auto simp: passes_guards_def resolve_def split: sum.splits option.splits)
  obtain m1 where "run_query env p d sql opts m1 = (Inr r, m')"
    using assms(2) unfolding execute_unfold [OF pg] by (auto split: prod.splits option.splits)
  from run_query_cap [OF this] have cap: "qr_row_count r \<le> nat (effective_max_rows (pr_policy p) opts)"
    "length (qr_rows r) = qr_row_count r" by simp_all
  have "0 < po_max_rows (pr_policy p)" "0 < po_default_max_rows (pr_policy p)"
    using get_canonical [OF p] by (simp_all add: profile_canonical_def)
  then have "0 < effective_max_rows (pr_policy p) opts"
    by (simp add: effective_max_rows_def Let_def)
  with cap have "int (qr_row_count r) \<le> effective_max_rows (pr_policy p) opts" by linarith
  with p cap show ?thesis
    by (auto simp: effective_max_rows_def Let_def split: if_splits)
qed

end

interpretation file_source: profile_source "file_get raw" for raw
proof
  fix pid p
  assume "file_get raw pid = Inr p"
  then obtain q where q: "find (\<lambda>q. pr_id q = pid) raw = Some q" "p = with_defaults q"
    by (auto simp: file_get_def get_profile_find split: sum.splits option.splits)
  then show "profile_canonical p" by (simp add: with_defaults_canonical_aux)
  show "pr_id p = pid" using q by (auto simp: find_Some_iff)
qed

text \<open>
  C7. Row cap: a successful execution never returns more rows than the profile's maximum, nor more
  than the caller asked for, and a preview never more than the default page, whatever the
  database delivers.
\<close>

theorem execute_row_cap:
  assumes "ee_get env = file_get raw" and "execute env pid sql opts m = (Inr r, m')"
  shows "\<exists>p. file_get raw pid = Inr p \<and> length (qr_rows r) = qr_row_count r \<and> int (qr_row_count r) \<le> po_max_rows (pr_policy p) \<and>
    (if eo_preview opts then int (qr_row_count r) \<le> po_default_max_rows (pr_policy p)
     else if 0 < eo_max_rows opts then int (qr_row_count r) \<le> eo_max_rows opts else True)"
  using assms by (rule file_source.execute_capped)

theorem execute_row_cap_witness:
  "case execute (demo_env 3) ''dw'' ''SELECT a'' (demo_options \<lparr>eo_preview := True\<rparr>) new_manager of
     (Inr r, _) \<Rightarrow> int (qr_row_count r) \<le> 2 | _ \<Rightarrow> False"
proof -
  let ?o = "demo_options \<lparr>eo_preview := True\<rparr>"
  have gate: "plan_gate (demo_env 3) (with_defaults capped_profile) ''dw'' ''SELECT a'' ?o new_manager = (None, new_manager)"
    by (simp add: plan_gate_def)
  have q: "ee_query (demo_env 3) pid stmt binds = Inr \<lparr>cu_columns = Inr [(''a'', ''int4'')],
      cu_rows = [Row [V_Text ''1''], Row [V_Text ''2''], Row [V_Text ''3'']], cu_end = None\<rparr>" for pid stmt binds
    by (simp add: demo_env_def)
  have eff: "effective_max_rows (pr_policy (with_defaults capped_profile)) ?o = 2"
    by (simp add: effective_max_rows_def demo_profile_fields)
  obtain r m' where ex: "execute (demo_env 3) ''dw'' ''SELECT a'' ?o new_manager = (Inr r, m')"
    by (simp add: execute_unfold [OF demo_passes] gate run_query_def demo_db q eff Let_def scan_rows_def row_bytes_def demo_profile_fields
        eval_nat_numeral)
  have get: "ee_get (demo_env 3) = file_get [capped_profile]" by (simp add: demo_env_def)
  have "file_get [capped_profile] ''dw'' = Inr (with_defaults capped_profile)"
    using demo_resolve [of 3] by (auto simp: resolve_def get split: sum.splits option.splits)
  then show ?thesis
    using execute_row_cap [OF get ex] by (auto simp: ex demo_profile_fields)
qed

subsection \<open>Breaker, counters, history, cancellation\<close>

definition trailing_failures :: "(bool \<times> int) list \<Rightarrow> nat" where
  "trailing_failures evs = length (takeWhile (\<lambda>(ok, t). \<not> ok) (rev evs))"

definition breaker_run :: "(bool \<times> int) list \<Rightarrow> breaker" where
  "breaker_run evs = foldl (\<lambda>b (ok, t). breaker_after b ok t) fresh_breaker evs"

text \<open>
  What the breaker remembers: after any sequence of outcomes, the counter is the number of
  failures since the last success, and the breaker is open until 30 seconds after the last
  outcome if that number has reached three, and not open otherwise.
\<close>

theorem breaker_counts_consecutive_failures:
  "breaker_run evs = \<lparr>bk_failures = trailing_failures evs,
     bk_open_until = (if trailing_failures evs \<ge> 3 then Some (snd (last evs) + 30000) else None)\<rparr>"
proof (induction evs rule: rev_induct)
  case Nil
  then show ?case by (simp add: breaker_run_def trailing_failures_def fresh_breaker_def)
next
  case (snoc ev evs)
  obtain ok t where ev: "ev = (ok, t)" by (cases ev)
  have step: "breaker_run (evs @ [ev]) = breaker_after (breaker_run evs) ok t"
    by (simp add: breaker_run_def ev)
  have trail: "trailing_failures (evs @ [ev]) = (if ok then 0 else Suc (trailing_failures evs))"
    by (simp add: trailing_failures_def ev)
  show ?case
    unfolding step trail snoc.IH
    by (auto simp: breaker_after_def breaker_threshold_def breaker_cooldown_def Let_def ev)
qed

definition manager_ok :: "manager \<Rightarrow> bool" where
  "manager_ok m \<longleftrightarrow> length (mg_history m) \<le> history_limit \<and>
     mt_total (mg_metrics m) = mt_success (mg_metrics m) + mt_failure (mg_metrics m)"

inductive manager_step :: "manager \<Rightarrow> manager \<Rightarrow> bool" where
  Execute: "manager_step m (snd (execute env pid sql opts m))"
| Explain: "manager_step m (snd (explain_plan env pid sql m))"
| Count: "manager_step m (snd (count_rows env pid sql m))"
| Metadata: "manager_step m (snd (metadata env pid sql m))"
| Ping: "manager_step m (snd (ping env pid m))"
| Cancel: "manager_step m (snd (cancel_as eid requester admin m))"
| Invalidate: "manager_step m (invalidate pid m)"
| Close: "manager_step m (close_manager m)"

inductive manager_reachable :: "manager \<Rightarrow> bool" where
  New: "manager_reachable new_manager"
| Step: "manager_reachable m \<Longrightarrow> manager_step m m' \<Longrightarrow> manager_reachable m'"

inductive_cases manager_stepE: "manager_step m m'"

lemma manager_ok_audit [inv_intros]:
  "manager_ok m \<Longrightarrow> manager_ok (audit env pid sql opts res el err m)"
  by (cases err) (auto simp: manager_ok_def audit_def count_execution_def keep_last_def history_limit_def)

lemma manager_ok_frame [inv_intros]:
  "manager_ok (breaker_record pid ok now m) = manager_ok m" "manager_ok (send pid stmt m) = manager_ok m"
  "manager_ok (register_exec e m) = manager_ok m" "manager_ok (unregister_exec i m) = manager_ok m"
  by (simp_all add: manager_ok_def)

lemma manager_ok_db_for: "db_for env p m = (e, m1) \<Longrightarrow> manager_ok m1 = manager_ok m"
  using db_for_frame by (metis manager_ok_def)

lemma manager_ok_explain: "manager_ok m \<Longrightarrow> manager_ok (snd (explain_plan env pid sql m))"
  by (auto simp: explain_plan_def Let_def manager_ok_frame dest: manager_ok_db_for split: sum.splits option.splits prod.splits)

lemma manager_ok_run_query: "manager_ok m \<Longrightarrow> manager_ok (snd (run_query env p d sql opts m))"
  by (auto simp: run_query_def Let_def manager_ok_frame manager_ok_audit dest: manager_ok_db_for
      split: sum.splits option.splits prod.splits)

lemma manager_ok_plan_gate: "manager_ok m \<Longrightarrow> plan_gate env p pid sql opts m = (e, m1) \<Longrightarrow> manager_ok m1"
  using manager_ok_explain [of m env pid sql]
  by (auto simp: plan_gate_def split: if_splits prod.splits sum.splits)

lemma manager_ok_execute: "manager_ok m \<Longrightarrow> manager_ok (snd (execute env pid sql opts m))"
  by (auto simp: execute_def manager_ok_audit manager_ok_run_query dest: manager_ok_plan_gate
      split: sum.split option.split prod.split)

lemma manager_ok_count: "manager_ok m \<Longrightarrow> manager_ok (snd (count_rows env pid sql m))"
  by (auto simp: count_rows_def Let_def manager_ok_frame dest: manager_ok_db_for split: sum.splits option.splits prod.splits)

lemma manager_ok_metadata: "manager_ok m \<Longrightarrow> manager_ok (snd (metadata env pid sql m))"
  by (auto simp: metadata_def Let_def manager_ok_frame dest: manager_ok_db_for split: sum.splits option.splits prod.splits)

lemma manager_ok_ping: "manager_ok m \<Longrightarrow> manager_ok (snd (ping env pid m))"
  by (auto simp: ping_def Let_def manager_ok_def dest!: db_for_frame split: sum.splits option.splits prod.splits)

lemma manager_ok_others:
  "manager_ok m \<Longrightarrow> manager_ok (snd (cancel_as eid requester admin m))"
  "manager_ok m \<Longrightarrow> manager_ok (invalidate pid m)" "manager_ok m \<Longrightarrow> manager_ok (close_manager m)"
  by (auto simp: cancel_as_def invalidate_def close_manager_def manager_ok_def split: option.split)

lemmas manager_ok_steps = manager_ok_execute manager_ok_explain manager_ok_count manager_ok_metadata manager_ok_ping
  manager_ok_others

text \<open>
  Bookkeeping under any sequence of operations: the history never holds more than 200 entries,
  and every audited execution is counted exactly once, as a success or as a failure.
\<close>

theorem manager_bookkeeping:
  "manager_reachable m \<Longrightarrow> length (mg_history m) \<le> 200 \<and>
     mt_total (mg_metrics m) = mt_success (mg_metrics m) + mt_failure (mg_metrics m)"
proof -
  assume "manager_reachable m"
  then have "manager_ok m"
  proof (induction rule: manager_reachable.induct)
    case New
    then show ?case by (simp add: manager_ok_def new_manager_def history_limit_def)
  next
    case (Step m m')
    from Step.hyps(2) Step.IH show ?case
      by (elim manager_stepE) (simp_all only: manager_ok_steps)
  qed
  then show ?thesis by (simp add: manager_ok_def history_limit_def)
qed

theorem manager_bookkeeping_witness:
  "mt_total (mg_metrics (snd (execute (demo_env 50) ''dw'' ''SELECT a'' demo_options new_manager))) =
     mt_success (mg_metrics (snd (execute (demo_env 50) ''dw'' ''SELECT a'' demo_options new_manager)))
     + mt_failure (mg_metrics (snd (execute (demo_env 50) ''dw'' ''SELECT a'' demo_options new_manager)))"
  using manager_bookkeeping [OF manager_reachable.Step [OF manager_reachable.New manager_step.Execute]] by blast

lemma history_newest_first:
  "history (audit env pid sql opts res el err m) 1 = [audit_entry env pid sql opts res el err]"
  by (simp add: history_def audit_def keep_last_def history_limit_def)

text \<open>
  Cancellation respects ownership: a running execution is cancelled exactly when the requester
  is an administrator or the user who started it; otherwise the call fails and nothing changes.
\<close>

theorem cancel_respects_owner:
  "(case mg_execs m eid of
      None \<Rightarrow> cancel_as eid requester admin m = (Some (Cancel_Not_Found eid), m)
    | Some e \<Rightarrow>
        if admin \<or> ex_user e = requester
        then cancel_as eid requester admin m = (None, m \<lparr>mg_cancelled := mg_cancelled m @ [eid]\<rparr>)
        else cancel_as eid requester admin m = (Some (Cancel_Not_Owner eid), m))"
  by (auto simp: cancel_as_def split: option.split)

text \<open>
  A successful EXPLAIN closes the breaker, so under the plan gate a profile whose queries keep
  failing never gets past one failure.
\<close>

lemma explain_success_resets_breaker:
  assumes "explain_plan env pid sql m = (Inr plan, m1)" and "resolve env pid = Inr (p, d)"
  shows "breaker_of m1 (pr_id p) = fresh_breaker"
  using assms
  by (auto simp: explain_plan_def Let_def breaker_record_def breaker_of_def breaker_after_def fresh_breaker_def
      split: sum.splits option.splits prod.splits)

lemma gated_failure_counts_once:
  assumes "explain_plan env pid sql m = (Inr plan, m1)" and "resolve env pid = Inr (p, d)"
    and "db_for env p m1 = (None, m2)" and "ee_query env (pr_id p) (query_stmt p d sql opts) (eo_binds opts) = Inl e"
  shows "bk_failures (breaker_of (snd (run_query env p d sql opts m1)) (pr_id p)) = 1"
proof -
  have "breaker_of m2 (pr_id p) = fresh_breaker"
    using explain_success_resets_breaker [OF assms(1,2)] db_for_frame [OF assms(3)] by (simp add: breaker_of_def)
  then show ?thesis
    using assms(3,4)
    by (simp add: run_query_def Let_def query_stmt_def breaker_record_def breaker_of_def breaker_after_def fresh_breaker_def)
qed

end
