(* ===== verification/Join_Graph.thy ===== *)
theory Join_Graph
  imports Prelude
begin

text \<open>
  The join graph of the catalog (\<open>internal/catalog/join.go\<close>, with \<open>ResolveTable\<close>, \<open>IsForbiddenJoin\<close>
  and the construction of \<open>Adjacency\<close>): the breadth-first search \<open>findJoinPath\<close>, the rendering of a
  path as join conditions, and \<open>GetJoinPaths\<close>. The confidence of a path, a floating-point number,
  and the guidance that only depends on it are left out. Identifiers are valid UTF-8, on which
  \<open>cleanIdent\<close> changes ASCII letters only.

  The queue's loop counts down a fuel. The lemmas show that the number of relations bounds it, that
  the search finds a path exactly when there is one of the permitted length, and a shortest one.
\<close>

subsection \<open>Identifiers\<close>

definition zero_width_runes :: "string list" where
  "zero_width_runes = [[CHR 0xE2, CHR 0x80, CHR 0x8B], [CHR 0xE2, CHR 0x80, CHR 0x8C],
     [CHR 0xE2, CHR 0x80, CHR 0x8D], [CHR 0xEF, CHR 0xBB, CHR 0xBF]]"

function drop_runes :: "string list \<Rightarrow> string \<Rightarrow> string" where
  "drop_runes ws [] = []"
| "drop_runes ws (c # cs) =
     (case find (\<lambda>w. w \<noteq> [] \<and> prefix w (c # cs)) ws of
        Some w \<Rightarrow> drop_runes ws (drop (length w) (c # cs))
      | None \<Rightarrow> c # drop_runes ws cs)"
  by pat_completeness auto
termination
proof (relation "measure (\<lambda>(ws, s). length s)", goal_cases)
  case (3 ws c cs w)
  then have "w \<noteq> []" by (auto simp: find_Some_iff)
  then show ?case by (cases w) auto
qed simp_all

definition ident_brackets :: "char list" where
  "ident_brackets = [dquote, backtick, CHR ''['', CHR '']'']"

definition clean_ident :: "string \<Rightarrow> string" where
  "clean_ident s =
     (let t = dropWhile (\<lambda>c. c \<in> set ident_brackets) (drop_runes (zero_width_runes @ space_runes) s) in
      to_upper (rev (dropWhile (\<lambda>c. c \<in> set ident_brackets) (rev t))))"

definition table_key :: "string \<Rightarrow> string \<Rightarrow> string" where
  "table_key schema name = clean_ident schema @ ''.'' @ clean_ident name"

definition split_columns :: "string \<Rightarrow> string list" where
  "split_columns s = filter (\<lambda>c. c \<noteq> []) (map clean_ident (split_on (CHR '','') s))"

subsection \<open>Relations and edges\<close>

record relation =
  rl_base_schema :: string
  rl_base_table :: string
  rl_base_column :: string
  rl_ref_schema :: string
  rl_ref_table :: string
  rl_ref_column :: string
  rl_join_type :: string
  rl_preferred :: bool

record join_edge =
  je_from :: string
  je_to :: string
  je_relation :: relation
  je_reversed :: bool

type_synonym graph = "string \<Rightarrow> join_edge list"

text \<open>Both directions are appended; a relation of a table with itself gives two edges at one key.\<close>

definition add_relation :: "graph \<Rightarrow> relation \<Rightarrow> graph" where
  "add_relation g r =
     (let a = table_key (rl_base_schema r) (rl_base_table r);
          b = table_key (rl_ref_schema r) (rl_ref_table r);
          g1 = g (a := g a @ [\<lparr>je_from = a, je_to = b, je_relation = r, je_reversed = False\<rparr>]) in
      g1 (b := g1 b @ [\<lparr>je_from = b, je_to = a, je_relation = r, je_reversed = True\<rparr>]))"

definition adjacency :: "relation list \<Rightarrow> graph" where
  "adjacency rs = foldl add_relation (\<lambda>_. []) rs"

subsection \<open>Search\<close>

text \<open>
  The edges of one table: either the target is found, or the unseen tables are marked and queued
  with their paths.
\<close>

fun scan_edges :: "string \<Rightarrow> join_edge list \<Rightarrow> join_edge list \<Rightarrow> string list \<Rightarrow> (string \<times> join_edge list) list
    \<Rightarrow> join_edge list + string list \<times> (string \<times> join_edge list) list" where
  "scan_edges to path [] seen q = Inr (seen, q)"
| "scan_edges to path (e # es) seen q =
     (if je_to e \<in> set seen then scan_edges to path es seen q
      else if je_to e = to then Inl (path @ [e])
      else scan_edges to path es (je_to e # seen) (q @ [(je_to e, path @ [e])]))"

fun find_loop :: "nat \<Rightarrow> graph \<Rightarrow> string \<Rightarrow> nat \<Rightarrow> (string \<times> join_edge list) list \<Rightarrow> string list
    \<Rightarrow> join_edge list option option" where
  "find_loop n g to max_depth [] seen = Some None"
| "find_loop 0 g to max_depth (x # q) seen = None"
| "find_loop (Suc n) g to max_depth ((t, path) # q) seen =
     (if max_depth \<le> length path then find_loop n g to max_depth q seen
      else (case scan_edges to path (g t) seen q of
          Inl found \<Rightarrow> Some (Some found)
        | Inr (seen', q') \<Rightarrow> find_loop n g to max_depth q' seen'))"

datatype join_outcome = Joined "join_edge list" | No_Path | Out_Of_Fuel

definition find_join_path :: "relation list \<Rightarrow> string \<Rightarrow> string \<Rightarrow> nat \<Rightarrow> join_outcome" where
  "find_join_path rs from_t to_t max_depth =
     (if from_t = to_t then Joined []
      else (case find_loop (Suc (2 * length rs)) (adjacency rs) to_t max_depth [(from_t, [])] [from_t] of
          Some (Some path) \<Rightarrow> Joined path
        | Some None \<Rightarrow> No_Path
        | None \<Rightarrow> Out_Of_Fuel))"

subsection \<open>Conditions\<close>

definition edge_columns :: "join_edge \<Rightarrow> string list \<times> string list" where
  "edge_columns e =
     (if je_reversed e
      then (split_columns (rl_ref_column (je_relation e)), split_columns (rl_base_column (je_relation e)))
      else (split_columns (rl_base_column (je_relation e)), split_columns (rl_ref_column (je_relation e))))"

definition edge_condition :: "join_edge \<Rightarrow> string \<Rightarrow> string \<Rightarrow> string" where
  "edge_condition e from_alias to_alias =
     (let fa = (if from_alias = [] then je_from e else from_alias);
          ta = (if to_alias = [] then je_to e else to_alias) in
      case edge_columns e of (ls, rs) \<Rightarrow>
        if min (length ls) (length rs) = 0 then fa @ '' = '' @ ta
        else join_with '' AND '' (map (\<lambda>(l, r). fa @ ''.'' @ l @ '' = '' @ ta @ ''.'' @ r) (zip ls rs)))"

definition non_empty :: "string \<Rightarrow> string \<Rightarrow> string" where
  "non_empty v fallback = (if trim_space v = [] then fallback else v)"

record path_edge =
  pe_from :: string
  pe_to :: string
  pe_from_column :: string
  pe_to_column :: string
  pe_join_type :: string
  pe_condition :: string
  pe_preferred :: bool

definition render_edge :: "join_edge \<Rightarrow> path_edge" where
  "render_edge e =
     (let r = je_relation e;
          cols = (if je_reversed e then (rl_ref_column r, rl_base_column r) else (rl_base_column r, rl_ref_column r)) in
      \<lparr>pe_from = je_from e, pe_to = je_to e, pe_from_column = fst cols, pe_to_column = snd cols,
       pe_join_type = non_empty (rl_join_type r) ''INNER'', pe_condition = edge_condition e [] [],
       pe_preferred = rl_preferred r\<rparr>)"

definition render_join_path :: "join_edge list \<Rightarrow> path_edge list" where
  "render_join_path path = map render_edge path"

subsection \<open>Tables and requests\<close>

record table =
  tb_schema :: string
  tb_name :: string
  tb_fqn :: string

record forbidden_join =
  fj_from :: string
  fj_to :: string
  fj_reason :: string

record catalog =
  ct_tables :: "table list"
  ct_schema_order :: "string list"
  ct_forbidden :: "forbidden_join list"
  ct_relations :: "relation list"

text \<open>A table of a preferred schema, in the order of preference.\<close>

fun by_schema :: "string list \<Rightarrow> table list \<Rightarrow> table option" where
  "by_schema [] ts = None"
| "by_schema (s # ss) ts = (case find (\<lambda>t. tb_schema t = s) ts of Some t \<Rightarrow> Some t | None \<Rightarrow> by_schema ss ts)"

definition resolve_table :: "catalog \<Rightarrow> string \<Rightarrow> table option" where
  "resolve_table c name =
     (let n = clean_ident (replace_char (CHR ''/'') ''.'' name) in
      if n = [] then None
      else
        let qualified = (if contains_sub n ''.'' then find (\<lambda>t. tb_fqn t = n) (ct_tables c) else None);
            named = filter (\<lambda>t. tb_name t = n) (ct_tables c) in
        case qualified of
          Some t \<Rightarrow> Some t
        | None \<Rightarrow>
            (case named of
               [] \<Rightarrow> None
             | [t] \<Rightarrow> Some t
             | _ \<Rightarrow> by_schema (ct_schema_order c) named))"

definition forbids :: "catalog \<Rightarrow> table \<Rightarrow> table \<Rightarrow> forbidden_join \<Rightarrow> bool" where
  "forbids c ta tb fj =
     (case (resolve_table c (fj_from fj), resolve_table c (fj_to fj)) of
        (Some f, Some t) \<Rightarrow> tb_fqn f = tb_fqn ta \<and> tb_fqn t = tb_fqn tb \<or> tb_fqn f = tb_fqn tb \<and> tb_fqn t = tb_fqn ta
      | _ \<Rightarrow> False)"

definition is_forbidden_join :: "catalog \<Rightarrow> string \<Rightarrow> string \<Rightarrow> forbidden_join option" where
  "is_forbidden_join c a b =
     (case (resolve_table c a, resolve_table c b) of
        (Some ta, Some tb) \<Rightarrow> find (forbids c ta tb) (ct_forbidden c)
      | _ \<Rightarrow> None)"

record join_request =
  jr_from :: string
  jr_to :: "string list"
  jr_tables :: "string list"
  jr_max_depth :: int

text \<open>All pairs \<open>i < j\<close>.\<close>

fun all_pairs :: "string list \<Rightarrow> (string \<times> string) list" where
  "all_pairs [] = []"
| "all_pairs (x # xs) = map (\<lambda>y. (x, y)) xs @ all_pairs xs"

datatype pair_result =
    From_Not_Found string string
  | To_Not_Found string string
  | Forbidden string string string
  | Searched string string join_outcome

definition join_pair :: "catalog \<Rightarrow> nat \<Rightarrow> string \<times> string \<Rightarrow> pair_result" where
  "join_pair c max_depth pr =
     (case resolve_table c (fst pr) of
        None \<Rightarrow> From_Not_Found (fst pr) (snd pr)
      | Some ft \<Rightarrow>
          (case resolve_table c (snd pr) of
             None \<Rightarrow> To_Not_Found (tb_fqn ft) (snd pr)
           | Some tt \<Rightarrow>
               (case is_forbidden_join c (tb_fqn ft) (tb_fqn tt) of
                  Some fj \<Rightarrow> Forbidden (tb_fqn ft) (tb_fqn tt) (fj_reason fj)
                | None \<Rightarrow> Searched (tb_fqn ft) (tb_fqn tt)
                    (find_join_path (ct_relations c) (tb_fqn ft) (tb_fqn tt) max_depth))))"

text \<open>\<open>None\<close> when the request names neither two tables nor a source with targets.\<close>

definition get_join_paths :: "catalog \<Rightarrow> join_request \<Rightarrow> pair_result list option" where
  "get_join_paths c req =
     (let max_depth = (if jr_max_depth req \<le> 0 then 3 else nat (jr_max_depth req)) in
      if length (jr_tables req) > 1 then Some (map (join_pair c max_depth) (all_pairs (jr_tables req)))
      else if jr_from req \<noteq> [] \<and> jr_to req \<noteq> []
      then Some (map (\<lambda>t. join_pair c max_depth (jr_from req, t)) (jr_to req))
      else None)"

subsection \<open>Walks\<close>

fun walk :: "graph \<Rightarrow> string \<Rightarrow> join_edge list \<Rightarrow> string \<Rightarrow> bool" where
  "walk g a [] b \<longleftrightarrow> a = b"
| "walk g a (e # es) b \<longleftrightarrow> e \<in> set (g a) \<and> walk g (je_to e) es b"

text \<open>The tables within \<open>n\<close> joins, and the walks of at most \<open>n\<close> joins.\<close>

definition level :: "graph \<Rightarrow> string \<Rightarrow> nat \<Rightarrow> string set" where
  "level g a n = {b. \<exists>p. walk g a p b \<and> length p \<le> n}"

definition walks_upto :: "graph \<Rightarrow> string \<Rightarrow> string \<Rightarrow> nat \<Rightarrow> join_edge list set" where
  "walks_upto g a b n = {p. walk g a p b \<and> length p \<le> n}"

lemma walk_append: "walk g a (p @ q) b \<longleftrightarrow> (\<exists>c. walk g a p c \<and> walk g c q b)"
  by (induction p arbitrary: a) auto

lemma walk_snoc: "walk g a p c \<Longrightarrow> e \<in> set (g c) \<Longrightarrow> walk g a (p @ [e]) (je_to e)"
  by (auto simp: walk_append)

lemma level_mono: "m \<le> n \<Longrightarrow> level g a m \<subseteq> level g a n"
  unfolding level_def by auto

lemma level_Suc_cases:
  assumes "b \<in> level g a (Suc n)"
  obtains "b \<in> level g a n" | c e where "c \<in> level g a n" "e \<in> set (g c)" "je_to e = b"
proof -
  obtain p where p: "walk g a p b" "length p \<le> Suc n" using assms by (auto simp: level_def)
  show thesis
  proof (cases p rule: rev_cases)
    case Nil
    then have "b \<in> level g a n" using p by (auto simp: level_def intro: exI [of _ "[]"])
    then show thesis by (rule that(1))
  next
    case (snoc q e)
    then obtain c where "walk g a q c" "e \<in> set (g c)" "je_to e = b" using p by (auto simp: walk_append)
    then show thesis using that(2) snoc p by (auto simp: level_def)
  qed
qed

text \<open>A set that is closed under joins contains what is reachable.\<close>

lemma closed_walk:
  "\<lbrakk>\<And>t e. t \<in> S \<Longrightarrow> e \<in> set (g t) \<Longrightarrow> je_to e \<in> S; a \<in> S; walk g a p b\<rbrakk> \<Longrightarrow> b \<in> S"
  by (induction p arbitrary: a) auto

subsection \<open>The search is breadth-first\<close>

lemma scan_edges_found:
  "scan_edges b path es seen q = Inl found \<Longrightarrow> b \<notin> set seen \<Longrightarrow>
     \<exists>e \<in> set es. je_to e = b \<and> found = path @ [e]"
  by (induction b path es seen q rule: scan_edges.induct) (auto split: if_splits)

text \<open>What the scan appends: one entry for each table that was not seen before.\<close>

lemma scan_edges_queued:
  assumes "scan_edges b path es seen q = Inr (seen', q')" and "b \<notin> set seen"
  shows "b \<notin> set seen' \<and> set seen' = set seen \<union> je_to ` set es \<and>
    (\<exists>new. q' = q @ new \<and> seen' = rev (map fst new) @ seen \<and> distinct (map fst new) \<and> set (map fst new) \<inter> set seen = {} \<and>
       (\<forall>(t, p) \<in> set new. \<exists>e \<in> set es. t = je_to e \<and> p = path @ [e]))"
  using assms
proof (induction b path es seen q arbitrary: seen' q' rule: scan_edges.induct)
  case (2 b path e es seen q)
  show ?case
  proof (cases "je_to e \<in> set seen")
    case True
    then have "scan_edges b path es seen q = Inr (seen', q')" using 2(3) by simp
    from 2(1) [OF True this 2(4)] obtain new where *: "b \<notin> set seen'" "set seen' = set seen \<union> je_to ` set es"
      "q' = q @ new" "seen' = rev (map fst new) @ seen" "distinct (map fst new)" "set (map fst new) \<inter> set seen = {}"
      "\<forall>(t, p) \<in> set new. \<exists>e \<in> set es. t = je_to e \<and> p = path @ [e]" by blast
    show ?thesis using * True by (intro conjI exI [of _ new]) auto
  next
    case False
    then have ne: "je_to e \<noteq> b" using 2(3) by auto
    let ?s = "je_to e # seen" and ?q = "q @ [(je_to e, path @ [e])]"
    have eq: "scan_edges b path es ?s ?q = Inr (seen', q')" using 2(3) False ne by simp
    obtain new where *: "b \<notin> set seen'" "set seen' = set ?s \<union> je_to ` set es" "q' = ?q @ new"
      "seen' = rev (map fst new) @ ?s" "distinct (map fst new)" "set (map fst new) \<inter> set ?s = {}"
      "\<forall>(t, p) \<in> set new. \<exists>e \<in> set es. t = je_to e \<and> p = path @ [e]"
      using 2(2) [OF False ne eq] 2(4) ne by auto
    show ?thesis
      using * by (intro conjI exI [of _ "(je_to e, path @ [e]) # new"]) (auto simp: False)
  qed
qed auto

definition bfs_inv :: "graph \<Rightarrow> string \<Rightarrow> string \<Rightarrow> nat \<Rightarrow> (string \<times> join_edge list) list \<Rightarrow> string set \<Rightarrow> bool" where
  "bfs_inv g a b d q S \<longleftrightarrow>
     a \<in> S \<and> b \<notin> S \<and>
     (\<forall>(t, p) \<in> set q. walk g a p t \<and> length p \<le> d \<and> t \<in> S \<and> (\<forall>n < length p. t \<notin> level g a n)) \<and>
     sorted (map (length \<circ> snd) q) \<and>
     (\<forall>x \<in> set q. length (snd x) \<le> Suc (length (snd (hd q)))) \<and>
     (\<forall>t \<in> S. t \<in> fst ` set q \<or> je_to ` set (g t) \<subseteq> S) \<and>
     (q \<noteq> [] \<longrightarrow> level g a (length (snd (hd q))) \<subseteq> S)"

lemma bfs_inv_init: "a \<noteq> b \<Longrightarrow> bfs_inv g a b d [(a, [])] {a}"
  by (auto simp: bfs_inv_def level_def)

text \<open>When the queue is empty, the seen tables are closed.\<close>

lemma bfs_inv_empty: "bfs_inv g a b d [] S \<Longrightarrow> \<not> walk g a p b"
  using closed_walk [of S g a p b] by (fastforce simp: bfs_inv_def)

lemma bfs_inv_level_step:
  assumes inv: "bfs_inv g a b d ((t, p) # q) S" and S': "S \<subseteq> S'" "je_to ` set (g t) \<subseteq> S'"
    and later: "\<forall>x \<in> set q. Suc (length p) \<le> length (snd x)"
  shows "level g a (Suc (length p)) \<subseteq> S'"
proof
  fix x assume "x \<in> level g a (Suc (length p))"
  then show "x \<in> S'"
  proof (cases rule: level_Suc_cases)
    case 1
    then show ?thesis using inv S' by (auto simp: bfs_inv_def)
  next
    case (2 c e)
    have "c \<in> S" using 2(1) inv by (auto simp: bfs_inv_def)
    moreover have "c \<notin> fst ` set q"
    proof
      assume "c \<in> fst ` set q"
      then obtain p' where "(c, p') \<in> set q" by auto
      moreover from this later have "length p < length p'" by fastforce
      ultimately show False using inv 2(1) by (fastforce simp: bfs_inv_def)
    qed
    moreover have "c \<in> fst ` set ((t, p) # q) \<or> je_to ` set (g c) \<subseteq> S"
      using \<open>c \<in> S\<close> inv unfolding bfs_inv_def by blast
    ultimately have "c = t \<or> je_to ` set (g c) \<subseteq> S" by auto
    then show ?thesis using 2(2,3) S' by blast
  qed
qed

lemma bfs_inv_step:
  assumes inv: "bfs_inv g a b d ((t, p) # q) (set seen)" and short: "length p < d"
    and scan: "scan_edges b p (g t) seen q = Inr (seen', q')"
  shows "bfs_inv g a b d q' (set seen')"
proof -
  have b: "b \<notin> set seen" and walk_t: "walk g a p t" and lev: "level g a (length p) \<subseteq> set seen"
    using inv by (auto simp: bfs_inv_def)
  obtain new where b': "b \<notin> set seen'" and S': "set seen' = set seen \<union> je_to ` set (g t)" and q': "q' = q @ new"
    and fresh: "set (map fst new) \<inter> set seen = {}" and seen': "seen' = rev (map fst new) @ seen"
    and new: "\<forall>(u, r) \<in> set new. \<exists>e \<in> set (g t). u = je_to e \<and> r = p @ [e]"
    using scan_edges_queued [OF scan b] by blast
  have entries: "\<forall>(u, r) \<in> set q'. walk g a r u \<and> length r \<le> d \<and> u \<in> set seen' \<and> (\<forall>n < length r. u \<notin> level g a n)"
  proof -
    have "walk g a r u \<and> length r \<le> d \<and> u \<in> set seen' \<and> (\<forall>n < length r. u \<notin> level g a n)" if "(u, r) \<in> set new" for u r
    proof -
      obtain e where e: "e \<in> set (g t)" "u = je_to e" "r = p @ [e]" using new \<open>(u, r) \<in> set new\<close> by auto
      have "u \<notin> set seen" using fresh that by force
      then have "u \<notin> level g a n" if "n < length r" for n
        using that lev level_mono [of n "length p" g a] e(3) by auto
      then show ?thesis using e walk_snoc [OF walk_t e(1)] short S' by auto
    qed
    moreover have "walk g a r u \<and> length r \<le> d \<and> u \<in> set seen' \<and> (\<forall>n < length r. u \<notin> level g a n)" if "(u, r) \<in> set q" for u r
      using inv that S' by (fastforce simp: bfs_inv_def)
    ultimately show ?thesis unfolding q' by auto
  qed
  have len_new: "\<forall>x \<in> set new. length (snd x) = Suc (length p)" using new by fastforce
  have len_q: "\<forall>x \<in> set q. length p \<le> length (snd x) \<and> length (snd x) \<le> Suc (length p)"
    using inv by (auto simp: bfs_inv_def)
  have srt: "sorted (map (length \<circ> snd) q')"
  proof -
    have "sorted (map (length \<circ> snd) q)" using inv by (simp add: bfs_inv_def)
    moreover have "sorted (map (length \<circ> snd) new)"
      using len_new map_cong [of new new "length \<circ> snd" "\<lambda>_. Suc (length p)"]
      by (simp add: map_replicate_const)
    ultimately show ?thesis using len_q len_new unfolding q' by (auto simp: sorted_append)
  qed
  have heads: "length p \<le> length (snd (hd q')) \<and> length (snd (hd q')) \<le> Suc (length p)" if "q' \<noteq> []"
    using hd_in_set [OF that] len_q len_new unfolding q' by auto
  have width: "\<forall>x \<in> set q'. length (snd x) \<le> Suc (length (snd (hd q')))"
  proof
    fix x assume x: "x \<in> set q'"
    then have "length (snd x) \<le> Suc (length p)" using len_q len_new unfolding q' by auto
    then show "length (snd x) \<le> Suc (length (snd (hd q')))" using heads x by fastforce
  qed
  have closed: "\<forall>u \<in> set seen'. u \<in> fst ` set q' \<or> je_to ` set (g u) \<subseteq> set seen'"
  proof
    fix u assume "u \<in> set seen'"
    then consider "u \<in> set seen" | "u \<in> fst ` set new" unfolding seen' by auto
    then show "u \<in> fst ` set q' \<or> je_to ` set (g u) \<subseteq> set seen'"
    proof cases
      case 1
      then have "u = t \<or> u \<in> fst ` set q \<or> je_to ` set (g u) \<subseteq> set seen" using inv by (auto simp: bfs_inv_def)
      then show ?thesis using S' unfolding q' by auto
    qed (auto simp: q')
  qed
  have levels: "level g a (length (snd (hd q'))) \<subseteq> set seen'" if "q' \<noteq> []"
  proof (cases "length (snd (hd q')) = length p")
    case True
    then show ?thesis using lev S' by auto
  next
    case False
    then have hd': "length (snd (hd q')) = Suc (length p)" using heads [OF that] by auto
    have "Suc (length p) \<le> length (snd x)" if x: "x \<in> set q" for x
    proof -
      have "length (snd (hd q')) \<le> length (snd x)" using srt x unfolding q' by (cases q) (auto simp: sorted_append)
      then show ?thesis using hd' by simp
    qed
    then show ?thesis using bfs_inv_level_step [OF inv, of "set seen'"] S' hd' by auto
  qed
  show ?thesis
    unfolding bfs_inv_def
    using inv S' b' entries srt width closed levels by (simp add: bfs_inv_def)
qed

text \<open>Entries at the depth limit are skipped, and no shorter ones follow them.\<close>

lemma find_loop_skip:
  "\<forall>x \<in> set q. d \<le> length (snd x) \<Longrightarrow> find_loop n g b d q seen = Some r \<Longrightarrow> r = None"
  by (induction n g b d q seen rule: find_loop.induct) auto

lemma find_loop_correct:
  assumes "find_loop n g b d q seen = Some r" and "bfs_inv g a b d q (set seen)"
  shows "case r of Some p \<Rightarrow> p \<in> walks_upto g a b d \<and> (\<forall>p'. walk g a p' b \<longrightarrow> length p \<le> length p')
    | None \<Rightarrow> walks_upto g a b d = {}"
  using assms
proof (induction n g b d q seen rule: find_loop.induct)
  case (1 n g b d seen)
  then show ?case using bfs_inv_empty by (auto simp: walks_upto_def)
next
  case (3 n g b d t path q seen)
  have inv: "bfs_inv g a b d ((t, path) # q) (set seen)" by fact
  show ?case
  proof (cases "d \<le> length path")
    case True
    have "level g a d \<subseteq> set seen" "b \<notin> set seen"
      using inv True level_mono [of d "length path" g a] by (auto simp: bfs_inv_def)
    then have "walks_upto g a b d = {}" by (auto simp: level_def walks_upto_def)
    moreover have "\<forall>x \<in> set ((t, path) # q). d \<le> length (snd x)"
      using inv True by (auto simp: bfs_inv_def)
    then have "r = None" using find_loop_skip "3.prems"(1) by blast
    ultimately show ?thesis by simp
  next
    case False
    show ?thesis
    proof (cases "scan_edges b path (g t) seen q")
      case (Inl found)
      have b: "b \<notin> set seen" and w: "walk g a path t" and lev: "level g a (length path) \<subseteq> set seen"
        using inv by (auto simp: bfs_inv_def)
      obtain e where e: "e \<in> set (g t)" "je_to e = b" "found = path @ [e]" using scan_edges_found [OF Inl b] by auto
      have r: "r = Some found" using "3.prems"(1) False Inl by simp
      have "length found \<le> length p'" if "walk g a p' b" for p'
      proof (rule ccontr)
        assume "\<not> length found \<le> length p'"
        then have "b \<in> level g a (length path)" using that e(3) by (auto simp: level_def)
        then show False using lev b by auto
      qed
      then show ?thesis using r e walk_snoc [OF w e(1)] False by (auto simp: walks_upto_def)
    next
      case (Inr sq)
      obtain seen' q' where sq: "sq = (seen', q')" by fastforce
      have inv': "bfs_inv g a b d q' (set seen')" using bfs_inv_step [OF inv _ Inr [unfolded sq]] False by simp
      show ?thesis
        using "3.IH"(2) [OF False Inr sq [symmetric] _ inv'] "3.prems"(1) False Inr sq by simp
    qed
  qed
qed simp

subsection \<open>The fuel is enough\<close>

lemma find_loop_fuel:
  assumes "finite T" and "\<And>t e. e \<in> set (g t) \<Longrightarrow> je_to e \<in> T" and "b \<notin> set seen"
    and "length q + card (T - set seen) \<le> n"
  shows "find_loop n g b d q seen \<noteq> None"
  using assms(2-4)
proof (induction n g b d q seen rule: find_loop.induct)
  case (3 n g b d t path q seen)
  show ?case
  proof (cases "d \<le> length path")
    case True
    then show ?thesis using 3 by simp
  next
    case False
    show ?thesis
    proof (cases "scan_edges b path (g t) seen q")
      case (Inr sq)
      obtain seen' q' where sq: "sq = (seen', q')" by fastforce
      obtain new where b': "b \<notin> set seen'" and S': "set seen' = set seen \<union> je_to ` set (g t)" and q': "q' = q @ new"
        and seen': "seen' = rev (map fst new) @ seen"
        and fresh: "set (map fst new) \<inter> set seen = {}" "distinct (map fst new)"
        and new: "\<forall>(u, r) \<in> set new. \<exists>e \<in> set (g t). u = je_to e \<and> r = path @ [e]"
        using scan_edges_queued [OF Inr [unfolded sq] 3(4)] by blast
      have "set (map fst new) \<subseteq> T - set seen" using fresh(1) new 3(3) by fastforce
      moreover have "T - set seen' = (T - set seen) - set (map fst new)" unfolding seen' by auto
      ultimately have "card (T - set seen') + length new = card (T - set seen)"
        using card_Diff_subset [of "set (map fst new)" "T - set seen"] distinct_card [OF fresh(2)]
          card_mono [of "T - set seen" "set (map fst new)"] assms(1) by simp
      then have "length q' + card (T - set seen') \<le> n" using 3(5) by (simp add: q')
      then show ?thesis using 3(2) [OF False Inr sq [symmetric] 3(3) b'] False Inr sq by simp
    qed (simp add: False)
  qed
qed simp_all

definition relation_tables :: "relation list \<Rightarrow> string list" where
  "relation_tables rs = concat (map (\<lambda>r. [table_key (rl_base_schema r) (rl_base_table r),
     table_key (rl_ref_schema r) (rl_ref_table r)]) rs)"

lemma length_relation_tables [simp]: "length (relation_tables rs) = 2 * length rs"
  by (induction rs) (simp_all add: relation_tables_def)

lemma adjacency_snoc: "adjacency (rs @ [r]) = add_relation (adjacency rs) r"
  by (simp add: adjacency_def)

lemma adjacency_edges: "e \<in> set (adjacency rs t) \<Longrightarrow> je_to e \<in> set (relation_tables rs)"
proof (induction rs arbitrary: e t rule: rev_induct)
  case (snoc r rs)
  then show ?case
    by (auto simp: adjacency_snoc add_relation_def Let_def relation_tables_def split: if_splits)
qed (simp add: adjacency_def)

lemma adjacency_symmetric: "e \<in> set (adjacency rs t) \<Longrightarrow> \<exists>e' \<in> set (adjacency rs (je_to e)). je_to e' = t"
proof (induction rs arbitrary: e t rule: rev_induct)
  case (snoc r rs)
  have keep: "set (adjacency rs x) \<subseteq> set (adjacency (rs @ [r]) x)" for x
    by (auto simp: adjacency_snoc add_relation_def Let_def)
  let ?a = "table_key (rl_base_schema r) (rl_base_table r)" and ?b = "table_key (rl_ref_schema r) (rl_ref_table r)"
  have fwd: "\<lparr>je_from = ?a, je_to = ?b, je_relation = r, je_reversed = False\<rparr> \<in> set (adjacency (rs @ [r]) ?a)"
    and bwd: "\<lparr>je_from = ?b, je_to = ?a, je_relation = r, je_reversed = True\<rparr> \<in> set (adjacency (rs @ [r]) ?b)"
    by (auto simp: adjacency_snoc add_relation_def Let_def)
  have "e \<in> set (adjacency rs t) \<or> t = ?a \<and> je_to e = ?b \<or> t = ?b \<and> je_to e = ?a"
    using snoc.prems by (auto simp: adjacency_snoc add_relation_def Let_def split: if_splits)
  then show ?case
  proof (elim disjE conjE)
    assume "e \<in> set (adjacency rs t)"
    then show ?thesis using snoc.IH keep by blast
  next
    assume "t = ?a" "je_to e = ?b" then show ?thesis using bwd by force
  next
    assume "t = ?b" "je_to e = ?a" then show ?thesis using fwd by force
  qed
qed (simp add: adjacency_def)

lemma walk_reverse:
  "walk (adjacency rs) a p b \<Longrightarrow> \<exists>p'. walk (adjacency rs) b p' a \<and> length p' = length p"
proof (induction p arbitrary: a)
  case Nil
  then show ?case by (intro exI [of _ "[]"]) simp
next
  case (Cons e p)
  then obtain p' where p': "walk (adjacency rs) b p' (je_to e)" "length p' = length p" by auto
  obtain e' where "e' \<in> set (adjacency rs (je_to e))" "je_to e' = a" using adjacency_symmetric Cons.prems by fastforce
  then have "walk (adjacency rs) b (p' @ [e']) a" using walk_snoc [OF p'(1)] by blast
  then show ?case using p'(2) by (intro exI [of _ "p' @ [e']"]) simp
qed

subsection \<open>Properties\<close>

text \<open>
  C39. The search always comes to an end: however the queue and the seen tables look, a loop that
  is given one step for every queued table and one for every table of the graph it has not seen
  yet returns an answer; in particular the search of the catalog's graph never runs out.
\<close>

theorem join_search_terminates:
  assumes "\<And>t. je_to ` set (g t) \<subseteq> set tables" and "b \<notin> set seen"
  shows "find_loop (length q + card (set tables - set seen)) g b d q seen \<noteq> None
    \<and> find_join_path rs from_t to_t n \<noteq> Out_Of_Fuel"
proof -
  have "find_loop (length q + card (set tables - set seen)) g b d q seen \<noteq> None"
    using assms by (intro find_loop_fuel [of "set tables"]) auto
  moreover have "find_join_path rs from_t to_t n \<noteq> Out_Of_Fuel"
  proof (cases "from_t = to_t")
    case False
    have "card (set (relation_tables rs) - set [from_t]) \<le> 2 * length rs"
      using card_length [of "relation_tables rs"] card_mono [of "set (relation_tables rs)" "set (relation_tables rs) - set [from_t]"]
      by fastforce
    then have "find_loop (Suc (2 * length rs)) (adjacency rs) to_t n [(from_t, [])] [from_t] \<noteq> None"
      using False by (intro find_loop_fuel [of "set (relation_tables rs)"]) (auto intro: adjacency_edges)
    then show ?thesis by (auto simp: find_join_path_def split: option.split)
  qed (simp add: find_join_path_def)
  ultimately show ?thesis by blast
qed

definition demo_relation :: "string \<Rightarrow> string \<Rightarrow> relation" where
  "demo_relation a b = \<lparr>rl_base_schema = ''S'', rl_base_table = a, rl_base_column = ''K'', rl_ref_schema = ''S'',
     rl_ref_table = b, rl_ref_column = ''ID'', rl_join_type = [], rl_preferred = False\<rparr>"

theorem join_search_terminates_witness:
  "find_loop 1 (\<lambda>_. []) ''B'' 3 [(''A'', [])] [''A''] \<noteq> None
   \<and> find_join_path [demo_relation ''A'' ''B''] ''S.A'' ''S.B'' 3 \<noteq> Out_Of_Fuel"
  using join_search_terminates [of "\<lambda>_. []" "[]" "''B''" "[''A'']" "[(''A'', [])]" 3] by simp

text \<open>
  C18. \<open>findJoinPath\<close> agrees with the definition of a shortest path: it answers with a path exactly
  when some walk over the catalog's relations joins the two tables in at most \<open>max_depth\<close> joins,
  and then with such a walk that no other walk undercuts.
\<close>

theorem join_path_is_shortest:
  "case find_join_path rs a b d of
     Joined p \<Rightarrow> p \<in> walks_upto (adjacency rs) a b d \<and> {p'. walk (adjacency rs) a p' b \<and> length p' < length p} = {}
   | No_Path \<Rightarrow> walks_upto (adjacency rs) a b d = {}
   | Out_Of_Fuel \<Rightarrow> False"
proof (cases "a = b")
  case True
  then show ?thesis by (simp add: find_join_path_def walks_upto_def)
next
  case False
  let ?r = "find_loop (Suc (2 * length rs)) (adjacency rs) b d [(a, [])] [a]"
  have "card (set (relation_tables rs) - set [a]) \<le> 2 * length rs"
    using card_length [of "relation_tables rs"] card_mono [of "set (relation_tables rs)" "set (relation_tables rs) - set [a]"]
    by fastforce
  then have "?r \<noteq> None"
    using False by (intro find_loop_fuel [of "set (relation_tables rs)"]) (auto intro: adjacency_edges)
  then obtain r where r: "?r = Some r" by blast
  have "bfs_inv (adjacency rs) a b d [(a, [])] (set [a])" using bfs_inv_init [OF False] by simp
  from find_loop_correct [OF r this] show ?thesis
    using False r by (cases r) (auto simp: find_join_path_def simp flip: not_le)
qed

text \<open>The answer does not depend on which of the two tables is named first.\<close>

lemma join_symmetric:
  "walks_upto (adjacency rs) a b n = {} \<longleftrightarrow> walks_upto (adjacency rs) b a n = {}"
  unfolding walks_upto_def using walk_reverse by fastforce

text \<open>
  A forbidden join is only checked between the two tables asked for: the path from \<open>A\<close> to \<open>B\<close>
  leads over the pair \<open>A\<close>, \<open>M\<close> that the operator forbids.
\<close>

definition demo_catalog :: catalog where
  "demo_catalog = \<lparr>ct_tables = map (\<lambda>n. \<lparr>tb_schema = ''S'', tb_name = n, tb_fqn = ''S.'' @ n\<rparr>) [''A'', ''M'', ''B''],
     ct_schema_order = [], ct_forbidden = [\<lparr>fj_from = ''A'', fj_to = ''M'', fj_reason = ''pii''\<rparr>],
     ct_relations = [demo_relation ''A'' ''M'', demo_relation ''M'' ''B'']\<rparr>"

lemma path_over_forbidden_join:
  "map je_to (case join_pair demo_catalog 3 (''A'', ''B'') of Searched a b (Joined p) \<Rightarrow> p | _ \<Rightarrow> []) = [''S.M'', ''S.B'']"
  "is_forbidden_join demo_catalog ''A'' ''M'' \<noteq> None"
  by code_simp+

end
