(* ===== verification/Schema_Diff.thy ===== *)
theory Schema_Diff
  imports Prelude "HOL-Library.Multiset" "HOL-Library.Char_ord" "HOL-Library.List_Lexorder" "HOL-Library.Product_Lexorder"
begin

text \<open>
  Change detection between two metadata snapshots (\<open>internal/metasync/diff.go\<close>, with the structural
  hash of \<open>collector.go\<close>). Go iterates over maps in an unspecified order, which differs from run to
  run: the orders of all the loops are an argument of the model, and the lemmas show that the
  change set does not depend on them. Strings compare bytewise, as \<open>sort.Strings\<close> does; the hash
  of a signature (\<open>json.Marshal\<close> and SHA-256) is a parameter.
\<close>

subsection \<open>Assets\<close>

record column_asset =
  ca_name :: string
  ca_ordinal :: int
  ca_data_type :: string
  ca_full_type :: string
  ca_nullable :: bool
  ca_default :: string
  ca_generated :: string
  ca_comment :: string
  ca_pk :: bool
  ca_fk :: bool

record constraint_asset =
  co_name :: string
  co_type :: string
  co_columns :: "string list"
  co_ref_schema :: string
  co_ref_table :: string
  co_ref_columns :: "string list"
  co_definition :: string

record index_asset =
  ix_name :: string
  ix_columns :: "string list"
  ix_unique :: bool
  ix_primary :: bool

record table_asset =
  ta_schema :: string
  ta_name :: string
  ta_kind :: string
  ta_comment :: string
  ta_view_sql :: string
  ta_columns :: "column_asset list"
  ta_constraints :: "constraint_asset list"
  ta_indexes :: "index_asset list"
  ta_hash :: string

definition fqn :: "table_asset \<Rightarrow> string" where
  "fqn t = ta_schema t @ ''.'' @ ta_name t"

subsection \<open>The structural hash\<close>

text \<open>\<open>strings.Fields\<close>; \<open>cur\<close> is the field read so far, reversed.\<close>

function fields_go :: "string \<Rightarrow> string \<Rightarrow> string list" where
  "fields_go cur [] = (if cur = [] then [] else [rev cur])"
| "fields_go cur (c # cs) =
     (case find (\<lambda>w. w \<noteq> [] \<and> prefix w (c # cs)) space_runes of
        Some w \<Rightarrow> (if cur = [] then [] else [rev cur]) @ fields_go [] (drop (length w) (c # cs))
      | None \<Rightarrow> fields_go (c # cur) cs)"
  by pat_completeness auto
termination
  by (relation "measure (\<lambda>(cur, s). length s)") (auto simp: find_Some_iff neq_Nil_conv)

definition normalize_sql :: "string \<Rightarrow> string" where
  "normalize_sql s = join_with '' '' (fields_go [] (to_lower s))"

record column_sig =
  cs_name :: string
  cs_type :: string
  cs_nullable :: bool
  cs_pk :: bool
  cs_fk :: bool
  cs_ordinal :: int
  cs_default :: string
  cs_generated :: string

record table_sig =
  sg_schema :: string
  sg_name :: string
  sg_kind :: string
  sg_view :: string
  sg_columns :: "column_sig list"
  sg_constraints :: "constraint_asset list"
  sg_indexes :: "index_asset list"

definition column_sig_of :: "column_asset \<Rightarrow> column_sig" where
  "column_sig_of c = \<lparr>cs_name = ca_name c, cs_type = to_lower (ca_full_type c), cs_nullable = ca_nullable c,
     cs_pk = ca_pk c, cs_fk = ca_fk c, cs_ordinal = ca_ordinal c, cs_default = ca_default c,
     cs_generated = ca_generated c\<rparr>"

text \<open>Names of constraints and of indexes are unique in a table, so that their sorted order is fixed.\<close>

definition table_sig_of :: "table_asset \<Rightarrow> table_sig" where
  "table_sig_of t = \<lparr>sg_schema = ta_schema t, sg_name = ta_name t, sg_kind = ta_kind t,
     sg_view = normalize_sql (ta_view_sql t), sg_columns = map column_sig_of (ta_columns t),
     sg_constraints = sort_by (\<lambda>a b. co_name a < co_name b) (ta_constraints t),
     sg_indexes = sort_by (\<lambda>a b. ix_name a < ix_name b) (ta_indexes t)\<rparr>"

definition struct_hash :: "(table_sig \<Rightarrow> string) \<Rightarrow> table_asset \<Rightarrow> string" where
  "struct_hash sha t = sha (table_sig_of t)"

subsection \<open>Changes\<close>

datatype change_kind = Table_Added | Table_Removed | Column_Added | Column_Removed | Type_Changed
  | Null_Changed | Key_Changed | Comment_Changed | Index_Changed | View_Sql_Changed

datatype severity = Sev_Low | Sev_Medium | Sev_High | Sev_Breaking

record change =
  ch_kind :: change_kind
  ch_severity :: severity
  ch_table :: string
  ch_column :: string
  ch_before :: string
  ch_after :: string
  ch_detail :: string
  ch_disposition :: string

definition dash :: string where
  "dash = [CHR 0x20, CHR 0xE2, CHR 0x80, CHR 0x94, CHR 0x20]"

definition null_str :: "bool \<Rightarrow> string" where
  "null_str b = (if b then ''NULL'' else ''NOT NULL'')"

definition key_str :: "column_asset \<Rightarrow> string" where
  "key_str c = (let p = (if ca_pk c then [''PK''] else []) @ (if ca_fk c then [''FK''] else []) in
     if p = [] then ''-'' else join_with ''+'' p)"

definition bool_str :: "bool \<Rightarrow> string" where
  "bool_str b = (if b then ''1'' else ''0'')"

definition index_sig :: "index_asset list \<Rightarrow> string" where
  "index_sig idx = join_with ''|'' (sort_by (<)
     (map (\<lambda>i. ix_name i @ '':'' @ join_with '','' (ix_columns i) @ '':'' @ bool_str (ix_unique i)) idx))"

definition type_severity :: "column_asset \<Rightarrow> column_asset \<Rightarrow> severity" where
  "type_severity b c = (if equal_fold (ca_data_type b) (ca_data_type c) then Sev_Medium else Sev_High)"

definition table_added :: "string \<Rightarrow> table_asset \<Rightarrow> change" where
  "table_added t cur = \<lparr>ch_kind = Table_Added, ch_severity = Sev_Low, ch_table = t, ch_column = [], ch_before = [],
     ch_after = [], ch_detail = ''new '' @ ta_kind cur @ '' with '' @ show_nat (length (ta_columns cur)) @ '' columns'',
     ch_disposition = ''create_candidate''\<rparr>"

definition table_removed :: "string \<Rightarrow> change" where
  "table_removed t = \<lparr>ch_kind = Table_Removed, ch_severity = Sev_Breaking, ch_table = t, ch_column = [],
     ch_before = [], ch_after = [], ch_detail = ''table no longer present in source'',
     ch_disposition = ''retire_candidate''\<rparr>"

definition column_removed :: "string \<Rightarrow> string \<Rightarrow> change" where
  "column_removed t c = \<lparr>ch_kind = Column_Removed, ch_severity = Sev_Breaking, ch_table = t, ch_column = c,
     ch_before = [], ch_after = [], ch_detail = ''column removed'' @ dash @ ''flags dependent metrics/joins/SQL'',
     ch_disposition = ''retire_candidate''\<rparr>"

text \<open>One column of the current table: new, or its differences in the order of the code.\<close>

definition column_changes :: "string \<Rightarrow> string \<Rightarrow> column_asset option \<Rightarrow> column_asset \<Rightarrow> change list" where
  "column_changes t name base cc =
     (case base of
        None \<Rightarrow>
          [\<lparr>ch_kind = Column_Added, ch_severity = Sev_Low, ch_table = t, ch_column = name, ch_before = [],
            ch_after = ca_full_type cc, ch_detail = ''new column'', ch_disposition = ''create_candidate''\<rparr>]
      | Some bc \<Rightarrow>
          (if \<not> equal_fold (ca_full_type bc) (ca_full_type cc) then
             [\<lparr>ch_kind = Type_Changed, ch_severity = type_severity bc cc, ch_table = t, ch_column = name,
               ch_before = ca_full_type bc, ch_after = ca_full_type cc,
               ch_detail = ''type change'' @ dash @ ''check dependent metrics/SQL compatibility'',
               ch_disposition = ''review''\<rparr>] else []) @
          (if ca_nullable bc \<noteq> ca_nullable cc then
             [\<lparr>ch_kind = Null_Changed, ch_severity = Sev_Medium, ch_table = t, ch_column = name,
               ch_before = null_str (ca_nullable bc), ch_after = null_str (ca_nullable cc), ch_detail = [],
               ch_disposition = ''review''\<rparr>] else []) @
          (if ca_pk bc \<noteq> ca_pk cc \<or> ca_fk bc \<noteq> ca_fk cc then
             [\<lparr>ch_kind = Key_Changed, ch_severity = Sev_High, ch_table = t, ch_column = name,
               ch_before = key_str bc, ch_after = key_str cc,
               ch_detail = ''key change'' @ dash @ ''re-verify join graph'', ch_disposition = ''review''\<rparr>] else []) @
          (if trim_space (ca_comment bc) \<noteq> trim_space (ca_comment cc) then
             [\<lparr>ch_kind = Comment_Changed, ch_severity = Sev_Low, ch_table = t, ch_column = name,
               ch_before = ca_comment bc, ch_after = ca_comment cc, ch_detail = [],
               ch_disposition = ''update_candidate''\<rparr>] else []))"

text \<open>Later entries of a list overwrite earlier ones in the map.\<close>

definition index_columns :: "table_asset \<Rightarrow> string \<Rightarrow> column_asset option" where
  "index_columns t = map_of (rev (map (\<lambda>c. (to_lower (ca_name c), c)) (ta_columns t)))"

definition index_tables :: "table_asset list \<Rightarrow> string \<Rightarrow> table_asset option" where
  "index_tables ts = map_of (rev (map (\<lambda>t. (fqn t, t)) ts))"

text \<open>The orders of the loops over maps: tables, columns by table, and the set of changed tables.\<close>

record orders =
  od_current :: "string list"
  od_base :: "string list"
  od_columns :: "string \<Rightarrow> string list"
  od_base_columns :: "string \<Rightarrow> string list"
  od_changed :: "string list"

definition diff_table :: "orders \<Rightarrow> table_asset \<Rightarrow> table_asset \<Rightarrow> change list" where
  "diff_table od base cur =
     (let t = fqn cur; base_cols = index_columns base; cur_cols = index_columns cur in
      (if trim_space (ta_comment base) \<noteq> trim_space (ta_comment cur) then
         [\<lparr>ch_kind = Comment_Changed, ch_severity = Sev_Low, ch_table = t, ch_column = [],
           ch_before = ta_comment base, ch_after = ta_comment cur, ch_detail = [],
           ch_disposition = ''update_candidate''\<rparr>] else []) @
      (if normalize_sql (ta_view_sql base) \<noteq> normalize_sql (ta_view_sql cur) then
         [\<lparr>ch_kind = View_Sql_Changed, ch_severity = Sev_High, ch_table = t, ch_column = [], ch_before = [], ch_after = [],
           ch_detail = ''view definition changed'' @ dash @ ''recompute lineage/dependents'',
           ch_disposition = ''review''\<rparr>] else []) @
      concat (map (\<lambda>name. case cur_cols name of Some cc \<Rightarrow> column_changes t name (base_cols name) cc | None \<Rightarrow> [])
        (od_columns od t)) @
      concat (map (\<lambda>name. if cur_cols name = None then [column_removed t name] else []) (od_base_columns od t)) @
      (if index_sig (ta_indexes base) \<noteq> index_sig (ta_indexes cur) then
         [\<lparr>ch_kind = Index_Changed, ch_severity = Sev_Low, ch_table = t, ch_column = [], ch_before = [], ch_after = [],
           ch_detail = ''index set changed'' @ dash @ ''refresh plan-related metadata'',
           ch_disposition = ''update_candidate''\<rparr>] else []))"

definition table_changes :: "orders \<Rightarrow> table_asset list \<Rightarrow> table_asset list \<Rightarrow> string \<Rightarrow> change list" where
  "table_changes od base cur t =
     (case index_tables cur t of
        None \<Rightarrow> []
      | Some c \<Rightarrow>
          (case index_tables base t of
             None \<Rightarrow> [table_added t c]
           | Some b \<Rightarrow> if ta_hash b = ta_hash c then [] else diff_table od b c))"

text \<open>The changes in the order in which they are found.\<close>

definition raw_changes :: "orders \<Rightarrow> table_asset list \<Rightarrow> table_asset list \<Rightarrow> change list" where
  "raw_changes od base cur =
     concat (map (table_changes od base cur) (od_current od)) @
     concat (map (\<lambda>t. if index_tables cur t = None then [table_removed t] else []) (od_base od))"

definition change_less :: "change \<Rightarrow> change \<Rightarrow> bool" where
  "change_less a b =
     (if ch_table a \<noteq> ch_table b then ch_table a < ch_table b else ch_column a < ch_column b)"

record change_set =
  cg_changes :: "change list"
  cg_changed_tables :: "string list"
  cg_summary :: "change_kind \<Rightarrow> nat"

definition diff :: "orders \<Rightarrow> table_asset list \<Rightarrow> table_asset list \<Rightarrow> change_set" where
  "diff od base cur =
     (let raw = raw_changes od base cur in
      \<lparr>cg_changes = sort_by change_less raw,
       cg_changed_tables = sort_by (<) (od_changed od),
       cg_summary = foldl (\<lambda>s c. s (ch_kind c := Suc (s (ch_kind c)))) (\<lambda>_. 0) raw\<rparr>)"

text \<open>Each order enumerates the keys of its map once.\<close>

definition enumerates :: "'a list \<Rightarrow> 'a set \<Rightarrow> bool" where
  "enumerates xs A \<longleftrightarrow> distinct xs \<and> set xs = A"

definition valid_orders :: "orders \<Rightarrow> table_asset list \<Rightarrow> table_asset list \<Rightarrow> bool" where
  "valid_orders od base cur \<longleftrightarrow>
     enumerates (od_current od) (dom (index_tables cur)) \<and>
     enumerates (od_base od) (dom (index_tables base)) \<and>
     (\<forall>t c. index_tables cur t = Some c \<longrightarrow> enumerates (od_columns od t) (dom (index_columns c))) \<and>
     (\<forall>t b. index_tables base t = Some b \<longrightarrow> enumerates (od_base_columns od t) (dom (index_columns b))) \<and>
     enumerates (od_changed od) (ch_table ` set (raw_changes od base cur))"

subsection \<open>The sort\<close>

definition change_key :: "change \<Rightarrow> string \<times> string" where
  "change_key c = (ch_table c, ch_column c)"

lemma change_less_key: "change_less a b \<longleftrightarrow> change_key a < change_key b"
  by (auto simp: change_less_def change_key_def)

interpretation changes: strict_weak change_less
  by unfold_locales (auto simp: change_less_key)

lemma filter_eq_mset:
  fixes xs ys :: "'a list" and key :: "'a \<Rightarrow> 'k"
  assumes "\<And>k. filter (\<lambda>x. key x = k) xs = filter (\<lambda>x. key x = k) ys"
  shows "mset xs = mset ys"
proof (rule multiset_eqI)
  fix x
  have "count (mset zs) x = count (mset (filter (\<lambda>y. key y = key x) zs)) x" for zs :: "'a list" by simp
  then show "count (mset xs) x = count (mset ys) x" using assms [of "key x"] by metis
qed

lemma sort_key_eqI:
  assumes "\<And>k. filter (\<lambda>x. key x = k) xs = filter (\<lambda>x. key x = k) ys"
  shows "sort_key (key :: 'a \<Rightarrow> 'b :: linorder) xs = sort_key key ys"
proof (rule properties_for_sort_key)
  show "mset (sort_key key ys) = mset xs" using filter_eq_mset [OF assms] by simp
  show "filter (\<lambda>x. key k = key x) (sort_key key ys) = filter (\<lambda>x. key k = key x) xs" if "k \<in> set (sort_key key ys)" for k
    using assms [of "key k"] sort_key_stable [of key "key k" ys] by (simp add: eq_commute)
  show "sorted (map key (sort_key key ys))" by simp
qed

text \<open>If every element's sublist only holds entries that name the element, a filter picks one sublist.\<close>

lemma filter_concat_key:
  assumes "distinct xs" and "\<And>x y. x \<in> set xs \<Longrightarrow> y \<in> set (f x) \<Longrightarrow> h y = x"
    and "\<And>y. P y \<Longrightarrow> h y = k"
  shows "filter P (concat (map f xs)) = (if k \<in> set xs then filter P (f k) else [])"
  using assms(1,2)
proof (induction xs)
  case (Cons x xs)
  have IH: "filter P (concat (map f xs)) = (if k \<in> set xs then filter P (f k) else [])" using Cons by simp
  have "filter P (f x) = []" if "x \<noteq> k" using Cons.prems(2) [of x] assms(3) that by (auto simp: filter_empty_conv)
  then show ?case using IH Cons.prems(1) by auto
qed simp

lemma filter_concat_order:
  assumes "enumerates xs A" "enumerates ys A" and "\<And>x y. x \<in> A \<Longrightarrow> y \<in> set (f x) \<Longrightarrow> h y = x"
    and "\<And>x. x \<in> A \<Longrightarrow> filter P (f x) = filter P (g x)"
    and "\<And>x y. x \<in> A \<Longrightarrow> y \<in> set (g x) \<Longrightarrow> h y = x" and "\<And>y. P y \<Longrightarrow> h y = k"
  shows "filter P (concat (map f xs)) = filter P (concat (map g ys))"
  using assms filter_concat_key [of xs f h P k] filter_concat_key [of ys g h P k] by (auto simp: enumerates_def)

subsection \<open>Where the changes come from\<close>

lemma index_tables_fqn: "index_tables ts t = Some a \<Longrightarrow> fqn a = t \<and> a \<in> set ts"
  unfolding index_tables_def by (auto dest!: map_of_SomeD)

lemma column_changes_key: "c \<in> set (column_changes t name b cc) \<Longrightarrow> ch_table c = t \<and> ch_column c = name"
  by (auto simp: column_changes_def split: option.splits if_splits)

lemma diff_table_table: "c \<in> set (diff_table od b cur) \<Longrightarrow> ch_table c = fqn cur"
  by (auto simp: diff_table_def Let_def column_removed_def dest: column_changes_key split: option.splits if_splits)

lemma table_changes_table: "c \<in> set (table_changes od base cur t) \<Longrightarrow> ch_table c = t"
  using diff_table_table [of c od] index_tables_fqn [of cur t]
  by (cases "index_tables cur t"; cases "index_tables base t") (auto simp: table_changes_def table_added_def split: if_splits)

lemma diff_table_order:
  assumes "enumerates (od_columns o1 (fqn cur)) (dom (index_columns cur))" "enumerates (od_columns o2 (fqn cur)) (dom (index_columns cur))"
    and "enumerates (od_base_columns o1 (fqn cur)) (dom (index_columns base))" "enumerates (od_base_columns o2 (fqn cur)) (dom (index_columns base))"
  shows "filter (\<lambda>c. change_key c = (t, n)) (diff_table o1 base cur) = filter (\<lambda>c. change_key c = (t, n)) (diff_table o2 base cur)"
proof -
  let ?P = "\<lambda>c. change_key c = (t, n)"
  let ?f = "\<lambda>name. case index_columns cur name of Some cc \<Rightarrow> column_changes (fqn cur) name (index_columns base name) cc | None \<Rightarrow> []"
  let ?g = "\<lambda>name. if index_columns cur name = None then [column_removed (fqn cur) name] else []"
  have 1: "filter ?P (concat (map ?f (od_columns o1 (fqn cur)))) = filter ?P (concat (map ?f (od_columns o2 (fqn cur))))"
    by (rule filter_concat_order [OF assms(1,2), where h = ch_column and k = n])
       (auto simp: change_key_def dest: column_changes_key)
  have 2: "filter ?P (concat (map ?g (od_base_columns o1 (fqn cur)))) = filter ?P (concat (map ?g (od_base_columns o2 (fqn cur))))"
    by (rule filter_concat_order [OF assms(3,4), where h = ch_column and k = n])
       (auto simp: change_key_def column_removed_def split: if_splits)
  show ?thesis unfolding diff_table_def Let_def filter_append 1 2 ..
qed

lemma raw_changes_order:
  assumes o1: "valid_orders o1 base cur" and o2: "valid_orders o2 base cur"
  shows "filter (\<lambda>c. change_key c = (t, n)) (raw_changes o1 base cur) = filter (\<lambda>c. change_key c = (t, n)) (raw_changes o2 base cur)"
proof -
  let ?P = "\<lambda>c. change_key c = (t, n)"
  let ?g = "\<lambda>t. if index_tables cur t = None then [table_removed t] else []"
  have "filter ?P (table_changes o1 base cur x) = filter ?P (table_changes o2 base cur x)" for x
  proof (cases "index_tables cur x")
    case (Some c)
    show ?thesis
    proof (cases "index_tables base x")
      case (Some b)
      then have "filter ?P (diff_table o1 b c) = filter ?P (diff_table o2 b c)"
        using o1 o2 \<open>index_tables cur x = Some c\<close> index_tables_fqn [OF \<open>index_tables cur x = Some c\<close>]
        by (intro diff_table_order) (auto simp: valid_orders_def)
      then show ?thesis by (simp add: table_changes_def Some \<open>index_tables cur x = Some c\<close>)
    qed (simp add: table_changes_def Some)
  qed (simp add: table_changes_def)
  then have 1: "filter ?P (concat (map (table_changes o1 base cur) (od_current o1))) =
      filter ?P (concat (map (table_changes o2 base cur) (od_current o2)))"
    using o1 o2 table_changes_table
    by (intro filter_concat_order [where A = "dom (index_tables cur)" and h = ch_table and k = t])
       (auto simp: valid_orders_def change_key_def)
  have 2: "filter ?P (concat (map ?g (od_base o1))) = filter ?P (concat (map ?g (od_base o2)))"
    using o1 o2
    by (intro filter_concat_order [where A = "dom (index_tables base)" and h = ch_table and k = t])
       (auto simp: valid_orders_def change_key_def table_removed_def split: if_splits)
  show ?thesis unfolding raw_changes_def filter_append 1 2 ..
qed

lemma summary_count:
  "foldl (\<lambda>s c. s (ch_kind c := Suc (s (ch_kind c)))) s cs k = s k + length (filter (\<lambda>c. ch_kind c = k) cs)"
  by (induction cs arbitrary: s) auto

text \<open>
  C33. The change set is a function of the two snapshots: whatever orders Go's map iterations
  take, for tables, columns and the set of changed tables, the changes with their order, the
  list of changed tables and the summary are the same, and the changes are sorted.
\<close>

theorem diff_order_independent:
  assumes "valid_orders o1 base cur" and "valid_orders o2 base cur"
  shows "diff o1 base cur = diff o2 base cur \<and>
    sorted_wrt (\<lambda>a b. \<not> change_less b a) (cg_changes (diff o1 base cur))"
proof -
  have filters: "filter (\<lambda>c. change_key c = k) (raw_changes o1 base cur) = filter (\<lambda>c. change_key c = k) (raw_changes o2 base cur)" for k
    using raw_changes_order [OF assms, of "fst k" "snd k"] by simp
  have 1: "sort_by change_less (raw_changes o1 base cur) = sort_by change_less (raw_changes o2 base cur)"
    unfolding sort_by_key [of change_less change_key, OF change_less_key] by (rule sort_key_eqI [OF filters])
  have ms: "mset (raw_changes o1 base cur) = mset (raw_changes o2 base cur)" by (rule filter_eq_mset [OF filters])
  then have set_eq: "set (raw_changes o1 base cur) = set (raw_changes o2 base cur)" by (rule mset_eq_setD)
  have srt: "sort_by (<) xs = sorted_list_of_set (set xs)" if "distinct xs" for xs :: "string list"
    using sort_by_key [of "(<)" "\<lambda>x :: string. x" xs] sorted_list_of_set_sort_remdups [of xs] distinct_remdups_id [OF that]
    by simp
  have 2: "sort_by (<) (od_changed o1) = sort_by (<) (od_changed o2)"
    using assms set_eq by (simp add: valid_orders_def enumerates_def srt)
  have 3: "foldl (\<lambda>s c. s (ch_kind c := Suc (s (ch_kind c)))) (\<lambda>_. 0) (raw_changes o1 base cur) =
      foldl (\<lambda>s c. s (ch_kind c := Suc (s (ch_kind c)))) (\<lambda>_. 0) (raw_changes o2 base cur)"
    unfolding fun_eq_iff summary_count using ms by (metis mset_filter size_mset)
  show ?thesis using 1 2 3 changes.sorted_sort_by by (simp add: diff_def Let_def)
qed

definition demo_table :: "string \<Rightarrow> table_asset" where
  "demo_table n = \<lparr>ta_schema = ''S'', ta_name = n, ta_kind = ''table'', ta_comment = [], ta_view_sql = [],
     ta_columns = [], ta_constraints = [], ta_indexes = [], ta_hash = n\<rparr>"

definition demo_orders :: "string list \<Rightarrow> orders" where
  "demo_orders ts = \<lparr>od_current = ts, od_base = [''S.C''], od_columns = (\<lambda>_. []), od_base_columns = (\<lambda>_. []),
     od_changed = ''S.C'' # ts\<rparr>"

lemma demo_orders_valid:
  assumes "ts \<in> {[''S.A'', ''S.B''], [''S.B'', ''S.A'']}"
  shows "valid_orders (demo_orders ts) [demo_table ''C''] [demo_table ''A'', demo_table ''B'']"
proof -
  have idx: "index_tables [demo_table ''A'', demo_table ''B''] = [''S.B'' \<mapsto> demo_table ''B'', ''S.A'' \<mapsto> demo_table ''A'']"
    "index_tables [demo_table ''C''] = [''S.C'' \<mapsto> demo_table ''C'']"
    by (simp_all add: index_tables_def fqn_def demo_table_def fun_upd_twist)
  have cols: "index_columns (demo_table n) = (\<lambda>_. None)" for n
    by (simp add: index_columns_def demo_table_def)
  show ?thesis
    using assms
    by (auto simp: valid_orders_def enumerates_def demo_orders_def idx cols raw_changes_def table_changes_def
        table_added_def table_removed_def split: if_splits)
qed

theorem diff_order_independent_witness:
  "diff (demo_orders [''S.A'', ''S.B'']) [demo_table ''C''] [demo_table ''A'', demo_table ''B''] =
   diff (demo_orders [''S.B'', ''S.A'']) [demo_table ''C''] [demo_table ''A'', demo_table ''B'']"
  using diff_order_independent [OF demo_orders_valid demo_orders_valid, of "[''S.A'', ''S.B'']" "[''S.B'', ''S.A'']"]
  by simp

subsection \<open>Removals\<close>

definition is_removal :: "change \<Rightarrow> bool" where
  "is_removal c \<longleftrightarrow> ch_kind c \<in> {Column_Removed, Table_Removed}"

lemma removed_simps [simp]:
  "is_removal (column_removed t n)" "is_removal (table_removed t)" "\<not> is_removal (table_added t c)"
  "ch_severity (column_removed t n) = Sev_Breaking" "ch_severity (table_removed t) = Sev_Breaking"
  "ch_disposition (column_removed t n) = ''retire_candidate''" "ch_disposition (table_removed t) = ''retire_candidate''"
  by (simp_all add: is_removal_def column_removed_def table_removed_def table_added_def)

lemma column_changes_keep: "filter is_removal (column_changes t name b cc) = []"
  by (cases b) (simp_all add: column_changes_def is_removal_def)

lemma diff_table_removed:
  "filter is_removal (diff_table od base cur) =
     concat (map (\<lambda>name. if index_columns cur name = None then [column_removed (fqn cur) name] else [])
       (od_base_columns od (fqn cur)))"
proof -
  have added: "filter is_removal (case x of Some cc \<Rightarrow> column_changes t name b cc | None \<Rightarrow> []) = []" for x t name b
    by (cases x) (simp_all add: column_changes_keep)
  have gone: "filter is_removal (if P then [column_removed t n] else []) = (if P then [column_removed t n] else [])" for P t n
    by simp
  show ?thesis
    unfolding diff_table_def Let_def filter_append filter_concat map_map comp_def added gone
    by (simp add: is_removal_def)
qed

text \<open>
  Nothing disappears silently, and nothing is removed at once: the removals of a change set are
  exactly the tables that only the baseline has and, in tables whose structure changed, the
  columns that only the baseline has; each is a breaking change with the disposition
  \<open>retire_candidate\<close>.
\<close>

theorem removals_are_retire_candidates:
  assumes "valid_orders od base cur"
  shows "set (filter is_removal (cg_changes (diff od base cur))) =
      table_removed ` (dom (index_tables base) - dom (index_tables cur)) \<union>
      {column_removed t n |t n b c. index_tables base t = Some b \<and> index_tables cur t = Some c \<and> ta_hash b \<noteq> ta_hash c \<and>
         n \<in> dom (index_columns b) - dom (index_columns c)}
    \<and> (\<lambda>c. (ch_severity c, ch_disposition c)) ` set (filter is_removal (cg_changes (diff od base cur)))
      \<subseteq> {(Sev_Breaking, ''retire_candidate'')}"
proof -
  have tables: "set (od_current od) = dom (index_tables cur)" "set (od_base od) = dom (index_tables base)"
    using assms by (simp_all add: valid_orders_def enumerates_def)
  let ?C = "\<lambda>t. {column_removed t n |n b c. index_tables base t = Some b \<and> index_tables cur t = Some c \<and> ta_hash b \<noteq> ta_hash c \<and>
         n \<in> dom (index_columns b) - dom (index_columns c)}"
  have per_table: "set (filter is_removal (table_changes od base cur t)) = ?C t" for t
  proof (cases "index_tables cur t"; cases "index_tables base t")
    fix c b assume *: "index_tables cur t = Some c" "index_tables base t = Some b"
    have f: "fqn c = t" using index_tables_fqn [OF *(1)] by simp
    have cols: "set (od_base_columns od t) = dom (index_columns b)"
      using assms *(2) by (auto simp: valid_orders_def enumerates_def)
    show ?thesis
    proof (cases "ta_hash b = ta_hash c")
      case False
      then have "filter is_removal (table_changes od base cur t) =
          concat (map (\<lambda>n. if index_columns c n = None then [column_removed t n] else []) (od_base_columns od t))"
        by (simp add: table_changes_def * diff_table_removed f cong: if_cong)
      also have "set \<dots> = column_removed t ` (dom (index_columns b) - dom (index_columns c))"
        unfolding set_concat set_map cols [symmetric] by (auto split: if_splits)
      finally show ?thesis using * False by auto
    qed (simp add: table_changes_def *)
  qed (simp_all add: table_changes_def)
  have "set (filter is_removal (cg_changes (diff od base cur))) =
      (\<Union>t \<in> dom (index_tables cur). set (filter is_removal (table_changes od base cur t))) \<union>
      (\<Union>t \<in> dom (index_tables base). set (if index_tables cur t = None then [table_removed t] else []))"
    by (auto simp: diff_def Let_def raw_changes_def tables split: if_splits)
  also have "\<dots> = table_removed ` (dom (index_tables base) - dom (index_tables cur)) \<union> (\<Union>t. ?C t)"
  proof -
    have "(\<Union>t \<in> dom (index_tables cur). ?C t) = (\<Union>t. ?C t)" by blast
    moreover have "(\<Union>t \<in> dom (index_tables base). set (if index_tables cur t = None then [table_removed t] else [])) =
        table_removed ` (dom (index_tables base) - dom (index_tables cur))"
      by (auto split: if_splits)
    ultimately show ?thesis unfolding per_table by (simp only: Un_commute)
  qed
  also have "(\<Union>t. ?C t) = {column_removed t n |t n b c. index_tables base t = Some b \<and> index_tables cur t = Some c \<and>
      ta_hash b \<noteq> ta_hash c \<and> n \<in> dom (index_columns b) - dom (index_columns c)}"
    by blast
  finally show ?thesis by auto
qed

theorem removals_are_retire_candidates_witness:
  "table_removed ''S.C'' \<in> set (cg_changes (diff (demo_orders [''S.A'', ''S.B'']) [demo_table ''C''] [demo_table ''A'', demo_table ''B'']))"
proof -
  have "''S.C'' \<in> dom (index_tables [demo_table ''C'']) - dom (index_tables [demo_table ''A'', demo_table ''B''])"
    by (simp add: index_tables_def fqn_def demo_table_def)
  moreover have "valid_orders (demo_orders [''S.A'', ''S.B'']) [demo_table ''C''] [demo_table ''A'', demo_table ''B'']"
    by (rule demo_orders_valid) simp
  ultimately have "table_removed ''S.C'' \<in> set (filter is_removal (cg_changes
      (diff (demo_orders [''S.A'', ''S.B'']) [demo_table ''C''] [demo_table ''A'', demo_table ''B''])))"
    using removals_are_retire_candidates by blast
  then show ?thesis by simp
qed

subsection \<open>What the change set misses\<close>

text \<open>
  The structural hash covers constraints, column defaults and generated expressions, but no change
  is reported for them: a table that differs in its constraints only has a new hash and an empty
  list of changes, so it is not among the changed tables either.
\<close>

lemma constraint_change_is_lost:
  assumes "set (od_base_columns od (fqn t)) \<subseteq> dom (index_columns t)"
  shows "diff_table od t (t \<lparr>ta_constraints := cs, ta_hash := h\<rparr>) = []"
proof -
  have cols: "index_columns (t \<lparr>ta_constraints := cs, ta_hash := h\<rparr>) = index_columns t"
    and name: "fqn (t \<lparr>ta_constraints := cs, ta_hash := h\<rparr>) = fqn t"
    by (simp_all add: index_columns_def fqn_def)
  have "column_changes x n (Some c) c = []" for x n c
    by (simp add: column_changes_def equal_fold_refl)
  then show ?thesis
    using assms by (auto simp: diff_table_def Let_def cols name split: option.split)
qed

text \<open>
  A comment is not part of the hash, so a change of comments alone is skipped although
  \<open>diffTable\<close> has a change kind for it.
\<close>

lemma comment_change_is_skipped:
  "struct_hash sha (t \<lparr>ta_comment := c\<rparr>) = struct_hash sha t"
  by (simp add: struct_hash_def table_sig_of_def)

end
