(* ===== verification/Audit_Chain.thy ===== *)
theory Audit_Chain
  imports Prelude "HOL-Library.Char_ord" "HOL-Library.List_Lexorder" "HOL-Library.Sublist"
begin

text \<open>
  The tamper-evident audit log (\<open>internal/mcp/audit.go\<close>): appending an entry with a sequence number
  and a hash over its predecessor, resuming the chain from the file after a restart, and
  \<open>VerifyAuditChain\<close>. A file is the list of its lines. SHA-256 (in hexadecimal) and
  \<open>encoding/json\<close> are parameters: \<open>sha\<close>, and a \<open>codec\<close> that prints keys, values and whole entries and
  parses a line; sequence numbers stay below the precision of a float.

  The lemmas show that what was appended verifies, also across restarts and failed writes; that
  two files with the same tip hash hold the same entries; and which changes the check cannot see.
\<close>

subsection \<open>Entries\<close>

text \<open>The values that the chain looks at, and all others.\<close>

datatype 'v aval = A_Num int | A_Str string | A_Other 'v

type_synonym 'v entry = "(string \<times> 'v aval) list"

record 'v codec =
  cd_key :: "string \<Rightarrow> string"
  cd_val :: "'v aval \<Rightarrow> string"
  cd_line :: "'v entry \<Rightarrow> string"
  cd_parse :: "string \<Rightarrow> 'v entry option"

definition chain_fields :: "string list" where
  "chain_fields = [''seq'', ''prev'', ''hash'']"

definition payload :: "'v entry \<Rightarrow> 'v entry" where
  "payload e = filter (\<lambda>(k, v). k \<notin> set chain_fields) e"

definition canonical_json :: "'v codec \<Rightarrow> 'v entry \<Rightarrow> string" where
  "canonical_json cd e =
     ''{'' @ join_with '','' (map (\<lambda>(k, v). cd_key cd k @ '':'' @ cd_val cd v) (sort_by (\<lambda>a b. fst a < fst b) e)) @ ''}''"

definition str_field :: "string \<Rightarrow> 'v entry \<Rightarrow> string" where
  "str_field k e = (case map_of e k of Some (A_Str s) \<Rightarrow> s | _ \<Rightarrow> [])"

definition num_field :: "string \<Rightarrow> 'v entry \<Rightarrow> int" where
  "num_field k e = (case map_of e k of Some (A_Num i) \<Rightarrow> i | _ \<Rightarrow> 0)"

text \<open>What is hashed.\<close>

definition chain_input :: "'v codec \<Rightarrow> string \<Rightarrow> 'v entry \<Rightarrow> string" where
  "chain_input cd prev e = prev @ newline # canonical_json cd (payload e)"

subsection \<open>Appending\<close>

record tip =
  tip_seq :: int
  tip_hash :: string

definition zero_tip :: tip where
  "zero_tip = \<lparr>tip_seq = 0, tip_hash = []\<rparr>"

text \<open>\<open>bufio.Scanner\<close> with a buffer of one MiB stops at the first line that does not fit.\<close>

definition max_line :: nat where
  "max_line = 1048576"

definition scanned :: "string list \<Rightarrow> string list" where
  "scanned ls = takeWhile (\<lambda>l. length l < max_line) ls"

text \<open>Decoding into \<open>struct {Seq int64; Hash string}\<close>: a missing field is zero, one of another type an error.\<close>

definition tip_of_line :: "'v codec \<Rightarrow> string \<Rightarrow> tip option" where
  "tip_of_line cd l =
     (case cd_parse cd l of
        None \<Rightarrow> None
      | Some e \<Rightarrow>
          (case (case map_of e ''seq'' of None \<Rightarrow> Some 0 | Some (A_Num i) \<Rightarrow> Some i | _ \<Rightarrow> None,
                 case map_of e ''hash'' of None \<Rightarrow> Some [] | Some (A_Str s) \<Rightarrow> Some s | _ \<Rightarrow> None) of
             (Some i, Some h) \<Rightarrow> if h \<noteq> [] then Some \<lparr>tip_seq = i, tip_hash = h\<rparr> else None
           | _ \<Rightarrow> None))"

definition last_audit_tip :: "'v codec \<Rightarrow> string list \<Rightarrow> tip" where
  "last_audit_tip cd ls =
     foldl (\<lambda>t l. if l = [] then t else case tip_of_line cd l of Some t' \<Rightarrow> t' | None \<Rightarrow> t) zero_tip (scanned ls)"

text \<open>One day's file and the tip the server remembers for it.\<close>

record log_state =
  lg_file :: "string list"
  lg_tip :: "tip option"

definition chained :: "(string \<Rightarrow> string) \<Rightarrow> 'v codec \<Rightarrow> tip \<Rightarrow> 'v entry \<Rightarrow> 'v entry" where
  "chained sha cd t e = payload e @ [(''seq'', A_Num (tip_seq t + 1)), (''prev'', A_Str (tip_hash t)),
     (''hash'', A_Str (sha (chain_input cd (tip_hash t) e)))]"

text \<open>\<open>written\<close> says whether marshalling, opening and writing all succeed; otherwise nothing changes.\<close>

definition append_audit :: "(string \<Rightarrow> string) \<Rightarrow> 'v codec \<Rightarrow> bool \<Rightarrow> 'v entry \<Rightarrow> log_state \<Rightarrow> log_state" where
  "append_audit sha cd written e s =
     (let t = (case lg_tip s of Some t \<Rightarrow> t | None \<Rightarrow> last_audit_tip cd (lg_file s)) in
      if written
      then \<lparr>lg_file = lg_file s @ [cd_line cd (chained sha cd t e)],
            lg_tip = Some \<lparr>tip_seq = tip_seq t + 1, tip_hash = sha (chain_input cd (tip_hash t) e)\<rparr>\<rparr>
      else s)"

text \<open>A restart forgets the tip.\<close>

definition restart :: "log_state \<Rightarrow> log_state" where
  "restart s = s \<lparr>lg_tip := None\<rparr>"

datatype 'v log_op = Append bool "'v entry" | Restart

definition log_step :: "(string \<Rightarrow> string) \<Rightarrow> 'v codec \<Rightarrow> log_state \<Rightarrow> 'v log_op \<Rightarrow> log_state" where
  "log_step sha cd s op = (case op of Append written e \<Rightarrow> append_audit sha cd written e s | Restart \<Rightarrow> restart s)"

subsection \<open>Verification\<close>

datatype break_reason = Invalid_Json | No_Hash | Prev_Mismatch | Seq_Gap int int | Content_Mismatch

datatype verify_result = Valid nat string | Broken nat nat break_reason

fun verify_go :: "(string \<Rightarrow> string) \<Rightarrow> 'v codec \<Rightarrow> string \<Rightarrow> int \<Rightarrow> nat \<Rightarrow> nat \<Rightarrow> string list \<Rightarrow> verify_result" where
  "verify_go sha cd prev expected entries line [] = Valid entries prev"
| "verify_go sha cd prev expected entries line (l # ls) =
     (if l = [] then verify_go sha cd prev expected entries (Suc line) ls
      else (case cd_parse cd l of
          None \<Rightarrow> Broken entries (Suc line) Invalid_Json
        | Some e \<Rightarrow>
            if str_field ''hash'' e = [] then Broken entries (Suc line) No_Hash
            else if str_field ''prev'' e \<noteq> prev then Broken entries (Suc line) Prev_Mismatch
            else if num_field ''seq'' e \<noteq> expected
            then Broken entries (Suc line) (Seq_Gap (num_field ''seq'' e) expected)
            else if sha (chain_input cd prev e) \<noteq> str_field ''hash'' e then Broken entries (Suc line) Content_Mismatch
            else verify_go sha cd (str_field ''hash'' e) (expected + 1) (Suc entries) (Suc line) ls))"

text \<open>The error of the scanner is not looked at.\<close>

definition verify_audit_chain :: "(string \<Rightarrow> string) \<Rightarrow> 'v codec \<Rightarrow> string list \<Rightarrow> verify_result" where
  "verify_audit_chain sha cd ls = verify_go sha cd [] 1 0 0 (scanned ls)"

subsection \<open>What was written verifies\<close>

text \<open>
  What the log relies on of \<open>encoding/json\<close> for an entry: the printed line is neither empty nor too
  long, and reading it back gives the chain fields and a payload with the same canonical text.
\<close>

definition reads_back :: "'v codec \<Rightarrow> 'v entry \<Rightarrow> bool" where
  "reads_back cd e \<longleftrightarrow> cd_line cd e \<noteq> [] \<and> length (cd_line cd e) < max_line \<and>
     (\<exists>e'. cd_parse cd (cd_line cd e) = Some e' \<and> (\<forall>k \<in> set chain_fields. map_of e' k = map_of e k) \<and>
        canonical_json cd (payload e') = canonical_json cd (payload e))"

lemma payload_chained [simp]: "payload (chained sha cd t e) = payload e"
  by (simp add: payload_def chained_def chain_fields_def conj_commute)

lemma payload_no_chain: "k \<in> set chain_fields \<Longrightarrow> map_of (payload e) k = None"
  by (auto simp: payload_def map_of_eq_None_iff)

lemma map_of_chained:
  "map_of (chained sha cd t e) ''seq'' = Some (A_Num (tip_seq t + 1))"
  "map_of (chained sha cd t e) ''prev'' = Some (A_Str (tip_hash t))"
  "map_of (chained sha cd t e) ''hash'' = Some (A_Str (sha (chain_input cd (tip_hash t) e)))"
  using payload_no_chain [of _ e] by (simp_all add: chained_def map_add_def chain_fields_def)

lemma chained_reads_back:
  assumes "reads_back cd (chained sha cd t e)"
  obtains e' where "cd_parse cd (cd_line cd (chained sha cd t e)) = Some e'"
    "num_field ''seq'' e' = tip_seq t + 1" "str_field ''prev'' e' = tip_hash t"
    "str_field ''hash'' e' = sha (chain_input cd (tip_hash t) e)"
    "map_of e' ''seq'' = Some (A_Num (tip_seq t + 1))" "map_of e' ''hash'' = Some (A_Str (sha (chain_input cd (tip_hash t) e)))"
    "\<And>p. chain_input cd p e' = chain_input cd p e"
proof -
  obtain e' where e': "cd_parse cd (cd_line cd (chained sha cd t e)) = Some e'"
      "\<forall>k \<in> set chain_fields. map_of e' k = map_of (chained sha cd t e) k"
      "canonical_json cd (payload e') = canonical_json cd (payload e)"
    using assms by (auto simp: reads_back_def)
  then show thesis
    using that [OF e'(1)] by (simp add: chain_fields_def map_of_chained num_field_def str_field_def chain_input_def)
qed

lemma verify_go_append:
  "verify_go sha cd prev expected entries line (ls @ ms) =
     (case verify_go sha cd prev expected entries line ls of
        Valid n h \<Rightarrow> verify_go sha cd h (expected + int n - int entries) n (line + length ls) ms
      | Broken n i r \<Rightarrow> Broken n i r)"
proof (induction sha cd prev expected entries line ls rule: verify_go.induct)
  case (2 sha cd prev expected entries line l ls)
  show ?case
    by (cases "l = []"; cases "cd_parse cd l") (use 2 in \<open>auto simp: algebra_simps split: verify_result.split\<close>)
qed simp

lemma scanned_id: "list_all (\<lambda>l. length l < max_line) ls \<Longrightarrow> scanned ls = ls"
  unfolding scanned_def by (simp add: takeWhile_eq_all_conv list_all_iff)

lemma last_audit_tip_snoc:
  assumes "list_all (\<lambda>l. length l < max_line) (ls @ [l])"
  shows "last_audit_tip cd (ls @ [l]) =
    (if l = [] then last_audit_tip cd ls
     else case tip_of_line cd l of Some t \<Rightarrow> t | None \<Rightarrow> last_audit_tip cd ls)"
proof -
  have "scanned (ls @ [l]) = ls @ [l]" "scanned ls = ls" using assms by (simp_all add: scanned_id)
  then show ?thesis unfolding last_audit_tip_def by (simp only:) simp
qed

text \<open>The file verifies, and its last entry is the tip in memory, if there is one.\<close>

definition log_ok :: "(string \<Rightarrow> string) \<Rightarrow> 'v codec \<Rightarrow> nat \<Rightarrow> log_state \<Rightarrow> bool" where
  "log_ok sha cd n s \<longleftrightarrow>
     list_all (\<lambda>l. length l < max_line) (lg_file s) \<and>
     (\<exists>h \<in> insert [] (range sha). verify_audit_chain sha cd (lg_file s) = Valid n h \<and> last_audit_tip cd (lg_file s) = \<lparr>tip_seq = int n, tip_hash = h\<rparr> \<and>
        lg_tip s \<in> {None, Some \<lparr>tip_seq = int n, tip_hash = h\<rparr>})"

definition empty_log :: log_state where
  "empty_log = \<lparr>lg_file = [], lg_tip = None\<rparr>"

lemma log_ok_empty: "log_ok sha cd 0 empty_log"
  by (simp add: log_ok_def empty_log_def verify_audit_chain_def scanned_def last_audit_tip_def zero_tip_def)

text \<open>The tips that can be in force for an entry among the first \<open>N\<close>.\<close>

definition possible_tips :: "(string \<Rightarrow> string) \<Rightarrow> nat \<Rightarrow> tip set" where
  "possible_tips sha N = {t. 0 \<le> tip_seq t \<and> tip_seq t < int N \<and> tip_hash t \<in> insert [] (range sha)}"

lemma log_ok_append:
  assumes ok: "log_ok sha cd n s" and sha: "\<And>x. sha x \<noteq> []" and n: "n < N"
    and rb: "\<And>t. t \<in> possible_tips sha N \<Longrightarrow> reads_back cd (chained sha cd t e)"
  shows "log_ok sha cd (Suc n) (append_audit sha cd True e s)"
proof -
  obtain h where h: "h \<in> insert [] (range sha)" and short: "list_all (\<lambda>l. length l < max_line) (lg_file s)"
    and v: "verify_audit_chain sha cd (lg_file s) = Valid n h"
    and tip: "last_audit_tip cd (lg_file s) = \<lparr>tip_seq = int n, tip_hash = h\<rparr>"
    and mem: "lg_tip s \<in> {None, Some \<lparr>tip_seq = int n, tip_hash = h\<rparr>}"
    using ok by (auto simp: log_ok_def)
  define t where "t = \<lparr>tip_seq = int n, tip_hash = h\<rparr>"
  have poss: "t \<in> possible_tips sha N" using h n by (simp add: t_def possible_tips_def)
  let ?l = "cd_line cd (chained sha cd t e)" and ?h = "sha (chain_input cd h e)"
  have t: "(case lg_tip s of Some t \<Rightarrow> t | None \<Rightarrow> last_audit_tip cd (lg_file s)) = t"
    using mem tip by (auto simp: t_def)
  have app: "append_audit sha cd True e s = \<lparr>lg_file = lg_file s @ [?l], lg_tip = Some \<lparr>tip_seq = int n + 1, tip_hash = ?h\<rparr>\<rparr>"
    unfolding append_audit_def t Let_def by (simp add: t_def)
  have line: "?l \<noteq> []" "length ?l < max_line" using rb [OF poss] by (auto simp: reads_back_def)
  obtain e' where e': "cd_parse cd ?l = Some e'" "num_field ''seq'' e' = tip_seq t + 1" "str_field ''prev'' e' = tip_hash t"
    "str_field ''hash'' e' = sha (chain_input cd (tip_hash t) e)" "map_of e' ''seq'' = Some (A_Num (tip_seq t + 1))"
    "map_of e' ''hash'' = Some (A_Str (sha (chain_input cd (tip_hash t) e)))" "\<And>p. chain_input cd p e' = chain_input cd p e"
    using chained_reads_back [OF rb [OF poss]] by blast
  have short': "list_all (\<lambda>l. length l < max_line) (lg_file s @ [?l])" using short line by simp
  have "verify_go sha cd h (1 + int n) n (length (lg_file s)) [?l] = Valid (Suc n) ?h"
    using line sha e' by (simp add: t_def)
  then have "verify_audit_chain sha cd (lg_file s @ [?l]) = Valid (Suc n) ?h"
    using v unfolding verify_audit_chain_def scanned_id [OF short'] scanned_id [OF short]
    by (simp add: verify_go_append)
  moreover have "last_audit_tip cd (lg_file s @ [?l]) = \<lparr>tip_seq = int (Suc n), tip_hash = ?h\<rparr>"
    unfolding last_audit_tip_snoc [OF short'] using line sha e' by (simp add: tip_of_line_def t_def)
  ultimately show ?thesis
    unfolding app log_ok_def using short' by (simp add: add.commute)
qed

fun op_reads_back :: "(string \<Rightarrow> string) \<Rightarrow> 'v codec \<Rightarrow> nat \<Rightarrow> 'v log_op \<Rightarrow> bool" where
  "op_reads_back sha cd N (Append written e) \<longleftrightarrow> (\<forall>t \<in> possible_tips sha N. reads_back cd (chained sha cd t e))"
| "op_reads_back sha cd N Restart \<longleftrightarrow> True"

fun is_written :: "'v log_op \<Rightarrow> bool" where
  "is_written (Append written e) = written"
| "is_written Restart = False"

lemma log_ok_run:
  assumes "\<And>x. sha x \<noteq> []"
  shows "log_ok sha cd n s \<Longrightarrow> list_all (op_reads_back sha cd N) ops \<Longrightarrow> n + length ops \<le> N \<Longrightarrow>
     log_ok sha cd (n + length (filter is_written ops)) (foldl (log_step sha cd) s ops)"
proof (induction ops arbitrary: n s)
  case (Cons op ops)
  have "log_ok sha cd (if is_written op then Suc n else n) (log_step sha cd s op)"
  proof (cases op)
    case (Append written e)
    then show ?thesis
      using Cons.prems log_ok_append [of sha cd n s N e] assms
      by (cases written) (auto simp: log_step_def append_audit_def Let_def)
  next
    case Restart
    then show ?thesis using Cons.prems by (auto simp: log_step_def restart_def log_ok_def)
  qed
  then show ?case using Cons.IH [of "if is_written op then Suc n else n"] Cons.prems(2,3) by (auto split: if_splits)
qed simp


subsection \<open>Tampering\<close>

text \<open>The hash at the end of a chain, and the texts hashed on the way.\<close>

fun chain_tip :: "(string \<Rightarrow> string) \<Rightarrow> 'v codec \<Rightarrow> string \<Rightarrow> 'v entry list \<Rightarrow> string" where
  "chain_tip sha cd prev [] = prev"
| "chain_tip sha cd prev (e # es) = chain_tip sha cd (sha (chain_input cd prev e)) es"

fun chain_inputs :: "(string \<Rightarrow> string) \<Rightarrow> 'v codec \<Rightarrow> string \<Rightarrow> 'v entry list \<Rightarrow> string list" where
  "chain_inputs sha cd prev [] = []"
| "chain_inputs sha cd prev (e # es) = chain_input cd prev e # chain_inputs sha cd (sha (chain_input cd prev e)) es"

definition log_entries :: "'v codec \<Rightarrow> string list \<Rightarrow> 'v entry list" where
  "log_entries cd ls = map (\<lambda>l. the (cd_parse cd l)) (filter (\<lambda>l. l \<noteq> []) (scanned ls))"

definition hashed_texts :: "(string \<Rightarrow> string) \<Rightarrow> 'v codec \<Rightarrow> string list \<Rightarrow> string set" where
  "hashed_texts sha cd ls = set (chain_inputs sha cd [] (log_entries cd ls))"

lemma verify_go_tip:
  "verify_go sha cd prev expected n line ls = Valid m h \<Longrightarrow>
     h = chain_tip sha cd prev (map (\<lambda>l. the (cd_parse cd l)) (filter (\<lambda>l. l \<noteq> []) ls)) \<and>
     m = n + length (filter (\<lambda>l. l \<noteq> []) ls)"
  by (induction sha cd prev expected n line ls rule: verify_go.induct) (auto split: if_splits option.splits)

lemma chain_tip_snoc: "chain_tip sha cd p (es @ [e]) = sha (chain_input cd (chain_tip sha cd p es) e)"
  by (induction es arbitrary: p) auto

lemma chain_inputs_snoc:
  "chain_inputs sha cd p (es @ [e]) = chain_inputs sha cd p es @ [chain_input cd (chain_tip sha cd p es) e]"
  by (induction es arbitrary: p) auto

lemma chain_tip_clean:
  "(\<And>x. newline \<notin> set (sha x)) \<Longrightarrow> newline \<notin> set (chain_tip sha cd [] es)"
  by (cases es rule: rev_cases) (simp_all add: chain_tip_snoc)

lemma chain_input_inj:
  assumes "newline \<notin> set p" "newline \<notin> set q" "chain_input cd p e = chain_input cd q f"
  shows "p = q \<and> canonical_json cd (payload e) = canonical_json cd (payload f)"
proof -
  have "takeWhile (\<lambda>c. c \<noteq> newline) (chain_input cd p e) = p" "takeWhile (\<lambda>c. c \<noteq> newline) (chain_input cd q f) = q"
    using assms(1,2) by (auto simp: chain_input_def takeWhile_append takeWhile_eq_all_conv)
  then have "p = q" using assms(3) by simp
  then show ?thesis using assms(3) by (simp add: chain_input_def)
qed

lemma chain_tip_inj:
  assumes clean: "\<And>x. newline \<notin> set (sha x)" and some: "\<And>x. sha x \<noteq> []"
  shows "inj_on sha (set (chain_inputs sha cd [] es) \<union> set (chain_inputs sha cd [] fs)) \<Longrightarrow>
    chain_tip sha cd [] es = chain_tip sha cd [] fs \<Longrightarrow>
    map (\<lambda>e. canonical_json cd (payload e)) es = map (\<lambda>e. canonical_json cd (payload e)) fs"
proof (induction es arbitrary: fs rule: rev_induct)
  case Nil
  then show ?case using some by (cases fs rule: rev_cases) (auto simp: chain_tip_snoc dest: sym)
next
  case (snoc e es)
  show ?case
  proof (cases fs rule: rev_cases)
    case Nil
    then show ?thesis using snoc.prems(2) some by (simp add: chain_tip_snoc)
  next
    case (snoc gs f)
    have "chain_input cd (chain_tip sha cd [] es) e = chain_input cd (chain_tip sha cd [] gs) f"
    proof (rule inj_onD [OF snoc.prems(1)])
      show "sha (chain_input cd (chain_tip sha cd [] es) e) = sha (chain_input cd (chain_tip sha cd [] gs) f)"
        using snoc.prems(2) by (simp add: snoc chain_tip_snoc)
    qed (simp_all add: snoc chain_inputs_snoc)
    then have "chain_tip sha cd [] es = chain_tip sha cd [] gs"
      and "canonical_json cd (payload e) = canonical_json cd (payload f)"
      using chain_input_inj [OF chain_tip_clean chain_tip_clean] clean by metis+
    moreover have "inj_on sha (set (chain_inputs sha cd [] es) \<union> set (chain_inputs sha cd [] gs))"
      using snoc.prems(1) unfolding snoc chain_inputs_snoc by (rule inj_on_subset) auto
    ultimately show ?thesis using snoc.IH [of gs] unfolding snoc by simp
  qed
qed

text \<open>
  The tip hash seals the log: two files that both verify and end at the same hash record the
  same entries in the same order, provided that the texts hashed for them do not collide. Whoever
  knows the tip notices every edited, deleted, inserted or reordered entry.
\<close>

theorem tip_seals_log:
  assumes "\<And>x. newline \<notin> set (sha x)" and "\<And>x. sha x \<noteq> []"
    and "inj_on sha (hashed_texts sha cd ls \<union> hashed_texts sha cd ms)"
    and "verify_audit_chain sha cd ls = Valid m h" and "verify_audit_chain sha cd ms = Valid n h"
  shows "m = n \<and> map (\<lambda>e. canonical_json cd (payload e)) (log_entries cd ls) =
    map (\<lambda>e. canonical_json cd (payload e)) (log_entries cd ms)"
proof -
  have 1: "h = chain_tip sha cd [] (log_entries cd ls)" "m = length (log_entries cd ls)"
    using verify_go_tip [OF assms(4) [unfolded verify_audit_chain_def]] by (simp_all add: log_entries_def)
  have 2: "h = chain_tip sha cd [] (log_entries cd ms)" "n = length (log_entries cd ms)"
    using verify_go_tip [OF assms(5) [unfolded verify_audit_chain_def]] by (simp_all add: log_entries_def)
  have "map (\<lambda>e. canonical_json cd (payload e)) (log_entries cd ls) =
      map (\<lambda>e. canonical_json cd (payload e)) (log_entries cd ms)"
    using chain_tip_inj [of sha, OF assms(1,2) assms(3) [unfolded hashed_texts_def]] 1(1) 2(1) by simp
  then show ?thesis using 1(2) 2(2) by (metis length_map)
qed

text \<open>A small codec and log, for the examples: one entry, at most a few lines.\<close>

definition demo_entry :: "unit entry" where
  "demo_entry = [(''tool'', A_Str ''t'')]"

definition demo_codec :: "unit codec" where
  "demo_codec = \<lparr>cd_key = (\<lambda>k. k), cd_val = (\<lambda>v. case v of A_Str s \<Rightarrow> s | _ \<Rightarrow> []),
     cd_line = (\<lambda>e. (if str_field ''prev'' e = [] then CHR ''a'' else CHR ''b'') # replicate (nat (num_field ''seq'' e)) CHR ''x''),
     cd_parse = (\<lambda>l. Some (demo_entry @ [(''seq'', A_Num (int (length l) - 1)),
       (''prev'', A_Str (if hd l = CHR ''a'' then [] else ''h'')), (''hash'', A_Str ''h'')]))\<rparr>"

lemma demo_reads_back:
  "N < 100 \<Longrightarrow> t \<in> possible_tips (\<lambda>_. ''h'') N \<Longrightarrow> reads_back demo_codec (chained (\<lambda>_. ''h'') demo_codec t demo_entry)"
  by (auto simp: possible_tips_def reads_back_def demo_codec_def chained_def str_field_def num_field_def demo_entry_def
      payload_def chain_fields_def max_line_def)

definition demo_ops :: "unit log_op list" where
  "demo_ops = [Append True demo_entry, Append False demo_entry, Restart, Append True demo_entry]"


theorem tip_seals_log_witness:
  "map (\<lambda>e. canonical_json demo_codec (payload e)) (log_entries demo_codec [''ax'']) =
   map (\<lambda>e. canonical_json demo_codec (payload e)) (log_entries demo_codec [[], ''ax''])"
proof -
  have "verify_audit_chain (\<lambda>_. ''h'') demo_codec [''ax''] = Valid 1 ''h''"
    "verify_audit_chain (\<lambda>_. ''h'') demo_codec [[], ''ax''] = Valid 1 ''h''"
    by (simp_all add: verify_audit_chain_def scanned_def max_line_def demo_codec_def str_field_def num_field_def demo_entry_def)
  moreover have "inj_on (\<lambda>_. ''h'') (hashed_texts (\<lambda>_. ''h'') demo_codec [''ax''] \<union> hashed_texts (\<lambda>_. ''h'') demo_codec [[], ''ax''])"
    by (simp add: hashed_texts_def log_entries_def scanned_def max_line_def demo_codec_def)
  ultimately show ?thesis
    using tip_seals_log [of "\<lambda>_. ''h''" demo_codec "[''ax'']" "[[], ''ax'']"] by (simp add: newline_def)
qed

subsection \<open>What the check cannot see\<close>

text \<open>Entries removed from the end leave a valid log: only a known tip tells.\<close>

lemma truncated_log_verifies:
  assumes "list_all (\<lambda>l. length l < max_line) (ls @ ms)" and "verify_audit_chain sha cd (ls @ ms) = Valid n h"
  shows "\<exists>m h'. verify_audit_chain sha cd ls = Valid m h'"
proof -
  have "scanned (ls @ ms) = ls @ ms" "scanned ls = ls" using assms(1) by (simp_all add: scanned_id)
  then show ?thesis
    using assms(2) unfolding verify_audit_chain_def by (auto simp: verify_go_append split: verify_result.splits)
qed

text \<open>Everything from a line of one MiB on is ignored, whatever it is, and the log still counts as valid.\<close>

lemma scanned_stop: "max_line \<le> length l \<Longrightarrow> scanned (ls @ l # ms) = scanned ls"
  by (induction ls) (auto simp: scanned_def)

lemma long_line_hides_rest:
  "max_line \<le> length l \<Longrightarrow> verify_audit_chain sha cd (ls @ l # ms) = verify_audit_chain sha cd ls"
  using scanned_stop [of l ls ms] by (simp add: verify_audit_chain_def)

text \<open>
  An entry whose values do not print the same after being read back, such as tool arguments kept
  as raw JSON with their keys in another order, is written with a hash that its own verification
  refuses.
\<close>

lemma unstable_entry_breaks:
  assumes "cd_line cd (chained sha cd zero_tip e) \<noteq> []" "length (cd_line cd (chained sha cd zero_tip e)) < max_line"
    and "cd_parse cd (cd_line cd (chained sha cd zero_tip e)) = Some e'" and "\<forall>k \<in> set chain_fields. map_of e' k = map_of (chained sha cd zero_tip e) k"
    and "sha (chain_input cd [] e') \<noteq> sha (chain_input cd [] e)" and "\<And>x. sha x \<noteq> []"
  shows "verify_audit_chain sha cd (lg_file (append_audit sha cd True e empty_log)) = Broken 0 1 Content_Mismatch"
  using assms
  by (simp add: verify_audit_chain_def append_audit_def empty_log_def last_audit_tip_def scanned_def Let_def
      str_field_def num_field_def chain_fields_def map_of_chained) (simp add: zero_tip_def)

end
