(* ===== verification/Result_Cache.thy ===== *)
theory Result_Cache
  imports Executor
begin

text \<open>
  What stands between the handlers and the connection manager (\<open>internal/mcp/execguard.go\<close>): the
  masking of personal data in results, the result cache, and \<open>executeGuarded\<close>, which composes them
  with \<open>Execute\<close>. The cache is a Go map, here a list with one element for a key; times are in
  milliseconds, the clock at the start and at the end of a call being those of \<open>exec_env\<close>. The
  names of the catalog's personal columns are an argument (in upper case, \<open>PIIColumnNames\<close>).

  The lemmas show that no result leaves unmasked, fresh or cached, that the cache stays bounded,
  and where a cached answer comes from.
\<close>

subsection \<open>Masking\<close>

definition pii_mask :: string where
  "pii_mask = ''***MASKED***''"

definition mask_column :: "string \<Rightarrow> (string \<Rightarrow> sql_value option) \<Rightarrow> string \<Rightarrow> sql_value option" where
  "mask_column name row = (if row name = None then row else row (name := Some (V_Text pii_mask)))"

fun mask_columns :: "string list \<Rightarrow> string list \<Rightarrow> (string \<Rightarrow> sql_value option) list \<Rightarrow>
    string list \<times> (string \<Rightarrow> sql_value option) list" where
  "mask_columns pii [] rows = ([], rows)"
| "mask_columns pii (name # names) rows =
     (if to_upper name \<in> set pii
      then (case mask_columns pii names (map (mask_column name) rows) of (ms, rows') \<Rightarrow> (name # ms, rows'))
      else mask_columns pii names rows)"

definition mask_pii_result :: "string list \<Rightarrow> query_result \<Rightarrow> string list \<times> query_result" where
  "mask_pii_result pii r =
     (if qr_columns r = [] \<or> pii = [] then ([], r)
      else (case mask_columns pii (map fst (qr_columns r)) (qr_rows r) of (ms, rows) \<Rightarrow> (ms, r \<lparr>qr_rows := rows\<rparr>)))"

subsection \<open>The cache\<close>

definition default_cache_ttl :: int where "default_cache_ttl = 60"
definition cache_max_entries :: nat where "cache_max_entries = 100"
definition cache_max_rows :: nat where "cache_max_rows = 5000"

record cache_entry =
  ce_result :: query_result
  ce_masked :: "string list"
  ce_expires :: int

record result_cache =
  rc_entries :: "(string \<times> cache_entry) list"
  rc_ttl :: int

definition new_result_cache :: result_cache where
  "new_result_cache = \<lparr>rc_entries = [], rc_ttl = default_cache_ttl\<rparr>"

definition set_ttl :: "int \<Rightarrow> result_cache \<Rightarrow> result_cache" where
  "set_ttl seconds rc =
     (let n = (if seconds < 0 then 0 else seconds) in
      if n = 0 then \<lparr>rc_entries = [], rc_ttl = 0\<rparr> else rc \<lparr>rc_ttl := n\<rparr>)"

definition cache_enabled :: "result_cache \<Rightarrow> bool" where
  "cache_enabled rc \<longleftrightarrow> rc_ttl rc > 0"

definition cache_key :: "string \<Rightarrow> string \<Rightarrow> int \<Rightarrow> string" where
  "cache_key pid sql max_rows = pid @ [CHR 0x00] @ trim_space sql @ [CHR 0x00] @ show_int max_rows"

definition drop_key :: "string \<Rightarrow> (string \<times> cache_entry) list \<Rightarrow> (string \<times> cache_entry) list" where
  "drop_key key es = filter (\<lambda>(k, _). k \<noteq> key) es"

definition cache_get :: "int \<Rightarrow> string \<Rightarrow> result_cache \<Rightarrow> (query_result \<times> string list) option \<times> result_cache" where
  "cache_get now key rc =
     (if \<not> cache_enabled rc then (None, rc)
      else (case map_of (rc_entries rc) key of
          None \<Rightarrow> (None, rc)
        | Some e \<Rightarrow>
            if now > ce_expires e then (None, rc \<lparr>rc_entries := drop_key key (rc_entries rc)\<rparr>)
            else (Some (ce_result e, ce_masked e), rc)))"

text \<open>A full cache first loses its expired entries, then everything.\<close>

definition make_room :: "int \<Rightarrow> (string \<times> cache_entry) list \<Rightarrow> (string \<times> cache_entry) list" where
  "make_room now es =
     (if length es < cache_max_entries then es
      else
        let live = filter (\<lambda>(_, e). \<not> now > ce_expires e) es in
        if length live \<ge> cache_max_entries then [] else live)"

definition cache_put :: "int \<Rightarrow> string \<Rightarrow> query_result \<Rightarrow> string list \<Rightarrow> result_cache \<Rightarrow> result_cache" where
  "cache_put now key r ms rc =
     (if rc_ttl rc \<le> 0 \<or> qr_row_count r > cache_max_rows then rc
      else rc \<lparr>rc_entries := (key, \<lparr>ce_result = r, ce_masked = ms, ce_expires = now + rc_ttl rc * 1000\<rparr>)
                 # drop_key key (make_room now (rc_entries rc))\<rparr>)"

subsection \<open>executeGuarded\<close>

record served =
  sr_result :: query_result
  sr_masked :: "string list"
  sr_cached :: bool

record server =
  sv_manager :: manager
  sv_cache :: result_cache

definition execute_fresh ::
  "exec_env \<Rightarrow> string list \<Rightarrow> string \<Rightarrow> string \<Rightarrow> exec_options \<Rightarrow> server \<Rightarrow> (exec_error + served) \<times> server" where
  "execute_fresh env pii pid sql opts s =
     (case execute env pid sql opts (sv_manager s) of
        (Inl e, m) \<Rightarrow> (Inl e, s \<lparr>sv_manager := m\<rparr>)
      | (Inr r0, m) \<Rightarrow>
          (case mask_pii_result pii r0 of (ms, r) \<Rightarrow>
            (Inr \<lparr>sr_result = r, sr_masked = ms, sr_cached = False\<rparr>,
             s \<lparr>sv_manager := m,
                sv_cache := (if eo_preview opts then sv_cache s
                  else cache_put (ee_end env) (cache_key pid sql (eo_max_rows opts)) r ms (sv_cache s))\<rparr>)))"

definition execute_guarded ::
  "exec_env \<Rightarrow> string list \<Rightarrow> string \<Rightarrow> string \<Rightarrow> exec_options \<Rightarrow> bool \<Rightarrow> server \<Rightarrow> (exec_error + served) \<times> server" where
  "execute_guarded env pii pid sql opts fresh s =
     (if fresh \<or> eo_preview opts then execute_fresh env pii pid sql opts s
      else (case cache_get (ee_start env) (cache_key pid sql (eo_max_rows opts)) (sv_cache s) of
          (Some (r, ms), rc) \<Rightarrow> (Inr \<lparr>sr_result = r, sr_masked = ms, sr_cached = True\<rparr>, s \<lparr>sv_cache := rc\<rparr>)
        | (None, rc) \<Rightarrow> execute_fresh env pii pid sql opts (s \<lparr>sv_cache := rc\<rparr>)))"

subsection \<open>Masking hides every personal value\<close>

definition hides :: "string list \<Rightarrow> (string \<Rightarrow> sql_value option) \<Rightarrow> bool" where
  "hides pii row \<longleftrightarrow> (\<forall>c v. row c = Some v \<and> to_upper c \<in> set pii \<longrightarrow> v = V_Text pii_mask)"

text \<open>Rows with no other columns than the result's, as \<open>scanRows\<close> makes them.\<close>

definition rows_within :: "string set \<Rightarrow> (string \<Rightarrow> sql_value option) list \<Rightarrow> bool" where
  "rows_within names rows \<longleftrightarrow> (\<forall>row \<in> set rows. \<forall>c v. row c = Some v \<longrightarrow> c \<in> names)"

definition rows_have_columns :: "query_result \<Rightarrow> bool" where
  "rows_have_columns r \<longleftrightarrow> rows_within (fst ` set (qr_columns r)) (qr_rows r)"

lemma rows_within_simps [simp]:
  "rows_within names []"
  "rows_within names (rows @ rows') \<longleftrightarrow> rows_within names rows \<and> rows_within names rows'"
  "rows_within (set ns) [row_map ns vs]"
  by (auto simp: rows_within_def row_map_def dest!: map_of_SomeD dest: set_zip_leftD)

lemma scan_go_columns:
  "scan_go names maxr maxb b st rs fin = Inr st' \<Longrightarrow> rows_within (set names) (sc_rows st) \<Longrightarrow> rows_within (set names) (sc_rows st')"
  by (induction names maxr maxb b st rs fin rule: scan_go.induct) (auto simp: Let_def split: if_splits option.splits)

lemma scan_rows_columns: "scan_rows cu maxr maxb = Inr r \<Longrightarrow> rows_have_columns r"
  by (auto simp: scan_rows_def rows_have_columns_def bind_err_Inr_iff dest!: scan_go_columns)

lemma run_query_columns: "run_query env p d sql opts m = (Inr r, m') \<Longrightarrow> rows_have_columns r"
  by (auto simp: run_query_def Let_def rows_have_columns_def split: sum.splits option.splits prod.splits
      dest!: scan_rows_columns)

lemma execute_columns: "execute env pid sql opts m = (Inr r, m') \<Longrightarrow> rows_have_columns r"
  by (auto simp: execute_def split: sum.splits option.splits prod.splits dest: run_query_columns)

lemma mask_columns_rows:
  "snd (mask_columns pii names rows) =
   map (\<lambda>row c. if c \<in> set names \<and> to_upper c \<in> set pii \<and> row c \<noteq> None then Some (V_Text pii_mask) else row c) rows"
proof (induction pii names rows rule: mask_columns.induct)
  case (2 pii name names rows)
  then show ?case
    by (auto simp: mask_column_def fun_eq_iff split: prod.split)
qed simp

lemma mask_hides:
  assumes "rows_have_columns r" "mask_pii_result pii r = (ms, r')"
  shows "\<forall>row \<in> set (qr_rows r'). hides pii row"
proof (cases "qr_columns r = [] \<or> pii = []")
  case True
  then show ?thesis
    using assms by (auto simp: mask_pii_result_def hides_def rows_have_columns_def rows_within_def)
next
  case False
  then have "qr_rows r' = snd (mask_columns pii (map fst (qr_columns r)) (qr_rows r))"
    using assms(2) by (auto simp: mask_pii_result_def split: prod.splits)
  then show ?thesis
    using assms(1) by (fastforce simp: mask_columns_rows hides_def rows_have_columns_def rows_within_def split: if_splits)
qed

lemma mask_row_count: "mask_pii_result pii r = (ms, r') \<Longrightarrow> qr_row_count r' = qr_row_count r"
  by (auto simp: mask_pii_result_def split: if_splits prod.splits)

subsection \<open>The cache stays bounded and masked\<close>

definition entry_ok :: "string list \<Rightarrow> cache_entry \<Rightarrow> bool" where
  "entry_ok pii e \<longleftrightarrow> qr_row_count (ce_result e) \<le> cache_max_rows \<and> (\<forall>row \<in> set (qr_rows (ce_result e)). hides pii row)"

definition cache_ok :: "string list \<Rightarrow> result_cache \<Rightarrow> bool" where
  "cache_ok pii rc \<longleftrightarrow> distinct (map fst (rc_entries rc)) \<and> length (rc_entries rc) \<le> cache_max_entries \<and>
     (\<forall>(k, e) \<in> set (rc_entries rc). entry_ok pii e)"

lemma distinct_keys_filter: "distinct (map fst es) \<Longrightarrow> distinct (map fst (filter P es))"
  by (induction es) auto

lemma drop_key_simps [simp]:
  "length (drop_key key es) \<le> length es"
  "distinct (map fst es) \<Longrightarrow> distinct (map fst (drop_key key es))"
  "set (drop_key key es) = {x \<in> set es. fst x \<noteq> key}"
  by (auto simp: drop_key_def distinct_keys_filter)

lemma make_room_filter: "\<exists>P. make_room now es = filter P es"
proof -
  have "[] = filter (\<lambda>_. False) es" "es = filter (\<lambda>_. True) es" by simp_all
  then show ?thesis
    unfolding make_room_def Let_def by metis
qed

lemma length_make_room: "length (make_room now es) < cache_max_entries"
  by (simp add: make_room_def Let_def cache_max_entries_def)

lemma cache_ok_new [inv_intros]: "cache_ok pii new_result_cache"
  by (simp add: cache_ok_def new_result_cache_def)

lemma cache_ok_ttl [inv_intros]: "cache_ok pii rc \<Longrightarrow> cache_ok pii (set_ttl n rc)"
  by (simp add: cache_ok_def set_ttl_def Let_def)

lemma cache_ok_get [inv_intros]: "cache_ok pii rc \<Longrightarrow> cache_ok pii (snd (cache_get now key rc))"
  using drop_key_simps(1) [of key "rc_entries rc"]
  by (auto simp: cache_ok_def cache_get_def split: option.split simp del: drop_key_simps(1))

lemma cache_ok_put [inv_intros]:
  assumes "cache_ok pii rc" "\<forall>row \<in> set (qr_rows r). hides pii row"
  shows "cache_ok pii (cache_put now key r ms rc)"
proof -
  obtain P where P: "make_room now (rc_entries rc) = filter P (rc_entries rc)"
    using make_room_filter by blast
  have "Suc (length (drop_key key (make_room now (rc_entries rc)))) \<le> cache_max_entries"
    using drop_key_simps(1) [of key "make_room now (rc_entries rc)"] length_make_room [of now "rc_entries rc"]
    by (simp del: drop_key_simps(1))
  moreover have "distinct (map fst (drop_key key (make_room now (rc_entries rc))))"
    using assms(1) by (simp add: P cache_ok_def distinct_keys_filter)
  moreover have "\<forall>(k, e) \<in> set (drop_key key (make_room now (rc_entries rc))). entry_ok pii e"
    using assms(1) by (auto simp: P cache_ok_def)
  moreover have "qr_row_count r \<le> cache_max_rows \<Longrightarrow> entry_ok pii \<lparr>ce_result = r, ce_masked = ms, ce_expires = x\<rparr>" for x
    using assms(2) by (simp add: entry_ok_def)
  ultimately show ?thesis
    using assms(1) by (auto simp: cache_put_def cache_ok_def simp del: drop_key_simps(1,2))
qed

lemma cache_get_entry:
  assumes "cache_get now key rc = (Some (r, ms), rc')"
  obtains e where "(key, e) \<in> set (rc_entries rc)" "ce_result e = r" "ce_masked e = ms" "now \<le> ce_expires e" "rc' = rc"
proof (cases "map_of (rc_entries rc) key")
  case None
  then show ?thesis
    using assms by (simp add: cache_get_def split: if_splits)
next
  case (Some e)
  then show ?thesis
    using assms that [of e] map_of_SomeD [OF Some] by (simp add: cache_get_def split: if_splits)
qed

lemma execute_fresh_hides:
  "execute_fresh env pii pid sql opts s = (Inr a, s') \<Longrightarrow> \<forall>row \<in> set (qr_rows (sr_result a)). hides pii row"
  by (auto simp: execute_fresh_def split: sum.splits prod.splits dest!: execute_columns dest: mask_hides)

lemma execute_fresh_cache:
  assumes "cache_ok pii (sv_cache s)"
  shows "cache_ok pii (sv_cache (snd (execute_fresh env pii pid sql opts s)))"
proof (cases "execute env pid sql opts (sv_manager s)")
  case (Pair x m)
  then show ?thesis
    using assms by (cases x) (auto simp: execute_fresh_def split: prod.split
        intro!: cache_ok_put dest: mask_hides [OF execute_columns])
qed

lemma execute_guarded_cache [inv_intros]:
  assumes "cache_ok pii (sv_cache s)"
  shows "cache_ok pii (sv_cache (snd (execute_guarded env pii pid sql opts fresh s)))"
  using assms cache_ok_get [of pii "sv_cache s" "ee_start env" "cache_key pid sql (eo_max_rows opts)"]
  by (auto simp: execute_guarded_def intro!: execute_fresh_cache split: prod.split option.split)

lemma cached_answer_get:
  assumes "execute_guarded env pii pid sql opts fresh s = (Inr a, s')" "sr_cached a"
  shows "\<not> fresh \<and> \<not> eo_preview opts \<and> sv_manager s' = sv_manager s \<and>
    cache_get (ee_start env) (cache_key pid sql (eo_max_rows opts)) (sv_cache s) = (Some (sr_result a, sr_masked a), sv_cache s')"
  using assms by (auto simp: execute_guarded_def execute_fresh_def split: if_splits prod.splits option.splits sum.splits)

lemma execute_guarded_hides:
  assumes "cache_ok pii (sv_cache s)" "execute_guarded env pii pid sql opts fresh s = (Inr a, s')"
  shows "\<forall>row \<in> set (qr_rows (sr_result a)). hides pii row"
proof (cases "sr_cached a")
  case True
  then show ?thesis
    using cached_answer_get [OF assms(2)] assms(1) by (auto simp: cache_ok_def entry_ok_def elim!: cache_get_entry)
next
  case False
  then show ?thesis
    using assms(2) by (auto simp: execute_guarded_def split: if_splits prod.splits option.splits dest!: execute_fresh_hides)
qed

inductive server_step :: "string list \<Rightarrow> server \<Rightarrow> server \<Rightarrow> bool" for pii where
  Query: "server_step pii s (snd (execute_guarded env pii pid sql opts fresh s))"
| Set_Ttl: "server_step pii s (s \<lparr>sv_cache := set_ttl n (sv_cache s)\<rparr>)"
| Manager: "manager_step (sv_manager s) m \<Longrightarrow> server_step pii s (s \<lparr>sv_manager := m\<rparr>)"

definition new_server :: server where
  "new_server = \<lparr>sv_manager = new_manager, sv_cache = new_result_cache\<rparr>"

lemma server_cache_ok: "(server_step pii)\<^sup>*\<^sup>* new_server s \<Longrightarrow> cache_ok pii (sv_cache s)"
proof (induction rule: rtranclp_induct)
  case (step s s')
  from step.hyps(2) step.IH show ?case
    by cases (auto intro: inv_intros)
qed (simp add: new_server_def inv_intros)


subsection \<open>Where a cached answer comes from\<close>

text \<open>An earlier call that was executed and answered.\<close>

record past_run =
  rr_pid :: string
  rr_sql :: string
  rr_max_rows :: int
  rr_time :: int
  rr_ttl :: int
  rr_result :: query_result
  rr_masked :: "string list"

definition run_of :: "exec_env \<Rightarrow> string \<Rightarrow> string \<Rightarrow> exec_options \<Rightarrow> server \<Rightarrow> served \<Rightarrow> past_run" where
  "run_of env pid sql opts s a =
     \<lparr>rr_pid = pid, rr_sql = sql, rr_max_rows = eo_max_rows opts, rr_time = ee_end env, rr_ttl = rc_ttl (sv_cache s),
      rr_result = sr_result a, rr_masked = sr_masked a\<rparr>"

inductive traced :: "string list \<Rightarrow> past_run list \<Rightarrow> server \<Rightarrow> bool" for pii where
  Start: "traced pii [] new_server"
| Executed: "traced pii runs s \<Longrightarrow> execute_guarded env pii pid sql opts fresh s = (Inr a, s') \<Longrightarrow> \<not> sr_cached a \<Longrightarrow>
    traced pii (runs @ [run_of env pid sql opts s a]) s'"
| Not_Executed: "traced pii runs s \<Longrightarrow> execute_guarded env pii pid sql opts fresh s = (x, s') \<Longrightarrow>
    (\<And>a. x = Inr a \<Longrightarrow> sr_cached a) \<Longrightarrow> traced pii runs s'"
| Ttl: "traced pii runs s \<Longrightarrow> traced pii runs (s \<lparr>sv_cache := set_ttl n (sv_cache s)\<rparr>)"
| Managed: "traced pii runs s \<Longrightarrow> manager_step (sv_manager s) m \<Longrightarrow> traced pii runs (s \<lparr>sv_manager := m\<rparr>)"

definition run_key :: "past_run \<Rightarrow> string" where
  "run_key f = cache_key (rr_pid f) (rr_sql f) (rr_max_rows f)"

definition stored_by :: "past_run \<Rightarrow> string \<times> cache_entry \<Rightarrow> bool" where
  "stored_by f x \<longleftrightarrow> fst x = run_key f \<and> ce_result (snd x) = rr_result f \<and> ce_masked (snd x) = rr_masked f \<and>
     ce_expires (snd x) = rr_time f + rr_ttl f * 1000"

definition entries_traced :: "past_run list \<Rightarrow> result_cache \<Rightarrow> bool" where
  "entries_traced runs rc \<longleftrightarrow> (\<forall>x \<in> set (rc_entries rc). \<exists>f \<in> set runs. stored_by f x)"

lemma entries_traced_subset:
  "entries_traced runs rc \<Longrightarrow> set (rc_entries rc') \<subseteq> set (rc_entries rc) \<Longrightarrow> set runs \<subseteq> set runs' \<Longrightarrow> entries_traced runs' rc'"
  unfolding entries_traced_def by blast

lemma cache_get_subset: "set (rc_entries (snd (cache_get now key rc))) \<subseteq> set (rc_entries rc)"
  by (auto simp: cache_get_def split: option.split)

lemma cache_get_ttl: "rc_ttl (snd (cache_get now key rc)) = rc_ttl rc"
  by (simp add: cache_get_def split: option.split)

lemma make_room_subset: "set (make_room now es) \<subseteq> set es"
  using make_room_filter [of now es] by auto

lemma entries_traced_put:
  assumes "entries_traced runs rc" "run_key f = key" "rr_result f = r" "rr_masked f = ms" "rr_time f = now" "rr_ttl f = rc_ttl rc"
  shows "entries_traced (runs @ [f]) (cache_put now key r ms rc)"
proof -
  have "\<forall>x \<in> set (make_room now (rc_entries rc)). \<exists>f \<in> set runs. stored_by f x"
    using assms(1) make_room_subset [of now "rc_entries rc"] by (auto simp: entries_traced_def)
  then show ?thesis
    using assms by (auto simp: entries_traced_def cache_put_def stored_by_def)
qed

lemma execute_fresh_traced:
  assumes "entries_traced runs (sv_cache s)" "execute_fresh env pii pid sql opts s = (x, s')"
  shows "(case x of Inl _ \<Rightarrow> entries_traced runs (sv_cache s')
    | Inr a \<Rightarrow> \<not> sr_cached a \<and> entries_traced (runs @ [run_of env pid sql opts s a]) (sv_cache s'))"
proof (cases "execute env pid sql opts (sv_manager s)")
  case (Pair y m)
  show ?thesis
  proof (cases y)
    case (Inr r0)
    obtain ms r where mr: "mask_pii_result pii r0 = (ms, r)" by fastforce
    have "entries_traced (runs @ [f]) (sv_cache s)" for f
      by (rule entries_traced_subset [OF assms(1)]) auto
    then show ?thesis
      using assms Pair Inr mr
      by (auto simp: execute_fresh_def run_of_def run_key_def intro!: entries_traced_put)
  qed (use assms Pair in \<open>auto simp: execute_fresh_def\<close>)
qed

lemma execute_guarded_traced:
  assumes "entries_traced runs (sv_cache s)" "execute_guarded env pii pid sql opts fresh s = (x, s')"
  shows "(case x of Inl _ \<Rightarrow> entries_traced runs (sv_cache s')
    | Inr a \<Rightarrow> if sr_cached a then entries_traced runs (sv_cache s') else
        entries_traced (runs @ [run_of env pid sql opts s a]) (sv_cache s'))"
proof (cases "fresh \<or> eo_preview opts")
  case True
  then show ?thesis
    using execute_fresh_traced [of runs s env pii pid sql opts x s'] assms
    by (auto simp: execute_guarded_def split: sum.splits)
next
  case False
  obtain g rc where g: "cache_get (ee_start env) (cache_key pid sql (eo_max_rows opts)) (sv_cache s) = (g, rc)" by fastforce
  have rc: "entries_traced runs rc" "rc_ttl rc = rc_ttl (sv_cache s)"
    using entries_traced_subset [OF assms(1) cache_get_subset] cache_get_ttl g by (metis order_refl snd_conv)+
  show ?thesis
  proof (cases g)
    case None
    then have "execute_fresh env pii pid sql opts (s\<lparr>sv_cache := rc\<rparr>) = (x, s')"
      using False g assms(2) by (simp add: execute_guarded_def)
    then show ?thesis
      using execute_fresh_traced [of runs "s\<lparr>sv_cache := rc\<rparr>" env pii pid sql opts x s'] rc
      by (auto simp: run_of_def split: sum.splits)
  qed (use False g assms(2) rc in \<open>auto simp: execute_guarded_def\<close>)
qed

lemma traced_entries: "traced pii runs s \<Longrightarrow> entries_traced runs (sv_cache s)"
proof (induction rule: traced.induct)
  case Start
  show ?case
    by (simp add: entries_traced_def new_server_def new_result_cache_def)
next
  case (Executed runs s env pid sql opts fresh a s')
  then show ?case
    using execute_guarded_traced [OF Executed.IH Executed.hyps(2)] by simp
next
  case (Not_Executed runs s env pid sql opts fresh x s')
  then show ?case
    using execute_guarded_traced [OF Not_Executed.IH Not_Executed.hyps(2)] by (cases x) auto
next
  case (Ttl runs s n)
  then show ?case
    by (auto simp: entries_traced_def set_ttl_def Let_def)
qed simp

text \<open>A key determines profile, text and limit: the limit has no zero byte, and profile names have none.\<close>

lemma split_last_NUL:
  "xs @ [z] @ ys = xs' @ [z] @ ys' \<Longrightarrow> z \<notin> set ys \<Longrightarrow> z \<notin> set ys' \<Longrightarrow> xs = xs' \<and> ys = ys'"
  by (auto simp: append_eq_append_conv2 Cons_eq_append_conv append_eq_Cons_conv)

lemma split_first_NUL:
  "xs @ [z] @ ys = xs' @ [z] @ ys' \<Longrightarrow> z \<notin> set xs \<Longrightarrow> z \<notin> set xs' \<Longrightarrow> xs = xs' \<and> ys = ys'"
  by (auto simp: append_eq_append_conv2 Cons_eq_append_conv append_eq_Cons_conv)

lemma cache_key_inj:
  assumes "cache_key p q n = cache_key p' q' n'" "CHR 0x00 \<notin> set p" "CHR 0x00 \<notin> set p'"
  shows "p = p' \<and> trim_space q = trim_space q' \<and> n = n'"
proof -
  have "(p @ [CHR 0x00] @ trim_space q) @ [CHR 0x00] @ show_int n = (p' @ [CHR 0x00] @ trim_space q') @ [CHR 0x00] @ show_int n'"
    using assms(1) by (simp add: cache_key_def)
  note parts = split_last_NUL [OF this show_int_no_NUL show_int_no_NUL]
  then show ?thesis
    using split_first_NUL [OF conjunct1 [OF parts] assms(2,3)] show_int_inj by blast
qed

text \<open>
  C19. Cached answers are the recent answers of executed calls: when \<open>executeGuarded\<close> answers from the
  cache, the call asked for neither a fresh run nor a preview, no statement is sent and nothing else
  of the connection manager changes, and an earlier executed call with the same profile, the same
  text up to surrounding white space and the same row limit was answered with exactly this masked
  result, at most the lifetime set at that time ago.
\<close>

theorem cached_answer_was_executed:
  assumes "traced pii runs s" "execute_guarded env pii pid sql opts fresh s = (Inr a, s')" "sr_cached a"
    and "\<forall>p \<in> insert pid (rr_pid ` set runs). CHR 0x00 \<notin> set p"
  shows "\<not> fresh \<and> \<not> eo_preview opts \<and> sv_manager s' = sv_manager s \<and>
    (\<exists>f \<in> set runs. rr_pid f = pid \<and> trim_space (rr_sql f) = trim_space sql \<and> rr_max_rows f = eo_max_rows opts \<and>
      rr_result f = sr_result a \<and> rr_masked f = sr_masked a \<and> ee_start env \<le> rr_time f + rr_ttl f * 1000)"
proof -
  note hit = cached_answer_get [OF assms(2,3)]
  then obtain e where e: "(cache_key pid sql (eo_max_rows opts), e) \<in> set (rc_entries (sv_cache s))" "ce_result e = sr_result a"
      "ce_masked e = sr_masked a" "ee_start env \<le> ce_expires e"
    by (metis cache_get_entry)
  then obtain f where f: "f \<in> set runs" "stored_by f (cache_key pid sql (eo_max_rows opts), e)"
    using traced_entries [OF assms(1)] by (auto simp: entries_traced_def)
  then have "rr_pid f = pid \<and> trim_space (rr_sql f) = trim_space sql \<and> rr_max_rows f = eo_max_rows opts"
    using cache_key_inj [of "rr_pid f" "rr_sql f" "rr_max_rows f" pid sql "eo_max_rows opts"] assms(4)
    by (auto simp: stored_by_def run_key_def)
  then show ?thesis
    using hit e f by (auto simp: stored_by_def)
qed

text \<open>
  The key holds neither the bind variables nor anything of the profile's definition: after an
  executed call, a call with other binds, or after the profile was changed, still gets the old
  result (\<open>env'\<close>, \<open>b\<close> and the user are arbitrary).
\<close>

lemma other_binds_get_old_result:
  assumes "execute env pid sql opts (sv_manager s) = (Inr r, m)" "\<not> eo_preview opts"
    and "0 < rc_ttl (sv_cache s)" "qr_row_count r \<le> cache_max_rows" "ee_start env' \<le> ee_end env + rc_ttl (sv_cache s) * 1000"
  shows "\<exists>a. fst (execute_guarded env pii pid sql opts True s) = Inr a \<and>
    fst (execute_guarded env' pii pid sql (opts\<lparr>eo_binds := b, eo_user := u\<rparr>) False
      (snd (execute_guarded env pii pid sql opts True s))) = Inr (a\<lparr>sr_cached := True\<rparr>)"
proof -
  obtain ms r' where mr: "mask_pii_result pii r = (ms, r')" by fastforce
  have "qr_row_count r' = qr_row_count r"
    using mr by (rule mask_row_count)
  then show ?thesis
    using assms mr
    by (simp add: execute_guarded_def execute_fresh_def cache_get_def cache_put_def cache_enabled_def)
qed

subsection \<open>A concrete server\<close>

definition plain_profile :: profile where
  "plain_profile = with_defaults (demo_profile \<lparr>pr_policy := (pr_policy demo_profile) \<lparr>po_plan_gate := Some False\<rparr>\<rparr>)"

definition table_env :: "int \<Rightarrow> exec_env" where
  "table_env now = (demo_env 3) \<lparr>ee_get := (\<lambda>_. Inr plain_profile), ee_guard := (\<lambda>d sql ks. None), ee_start := now, ee_end := now + 5\<rparr>"

lemma plain_profile_fields:
  "cost_guard (pr_policy plain_profile) = False" "plan_gate_enabled (pr_policy plain_profile) = False"
  "effective_max_rows (pr_policy plain_profile) demo_options = 100" "po_max_bytes (pr_policy plain_profile) = 10485760"
  "dialect_for (pr_type plain_profile) = Some Postgres" "pr_id plain_profile = ''dw''" "pr_password_ref plain_profile = ''env:PW''"
  by code_simp+

lemma table_run_for:
  assumes "get ''dw'' = Inr plain_profile"
  shows "\<exists>r m. execute ((table_env now)\<lparr>ee_get := get\<rparr>) ''dw'' ''SELECT a'' (demo_options\<lparr>eo_user := u\<rparr>) new_manager = (Inr r, m) \<and>
    qr_row_count r = 3"
proof -
  let ?env = "(table_env now)\<lparr>ee_get := get\<rparr>"
  have db: "db_for ?env plain_profile new_manager = (None, new_manager \<lparr>mg_pools := [''dw'' \<mapsto> []]\<rparr>)"
    by (simp add: db_for_def table_env_def demo_env_def new_manager_def plain_profile_fields resolve_password_def demo_secret Let_def)
  have q: "ee_query (table_env now) pid stmt binds = Inr \<lparr>cu_columns = Inr [(''a'', ''int4'')],
      cu_rows = [Row [V_Text ''1''], Row [V_Text ''2''], Row [V_Text ''3'']], cu_end = None\<rparr>" for pid stmt binds
    by (simp add: table_env_def demo_env_def)
  have "effective_max_rows pol (demo_options\<lparr>eo_user := u\<rparr>) = effective_max_rows pol demo_options" for pol
    by (simp add: effective_max_rows_def)
  then have eff: "effective_max_rows (pr_policy plain_profile) (demo_options\<lparr>eo_user := u\<rparr>) = 100"
    using plain_profile_fields(3) by simp
  have "passes_guards ?env ''dw'' ''SELECT a'' new_manager plain_profile Postgres"
    using assms by (simp add: passes_guards_def resolve_def table_env_def plain_profile_fields breaker_check_def new_manager_def)
  then show ?thesis
    by (simp add: execute_unfold plan_gate_def plain_profile_fields run_query_def db q eff Let_def scan_rows_def row_bytes_def)
qed

lemma table_run:
  "\<exists>r m. execute (table_env now) ''dw'' ''SELECT a'' demo_options new_manager = (Inr r, m) \<and> qr_row_count r = 3"
proof -
  have "(table_env now)\<lparr>ee_get := \<lambda>_. Inr plain_profile\<rparr> = table_env now" "demo_options\<lparr>eo_user := ''u''\<rparr> = demo_options"
    by (simp_all add: table_env_def demo_env_def demo_options_def)
  then show ?thesis
    using table_run_for [of "\<lambda>_. Inr plain_profile" now "''u''"] by simp
qed

text \<open>A call at time 0 is executed, the same call 30 seconds later is answered from the cache.\<close>

definition first_call :: "string list \<Rightarrow> (exec_error + served) \<times> server" where
  "first_call pii = execute_guarded (table_env 0) pii ''dw'' ''SELECT a'' demo_options False new_server"

lemma first_call_executed:
  obtains a where "fst (first_call pii) = Inr a" "\<not> sr_cached a"
    "fst (execute_guarded (table_env 30000) pii ''dw'' '' SELECT a '' demo_options False (snd (first_call pii))) = Inr (a\<lparr>sr_cached := True\<rparr>)"
proof -
  obtain r m where rm: "execute (table_env 0) ''dw'' ''SELECT a'' demo_options new_manager = (Inr r, m)" "qr_row_count r = 3"
    using table_run by blast
  obtain ms r' where mr: "mask_pii_result pii r = (ms, r')" by fastforce
  then have "qr_row_count r' = 3"
    using rm(2) mask_row_count by simp
  moreover have "\<not> eo_preview demo_options" "trim_space '' SELECT a '' = ''SELECT a''" "trim_space ''SELECT a'' = ''SELECT a''"
    by code_simp+
  ultimately show ?thesis
    using rm mr that
    by (simp add: first_call_def execute_guarded_def execute_fresh_def cache_get_def cache_put_def cache_enabled_def
        new_server_def new_result_cache_def default_cache_ttl_def cache_max_rows_def cache_key_def table_env_def)
qed

lemma first_call_traced: "\<exists>runs. rr_pid ` set runs = {''dw''} \<and> traced pii runs (snd (first_call pii))"
proof -
  obtain a where a: "fst (first_call pii) = Inr a" "\<not> sr_cached a"
    using first_call_executed by blast
  then have "execute_guarded (table_env 0) pii ''dw'' ''SELECT a'' demo_options False new_server = (Inr a, snd (first_call pii))"
    by (simp add: first_call_def prod_eq_iff)
  note traced.Executed [OF traced.Start this a(2)]
  moreover have "rr_pid ` set ([] @ [run_of (table_env 0) ''dw'' ''SELECT a'' demo_options new_server a]) = {''dw''}"
    by (simp add: run_of_def)
  ultimately show ?thesis
    by blast
qed

theorem cached_answer_was_executed_witness:
  "\<exists>a s'. execute_guarded (table_env 30000) [''A''] ''dw'' '' SELECT a '' demo_options False (snd (first_call [''A''])) = (Inr a, s') \<and>
     sr_cached a \<and> sv_manager s' = sv_manager (snd (first_call [''A'']))"
proof -
  obtain a where a: "fst (execute_guarded (table_env 30000) [''A''] ''dw'' '' SELECT a '' demo_options False (snd (first_call [''A'']))) = Inr (a\<lparr>sr_cached := True\<rparr>)"
    using first_call_executed by metis
  obtain s' where s': "execute_guarded (table_env 30000) [''A''] ''dw'' '' SELECT a '' demo_options False (snd (first_call [''A''])) = (Inr (a\<lparr>sr_cached := True\<rparr>), s')"
    using a by (metis prod.collapse)
  obtain runs where runs: "rr_pid ` set runs = {''dw''}" "traced [''A''] runs (snd (first_call [''A'']))"
    using first_call_traced by blast
  then show ?thesis
    using cached_answer_was_executed [OF runs(2) s'] s' by simp
qed


end
