(* ===== verification/Async_Jobs.thy ===== *)
theory Async_Jobs
  imports Result_Cache
begin

text \<open>
  Asynchronous queries (\<open>internal/mcp/asyncquery.go\<close>, with the handlers of \<open>internal/mcp/dbapi.go\<close> that
  show and cancel a job). The job table is a Go map, here a list with one element for an id. A
  submission registers a job and starts a goroutine; its end is an operation of its own, which runs
  \<open>executeGuarded\<close> and stores the outcome. Times are in milliseconds; hints and diagnoses, which are
  computed from the outcome, are left out, and a cancelled context only influences what the
  environment of the run answers.

  The lemmas show the limits of the table, that nothing but masked results are kept, and that the
  outcome of a job can be fetched for ten minutes.
\<close>

datatype job_status = Job_Running | Job_Done | Job_Failed

record job =
  jb_id :: string
  jb_profile :: string
  jb_sql :: string
  jb_user :: string
  jb_opts :: exec_options
  jb_status :: job_status
  jb_error :: "exec_error option"
  jb_result :: "served option"
  jb_started :: int
  jb_finished :: "int option"
  jb_cancelled :: bool

definition job_result_ttl :: int where "job_result_ttl = 10 * 60 * 1000"
definition job_max_per_user :: nat where "job_max_per_user = 5"
definition job_max_total :: nat where "job_max_total = 200"

datatype job_refusal = Store_Full | Too_Many_Running

definition prune_jobs :: "int \<Rightarrow> job list \<Rightarrow> job list" where
  "prune_jobs now js =
     filter (\<lambda>j. case jb_finished j of None \<Rightarrow> True | Some t \<Rightarrow> \<not> now - t > job_result_ttl) js"

definition running_for :: "string \<Rightarrow> job list \<Rightarrow> nat" where
  "running_for user js = length (filter (\<lambda>j. jb_status j = Job_Running \<and> jb_user j = user) js)"

definition new_job :: "int \<Rightarrow> string \<Rightarrow> string \<Rightarrow> string \<Rightarrow> string \<Rightarrow> exec_options \<Rightarrow> job" where
  "new_job now new_id pid sql user opts =
     \<lparr>jb_id = new_id, jb_profile = pid, jb_sql = sql, jb_user = user, jb_opts = opts, jb_status = Job_Running,
      jb_error = None, jb_result = None, jb_started = now, jb_finished = None, jb_cancelled = False\<rparr>"

definition submit_async_query ::
  "int \<Rightarrow> string \<Rightarrow> string \<Rightarrow> string \<Rightarrow> string \<Rightarrow> exec_options \<Rightarrow> job list \<Rightarrow> (job_refusal + job) \<times> job list" where
  "submit_async_query now new_id pid sql user opts js0 =
     (let js = prune_jobs now js0 in
      if length js \<ge> job_max_total then (Inl Store_Full, js)
      else if running_for user js \<ge> job_max_per_user then (Inl Too_Many_Running, js)
      else let j = new_job now new_id pid sql user opts in (Inr j, filter (\<lambda>x. jb_id x \<noteq> new_id) js @ [j]))"

definition job_view :: "string \<Rightarrow> job list \<Rightarrow> job option" where
  "job_view i js = find (\<lambda>j. jb_id j = i) js"

definition update_job :: "string \<Rightarrow> (job \<Rightarrow> job) \<Rightarrow> job list \<Rightarrow> job list" where
  "update_job i f js = map (\<lambda>j. if jb_id j = i then f j else j) js"

text \<open>\<open>cancelJob\<close>: the job goes on until its goroutine ends.\<close>

definition cancel_job :: "string \<Rightarrow> string \<Rightarrow> bool \<Rightarrow> job list \<Rightarrow> bool \<times> job list" where
  "cancel_job i user admin js =
     (case job_view i js of
        None \<Rightarrow> (False, js)
      | Some j \<Rightarrow>
          if \<not> admin \<and> jb_user j \<noteq> user then (False, js)
          else (True, if jb_status j = Job_Running then update_job i (\<lambda>j. j \<lparr>jb_cancelled := True\<rparr>) js else js))"

datatype view_refusal = No_Such_Job | Not_Your_Job

definition show_job :: "string \<Rightarrow> string \<Rightarrow> bool \<Rightarrow> job list \<Rightarrow> view_refusal + job" where
  "show_job i user admin js =
     (case job_view i js of
        None \<Rightarrow> Inl No_Such_Job
      | Some j \<Rightarrow> if \<not> admin \<and> jb_user j \<noteq> user then Inl Not_Your_Job else Inr j)"

text \<open>The goroutine of a job: what it stores at the end.\<close>

definition job_outcome :: "int \<Rightarrow> exec_error + served \<Rightarrow> job \<Rightarrow> job" where
  "job_outcome now x j =
     (case x of
        Inl e \<Rightarrow> j \<lparr>jb_finished := Some now, jb_status := Job_Failed, jb_error := Some e\<rparr>
      | Inr a \<Rightarrow> j \<lparr>jb_finished := Some now, jb_status := Job_Done, jb_result := Some a\<rparr>)"

record workbench =
  wb_server :: server
  wb_jobs :: "job list"
  wb_clock :: int

definition run_job :: "exec_env \<Rightarrow> string list \<Rightarrow> int \<Rightarrow> job \<Rightarrow> workbench \<Rightarrow> workbench" where
  "run_job env pii now j w =
     (case execute_guarded env pii (jb_profile j) (jb_sql j) (jb_opts j) True (wb_server w) of (x, sv) \<Rightarrow>
       w \<lparr>wb_server := sv, wb_jobs := update_job (jb_id j) (job_outcome now x) (wb_jobs w)\<rparr>)"

subsection \<open>Runs\<close>

text \<open>
  Submissions get new ids; every running job may end at any time, and everything else the server
  does happens in between. The clock does not go back.
\<close>

inductive job_step :: "string list \<Rightarrow> workbench \<Rightarrow> workbench \<Rightarrow> bool" for pii where
  Submit: "i \<notin> jb_id ` set (wb_jobs w) \<Longrightarrow> wb_clock w \<le> now \<Longrightarrow>
    job_step pii w (w \<lparr>wb_jobs := snd (submit_async_query now i pid sql user opts (wb_jobs w)), wb_clock := now\<rparr>)"
| Finish: "j \<in> set (wb_jobs w) \<Longrightarrow> jb_status j = Job_Running \<Longrightarrow> wb_clock w \<le> now \<Longrightarrow>
    job_step pii w ((run_job env pii now j w) \<lparr>wb_clock := now\<rparr>)"
| Cancel: "job_step pii w (w \<lparr>wb_jobs := snd (cancel_job i user admin (wb_jobs w))\<rparr>)"
| Server: "server_step pii (wb_server w) sv \<Longrightarrow> job_step pii w (w \<lparr>wb_server := sv\<rparr>)"

definition new_workbench :: "int \<Rightarrow> workbench" where
  "new_workbench now = \<lparr>wb_server = new_server, wb_jobs = [], wb_clock = now\<rparr>"

subsection \<open>The invariant of the table\<close>

definition masked_outcome :: "string list \<Rightarrow> job \<Rightarrow> bool" where
  "masked_outcome pii j \<longleftrightarrow> (\<forall>a. jb_result j = Some a \<longrightarrow> (\<forall>row \<in> set (qr_rows (sr_result a)). hides pii row))"

definition job_shape :: "job \<Rightarrow> bool" where
  "job_shape j \<longleftrightarrow> (jb_status j = Job_Running \<longleftrightarrow> jb_finished j = None) \<and> (jb_status j = Job_Done \<longleftrightarrow> jb_result j \<noteq> None)
     \<and> (jb_status j = Job_Failed \<longleftrightarrow> jb_error j \<noteq> None)"

definition jobs_ok :: "string list \<Rightarrow> job list \<Rightarrow> bool" where
  "jobs_ok pii js \<longleftrightarrow> distinct (map jb_id js) \<and> length js \<le> job_max_total \<and> (\<forall>u. running_for u js \<le> job_max_per_user) \<and>
     (\<forall>j \<in> set js. job_shape j \<and> masked_outcome pii j)"

lemma running_for_filter: "running_for u (filter P js) \<le> running_for u js"
  by (induction js) (auto simp: running_for_def)

lemma running_for_snoc: "running_for u (js @ [j]) = running_for u js + (if jb_status j = Job_Running \<and> jb_user j = u then 1 else 0)"
  by (simp add: running_for_def)

lemma distinct_ids_filter: "distinct (map jb_id js) \<Longrightarrow> distinct (map jb_id (filter P js))"
  by (induction js) auto

lemma jobs_ok_filter:
  assumes "jobs_ok pii js"
  shows "jobs_ok pii (filter P js)"
proof -
  have "running_for u (filter P js) \<le> job_max_per_user" for u
    using running_for_filter [of u P js] assms le_trans unfolding jobs_ok_def by blast
  moreover have "length (filter P js) \<le> job_max_total"
    using assms length_filter_le le_trans unfolding jobs_ok_def by blast
  ultimately show ?thesis
    using assms by (simp add: jobs_ok_def distinct_ids_filter)
qed

lemma length_filter_map_le:
  "(\<And>x. P (g x) \<Longrightarrow> Q x) \<Longrightarrow> length (filter P (map g xs)) \<le> length (filter Q xs)"
  by (induction xs) (auto simp: le_SucI)

lemma map_id_update [simp]: "(\<And>j. jb_id (f j) = jb_id j) \<Longrightarrow> map jb_id (update_job i f js) = map jb_id js"
  by (simp add: update_job_def)

lemma running_for_update:
  assumes "\<And>j. jb_user (f j) = jb_user j" "\<And>j. jb_status (f j) = Job_Running \<Longrightarrow> jb_status j = Job_Running"
  shows "running_for u (update_job i f js) \<le> running_for u js"
  unfolding running_for_def update_job_def
  by (rule length_filter_map_le) (use assms in \<open>auto split: if_splits\<close>)

lemma jobs_ok_update:
  assumes "jobs_ok pii js" "\<And>j. jb_id (f j) = jb_id j" "\<And>j. jb_user (f j) = jb_user j"
    and "\<And>j. jb_status (f j) = Job_Running \<Longrightarrow> jb_status j = Job_Running"
    and "\<And>j. j \<in> set js \<Longrightarrow> jb_id j = i \<Longrightarrow> job_shape (f j) \<and> masked_outcome pii (f j)"
  shows "jobs_ok pii (update_job i f js)"
proof -
  have "running_for u (update_job i f js) \<le> job_max_per_user" for u
    using running_for_update [of f u i js] assms(1,3,4) by (auto simp: jobs_ok_def intro: le_trans)
  moreover have "\<forall>j \<in> set (update_job i f js). job_shape j \<and> masked_outcome pii j"
    using assms(1,5) by (auto simp: jobs_ok_def update_job_def)
  ultimately show ?thesis
    using assms(1,2) by (simp add: jobs_ok_def) (simp add: update_job_def)
qed

lemma jobs_ok_submit:
  assumes "jobs_ok pii js"
  shows "jobs_ok pii (snd (submit_async_query now i pid sql user opts js))"
proof -
  have ok: "jobs_ok pii (prune_jobs now js)" "jobs_ok pii (filter (\<lambda>x. jb_id x \<noteq> i) (prune_jobs now js))"
    using assms by (simp_all add: prune_jobs_def jobs_ok_filter)
  have le: "running_for u (filter (\<lambda>x. jb_id x \<noteq> i) (prune_jobs now js)) \<le> running_for u (prune_jobs now js)"
    "length (filter (\<lambda>x. jb_id x \<noteq> i) (prune_jobs now js)) \<le> length (prune_jobs now js)" for u
    by (rule running_for_filter) simp
  have "jobs_ok pii (filter (\<lambda>x. jb_id x \<noteq> i) (prune_jobs now js) @ [new_job now i pid sql user opts])"
    if "length (prune_jobs now js) < job_max_total" "running_for user (prune_jobs now js) < job_max_per_user"
  proof -
    have "running_for u (filter (\<lambda>x. jb_id x \<noteq> i) (prune_jobs now js) @ [new_job now i pid sql user opts]) \<le> job_max_per_user" for u
      using ok(2) le(1) [of u] that(2) by (auto simp: running_for_snoc new_job_def jobs_ok_def)
    moreover have "job_shape (new_job now i pid sql user opts)" "masked_outcome pii (new_job now i pid sql user opts)"
      by (simp_all add: job_shape_def masked_outcome_def new_job_def)
    moreover have "jb_id (new_job now i pid sql user opts) = i"
      by (simp add: new_job_def)
    ultimately show ?thesis
      using ok(2) le_less_trans [OF le(2) that(1)] by (auto simp: jobs_ok_def)
  qed
  then show ?thesis
    using ok(1) by (auto simp: submit_async_query_def Let_def)
qed

lemma jobs_ok_cancel:
  assumes "jobs_ok pii js"
  shows "jobs_ok pii (snd (cancel_job i user admin js))"
proof -
  have "jobs_ok pii (update_job i (\<lambda>j. j \<lparr>jb_cancelled := True\<rparr>) js)"
    using assms by (intro jobs_ok_update) (auto simp: jobs_ok_def job_shape_def masked_outcome_def)
  then show ?thesis
    using assms by (simp add: cancel_job_def split: option.split)
qed

lemma jobs_ok_finish:
  assumes "jobs_ok pii js" "j \<in> set js" "jb_status j = Job_Running"
    and "\<And>a. x = Inr a \<Longrightarrow> \<forall>row \<in> set (qr_rows (sr_result a)). hides pii row"
  shows "jobs_ok pii (update_job (jb_id j) (job_outcome now x) js)"
proof (rule jobs_ok_update [OF assms(1)])
  fix k
  assume k: "k \<in> set js" "jb_id k = jb_id j"
  then have "k = j"
    using assms(1,2) by (auto simp: jobs_ok_def distinct_map inj_on_def)
  then show "job_shape (job_outcome now x k) \<and> masked_outcome pii (job_outcome now x k)"
    using assms by (cases x) (auto simp: job_outcome_def job_shape_def masked_outcome_def jobs_ok_def)
qed (auto simp: job_outcome_def split: sum.splits)

definition workbench_ok :: "string list \<Rightarrow> workbench \<Rightarrow> bool" where
  "workbench_ok pii w \<longleftrightarrow> jobs_ok pii (wb_jobs w) \<and> cache_ok pii (sv_cache (wb_server w))"

lemma workbench_ok_finish:
  assumes "workbench_ok pii w" "j \<in> set (wb_jobs w)" "jb_status j = Job_Running"
  shows "workbench_ok pii (run_job env pii now j w)"
proof -
  obtain x sv where x: "execute_guarded env pii (jb_profile j) (jb_sql j) (jb_opts j) True (wb_server w) = (x, sv)" by fastforce
  have "cache_ok pii (sv_cache sv)"
    using execute_guarded_cache [of pii "wb_server w" env "jb_profile j" "jb_sql j" "jb_opts j" True] assms(1)
    by (simp add: workbench_ok_def x)
  moreover have "\<forall>row \<in> set (qr_rows (sr_result a)). hides pii row" if "x = Inr a" for a
    using execute_guarded_hides x that assms(1) by (auto simp: workbench_ok_def)
  ultimately show ?thesis
    using jobs_ok_finish [of pii "wb_jobs w" j x now] assms by (simp add: workbench_ok_def run_job_def x)
qed

lemma server_step_cache: "server_step pii s s' \<Longrightarrow> cache_ok pii (sv_cache s) \<Longrightarrow> cache_ok pii (sv_cache s')"
  by (cases rule: server_step.cases) (auto intro: inv_intros)

lemma workbench_ok_step:
  assumes "job_step pii w w'" "workbench_ok pii w"
  shows "workbench_ok pii w'"
  using assms(1)
proof cases
  case (Finish j now env)
  then show ?thesis
    using workbench_ok_finish [of pii w j env now] assms(2) by (simp add: workbench_ok_def)
qed (use assms(2) in \<open>auto simp: workbench_ok_def jobs_ok_submit jobs_ok_cancel dest: server_step_cache\<close>)

lemma workbench_ok_run: "(job_step pii)\<^sup>*\<^sup>* (new_workbench t) w \<Longrightarrow> workbench_ok pii w"
proof (induction rule: rtranclp_induct)
  case base
  show ?case
    using cache_ok_new by (simp add: workbench_ok_def new_workbench_def new_server_def jobs_ok_def running_for_def)
qed (rule workbench_ok_step)


lemma job_view_update_other: "(\<And>k. jb_id (f k) = jb_id k) \<Longrightarrow> i' \<noteq> i \<Longrightarrow> job_view i (update_job i' f js) = job_view i js"
  by (induction js) (auto simp: job_view_def update_job_def)

lemma job_view_prune:
  assumes "job_view i js = Some j" "jb_finished j = Some t" "now \<le> t + job_result_ttl"
  shows "job_view i (prune_jobs now js) = Some j"
  using assms by (induction js) (auto simp: job_view_def prune_jobs_def split: if_splits)

lemma job_view_in: "job_view i js = Some j \<Longrightarrow> j \<in> set js \<and> jb_id j = i"
  by (auto simp: job_view_def find_Some_iff)

lemma job_view_append: "job_view i js = Some j \<Longrightarrow> job_view i (js @ ks) = Some j"
  by (simp add: job_view_def find_append_Some)

lemma job_clock: "job_step pii w w' \<Longrightarrow> wb_clock w \<le> wb_clock w'"
  by (cases rule: job_step.cases) auto

lemma job_view_submit:
  assumes "job_view i js = Some j" "jb_finished j = Some t" "now \<le> t + job_result_ttl" "i' \<notin> jb_id ` set js"
  shows "job_view i (snd (submit_async_query now i' pid sql user opts js)) = Some j"
proof -
  have "filter (\<lambda>x. jb_id x \<noteq> i') (prune_jobs now js) = prune_jobs now js"
    unfolding filter_id_conv using assms(4) by (auto simp: prune_jobs_def)
  then show ?thesis
    using job_view_prune [OF assms(1-3)] by (simp add: submit_async_query_def Let_def job_view_append)
qed

lemma finished_job_step:
  assumes "job_step pii w w'" "workbench_ok pii w" "job_view i (wb_jobs w) = Some j" "jb_finished j = Some t"
    and "wb_clock w' \<le> t + job_result_ttl"
  shows "job_view i (wb_jobs w') = Some j"
proof -
  have stopped: "jb_status j \<noteq> Job_Running"
    using assms(2,3,4) by (auto simp: workbench_ok_def jobs_ok_def job_shape_def dest: job_view_in)
  show ?thesis
    using assms(1)
  proof cases
    case (Submit i' now pid sql user opts)
    then show ?thesis
      using job_view_submit [OF assms(3,4)] assms(5) by simp
  next
    case (Finish k now env)
    then have "jb_id k \<noteq> i"
      using stopped assms(2,3) by (auto simp: workbench_ok_def jobs_ok_def distinct_map inj_on_def dest!: job_view_in)
    then show ?thesis
      using Finish assms(3)
      by (auto simp: run_job_def job_view_update_other job_outcome_def split: prod.split sum.split)
  next
    case (Cancel i' user admin)
    have "job_view i (update_job i' (\<lambda>j. j \<lparr>jb_cancelled := True\<rparr>) (wb_jobs w)) = Some j"
      if "job_view i' (wb_jobs w) = Some k" "jb_status k = Job_Running" for k
      using that stopped assms(3) job_view_update_other [of "\<lambda>j. j \<lparr>jb_cancelled := True\<rparr>" i' i "wb_jobs w"]
      by (cases "i' = i") auto
    then show ?thesis
      using Cancel assms(3) by (auto simp: cancel_job_def split: option.split)
  next
    case (Server sv)
    then show ?thesis
      using assms(3) by simp
  qed
qed

text \<open>
  C32. The outcome of a job stays available: once a job has ended, every later poll within ten
  minutes finds it with its status, its error and its result unchanged, whatever is submitted,
  cancelled or finished in between, and its owner and administrators can see it.
\<close>

theorem finished_job_available:
  assumes "(job_step pii)\<^sup>*\<^sup>* (new_workbench t0) w" "job_view i (wb_jobs w) = Some j" "jb_finished j = Some t"
    and "(job_step pii)\<^sup>*\<^sup>* w w'" "wb_clock w' \<le> t + job_result_ttl"
  shows "show_job i (jb_user j) admin (wb_jobs w') = Inr j \<and> show_job i user True (wb_jobs w') = Inr j"
proof -
  have "workbench_ok pii w' \<and> job_view i (wb_jobs w') = Some j"
    using assms(4,5)
  proof (induction rule: rtranclp_induct)
    case base
    show ?case
      using workbench_ok_run [OF assms(1)] assms(2) by simp
  next
    case (step y z)
    then have "workbench_ok pii y \<and> job_view i (wb_jobs y) = Some j"
      using job_clock [OF step.hyps(2)] by simp
    then show ?case
      using workbench_ok_step finished_job_step [OF step.hyps(2) _ _ assms(3) step.prems] step.hyps(2) by blast
  qed
  then show ?thesis
    by (simp add: show_job_def)
qed

subsection \<open>A concrete job\<close>

definition demo_job :: job where
  "demo_job = new_job 10 ''job_a'' ''dw'' ''SELECT a'' ''kim'' demo_options"

definition submitted :: workbench where
  "submitted = (new_workbench 0) \<lparr>wb_jobs := snd (submit_async_query 10 ''job_a'' ''dw'' ''SELECT a'' ''kim'' demo_options []), wb_clock := 10\<rparr>"

definition ended :: workbench where
  "ended = (run_job (table_env 10) [''A''] 20 demo_job submitted) \<lparr>wb_clock := 20\<rparr>"

definition cancelled_after :: workbench where
  "cancelled_after = ended \<lparr>wb_jobs := snd (cancel_job ''job_a'' ''kim'' False (wb_jobs ended))\<rparr>"

lemma submitted_jobs: "wb_jobs submitted = [demo_job]"
  by (simp add: submitted_def submit_async_query_def prune_jobs_def running_for_def job_max_total_def job_max_per_user_def
      demo_job_def Let_def)

lemma submitted_run: "(job_step [''A''])\<^sup>*\<^sup>* (new_workbench 0) submitted"
  unfolding submitted_def using job_step.Submit [of "''job_a''" "new_workbench 0" 10 "[''A'']"]
  by (intro r_into_rtranclp) (simp add: new_workbench_def)

lemma ended_run: "job_step [''A''] submitted ended"
  unfolding ended_def by (rule job_step.Finish) (simp_all add: submitted_jobs demo_job_def new_job_def, simp add: submitted_def)

lemma ended_job:
  obtains j where "job_view ''job_a'' (wb_jobs ended) = Some j" "jb_finished j = Some 20" "jb_user j = ''kim''" "jb_status j = Job_Done"
proof -
  have "wb_server submitted = new_server"
    by (simp add: submitted_def new_workbench_def)
  moreover obtain r m where "execute (table_env 10) ''dw'' ''SELECT a'' demo_options new_manager = (Inr r, m)"
    using table_run by blast
  moreover obtain ms r' where "mask_pii_result [''A''] r = (ms, r')" by fastforce
  ultimately show ?thesis
    using that [of "job_outcome 20 (Inr \<lparr>sr_result = r', sr_masked = ms, sr_cached = False\<rparr>) demo_job"]
    by (simp add: ended_def run_job_def demo_job_def new_job_def execute_guarded_def execute_fresh_def new_server_def
        update_job_def job_view_def job_outcome_def submitted_jobs)
qed

theorem finished_job_available_witness:
  "\<exists>j. jb_status j = Job_Done \<and> show_job ''job_a'' ''kim'' False (wb_jobs cancelled_after) = Inr j"
proof -
  obtain j where j: "job_view ''job_a'' (wb_jobs ended) = Some j" "jb_finished j = Some 20" "jb_user j = ''kim''" "jb_status j = Job_Done"
    by (rule ended_job)
  have run: "(job_step [''A''])\<^sup>*\<^sup>* (new_workbench 0) ended"
    using submitted_run ended_run by (rule rtranclp.rtrancl_into_rtrancl)
  have later: "(job_step [''A''])\<^sup>*\<^sup>* ended cancelled_after"
    unfolding cancelled_after_def by (intro r_into_rtranclp job_step.Cancel)
  have "wb_clock cancelled_after \<le> 20 + job_result_ttl"
    by (simp add: cancelled_after_def ended_def job_result_ttl_def)
  from finished_job_available [OF run j(1,2) later this] show ?thesis
    using j(3,4) by metis
qed


end
