(* ===== verification/Dba_Pool.thy ===== *)
theory Dba_Pool
  imports Executor
begin

text \<open>
  The two paths around the read-only executor: queries of the server itself against the system
  catalogs (\<open>internal/dbconn/sysquery.go\<close>), and the privileged path for database administration
  (\<open>internal/dbconn/admin.go\<close>) with its own pools, built from the opt-in DBA credentials of a
  profile. A privileged source is printed and parsed again by the code to take the read-only flags
  out; here it stays the structure of \<open>Profiles\<close>. The state is the Go map of pools and the list of
  the statements sent, with the source each went to. Pool sizes and lifetimes are left out.

  The lemmas show that the privileged path is only open to profiles that opted in, and that every
  statement on it goes to a source with the DBA account of that profile.
\<close>

subsection \<open>System queries\<close>

definition system_query_max_rows :: nat where "system_query_max_rows = 500000"

definition profile_dialect :: "exec_env \<Rightarrow> string \<Rightarrow> exec_error + dialect" where
  "profile_dialect env pid = (case resolve env pid of Inl e \<Rightarrow> Inl e | Inr (p, d) \<Rightarrow> Inr d)"

fun collect_rows ::
  "string list \<Rightarrow> nat \<Rightarrow> cursor_row list \<Rightarrow> db_err option \<Rightarrow> (string \<Rightarrow> sql_value option) list \<Rightarrow>
     db_err + (string \<Rightarrow> sql_value option) list" where
  "collect_rows names n [] fin out = (case fin of Some e \<Rightarrow> Inl e | None \<Rightarrow> Inr out)"
| "collect_rows names n (r # rs) fin out =
     (if length out \<ge> n then Inr out
      else (case r of
          Scan_Error e \<Rightarrow> Inl e
        | Row vs \<Rightarrow> collect_rows names n rs fin (out @ [row_map names vs])))"

definition read_all :: "cursor \<Rightarrow> db_err + (string \<Rightarrow> sql_value option) list" where
  "read_all cu = bind_err (cu_columns cu) (\<lambda>cols. collect_rows (map fst cols) system_query_max_rows (cu_rows cu) (cu_end cu) [])"

definition system_query ::
  "exec_env \<Rightarrow> string \<Rightarrow> string \<Rightarrow> string list \<Rightarrow> manager \<Rightarrow> (exec_error + (string \<Rightarrow> sql_value option) list) \<times> manager" where
  "system_query env pid query args m =
     (case ee_get env pid of
        Inl e \<Rightarrow> (Inl (Ex_Profile e), m)
      | Inr p \<Rightarrow>
        (case breaker_check m (pr_id p) (ee_start env) of
           Some e \<Rightarrow> (Inl e, m)
         | None \<Rightarrow>
        (case db_for env p m of
           (Some e, m1) \<Rightarrow> (Inl e, breaker_record (pr_id p) False (ee_start env) m1)
         | (None, m1) \<Rightarrow>
             let m2 = send (pr_id p) query m1 in
             (case ee_query env (pr_id p) query args of
                Inl e \<Rightarrow> (Inl (Ex_Db e), breaker_record (pr_id p) False (ee_end env) m2)
              | Inr cu \<Rightarrow>
                  (case read_all cu of
                     Inl e \<Rightarrow> (Inl (Ex_Db e), m2)
                   | Inr rows \<Rightarrow> (Inr rows, breaker_record (pr_id p) True (ee_end env) m2))))))"

lemma collect_rows_length:
  "collect_rows names n rs fin out = Inr rows \<Longrightarrow> length out \<le> n \<Longrightarrow> length rows \<le> n"
proof (induction rs arbitrary: out)
  case (Cons r rs)
  then show ?case
    by (cases r) (auto split: if_splits)
qed (auto split: option.splits)

text \<open>Internal queries are bounded, touch neither history nor counters, and respect the breaker.\<close>

lemma system_query_bounded:
  assumes "system_query env pid query args m = (x, m')"
  shows "(\<forall>rows. x = Inr rows \<longrightarrow> length rows \<le> system_query_max_rows)
    \<and> mg_history m' = mg_history m \<and> mg_metrics m' = mg_metrics m
    \<and> (mg_sent m' = mg_sent m \<or> (\<exists>p. ee_get env pid = Inr p \<and> breaker_check m (pr_id p) (ee_start env) = None \<and>
        mg_sent m' = mg_sent m @ [(pr_id p, query)]))"
  using assms
  by (auto simp: system_query_def Let_def read_all_def err_simps split: sum.splits option.splits prod.splits
      dest!: db_for_frame collect_rows_length)

subsection \<open>The privileged source\<close>

record admin_env =
  ae_base :: exec_env
  ae_sha :: "string \<Rightarrow> string"
  ae_parse_url :: "string \<Rightarrow> source_url option"
  ae_parse_query :: "string \<Rightarrow> string \<Rightarrow> string list"
  ae_parse_dsn :: "string \<Rightarrow> mysql_config option"
  ae_open :: "source \<Rightarrow> db_err option"
  ae_exec :: "source \<Rightarrow> string \<Rightarrow> int \<Rightarrow> db_err + int"
  ae_query :: "source \<Rightarrow> string \<Rightarrow> string list \<Rightarrow> db_err + cursor"
  ae_text :: "db_err \<Rightarrow> string"

definition show_bool :: "bool \<Rightarrow> string" where
  "show_bool b = (if b then ''true'' else ''false'')"

definition signature_parts :: "profile \<Rightarrow> string list" where
  "signature_parts p = [pr_type p, pr_connect p] @
     (case pr_dba p of
        None \<Rightarrow> []
      | Some c \<Rightarrow> [show_bool (db_enabled c), db_username c, db_password_ref c, db_connect c])"

text \<open>\<open>adminSignature\<close>: \<open>sha\<close> gives the first eight bytes of SHA-256 in hexadecimal.\<close>

definition admin_signature :: "(string \<Rightarrow> string) \<Rightarrow> profile \<Rightarrow> string" where
  "admin_signature sha p = sha (join_with ''|'' (signature_parts p))"

definition dba_profile :: "profile \<Rightarrow> dba_config \<Rightarrow> profile" where
  "dba_profile p c = p \<lparr>pr_username := db_username c, pr_password_ref := db_password_ref c,
     pr_connect := (let cs = trim_space (db_connect c) in if cs \<noteq> [] then cs else pr_connect p)\<rparr>"

fun allow_writes :: "source \<Rightarrow> source" where
  "allow_writes (Pg_Source u) = Pg_Source (u \<lparr>su_query := (su_query u) (''default_transaction_read_only'' := [])\<rparr>)"
| "allow_writes (My_Source c) =
     My_Source (c \<lparr>mc_params := (mc_params c) (''tx_read_only'' := None, ''transaction_read_only'' := None)\<rparr>)"

definition build_admin_dsn :: "admin_env \<Rightarrow> dialect \<Rightarrow> profile \<Rightarrow> dba_config \<Rightarrow> string \<Rightarrow> dsn_error + source" where
  "build_admin_dsn env d p c password =
     bind_err (build_dsn d (ae_parse_url env) (ae_parse_query env) (ae_parse_dsn env) (dba_profile p c) password)
       (\<lambda>src. Inr (allow_writes src))"

subsection \<open>Privileged pools and operations\<close>

record admin_pool =
  ap_source :: source
  ap_sig :: string

record admin_state =
  ad_pools :: "string \<Rightarrow> admin_pool option"
  ad_sent :: "(string \<times> source \<times> string) list"

definition new_admin_state :: admin_state where
  "new_admin_state = \<lparr>ad_pools = Map.empty, ad_sent = []\<rparr>"

datatype admin_error =
    Ad_Profile string
  | Ad_Dialect
  | Ad_Not_Enabled string
  | Ad_Secret secret_error
  | Ad_Dsn dsn_error
  | Ad_Open db_err
  | Ad_Failed string
  | Ad_Rows db_err

definition build_pool :: "admin_env \<Rightarrow> profile \<Rightarrow> dba_config \<Rightarrow> admin_error + source" where
  "build_pool env p c =
     (case ee_secret (ae_base env) (db_password_ref c) of
        Inl e \<Rightarrow> Inl (Ad_Secret e)
      | Inr pw \<Rightarrow>
        (case dialect_for (pr_type p) of
           None \<Rightarrow> Inl Ad_Dialect
         | Some d \<Rightarrow>
        (case build_admin_dsn env d p c pw of
           Inl e \<Rightarrow> Inl (Ad_Dsn e)
         | Inr src \<Rightarrow> (case ae_open env src of Some e \<Rightarrow> Inl (Ad_Open e) | None \<Rightarrow> Inr src))))"

text \<open>\<open>adminDB\<close>: a pool is kept as long as the signature stays the same.\<close>

definition admin_db :: "admin_env \<Rightarrow> profile \<Rightarrow> admin_state \<Rightarrow> (admin_error + source) \<times> admin_state" where
  "admin_db env p st =
     (case pr_dba p of
        None \<Rightarrow> (Inl (Ad_Not_Enabled (pr_id p)), st)
      | Some c \<Rightarrow>
          if \<not> admin_enabled p then (Inl (Ad_Not_Enabled (pr_id p)), st)
          else
            let sg = admin_signature (ae_sha env) p;
                fresh = (let st1 = st \<lparr>ad_pools := (ad_pools st) (pr_id p := None)\<rparr> in
                  case build_pool env p c of
                    Inl e \<Rightarrow> (Inl e, st1)
                  | Inr src \<Rightarrow> (Inr src, st1 \<lparr>ad_pools := (ad_pools st1) (pr_id p \<mapsto> \<lparr>ap_source = src, ap_sig = sg\<rparr>)\<rparr>)) in
            (case ad_pools st (pr_id p) of
               Some pl \<Rightarrow> if ap_sig pl = sg then (Inr (ap_source pl), st) else fresh
             | None \<Rightarrow> fresh))"

definition send_admin :: "string \<Rightarrow> source \<Rightarrow> string \<Rightarrow> admin_state \<Rightarrow> admin_state" where
  "send_admin pid src stmt st = st \<lparr>ad_sent := ad_sent st @ [(pid, src, stmt)]\<rparr>"

definition admin_timeout :: "int \<Rightarrow> int" where
  "admin_timeout t = (if t \<le> 0 then 60 else t)"

text \<open>\<open>AdminExec\<close>: the number of affected rows, or an error.\<close>

definition admin_exec :: "admin_env \<Rightarrow> string \<Rightarrow> string \<Rightarrow> int \<Rightarrow> admin_state \<Rightarrow> (admin_error + int) \<times> admin_state" where
  "admin_exec env pid stmt t st =
     (case ee_get (ae_base env) pid of
        Inl e \<Rightarrow> (Inl (Ad_Profile e), st)
      | Inr p \<Rightarrow>
        (case dialect_for (pr_type p) of
           None \<Rightarrow> (Inl Ad_Dialect, st)
         | Some d \<Rightarrow>
        (case admin_db env p st of
           (Inl e, st1) \<Rightarrow> (Inl e, st1)
         | (Inr src, st1) \<Rightarrow>
             (case ae_exec env src stmt (admin_timeout t) of
                Inl e \<Rightarrow> Inl (Ad_Failed (sanitize_db_error (ae_text env e)))
              | Inr n \<Rightarrow> Inr n,
              send_admin (pr_id p) src stmt st1))))"

definition admin_query ::
  "admin_env \<Rightarrow> string \<Rightarrow> string \<Rightarrow> string list \<Rightarrow> admin_state \<Rightarrow> (admin_error + (string \<Rightarrow> sql_value option) list) \<times> admin_state" where
  "admin_query env pid query args st =
     (case ee_get (ae_base env) pid of
        Inl e \<Rightarrow> (Inl (Ad_Profile e), st)
      | Inr p \<Rightarrow>
        (case admin_db env p st of
           (Inl e, st1) \<Rightarrow> (Inl e, st1)
         | (Inr src, st1) \<Rightarrow>
             (case ae_query env src query args of
                Inl e \<Rightarrow> Inl (Ad_Failed (sanitize_db_error (ae_text env e)))
              | Inr cu \<Rightarrow> (case read_all cu of Inl e \<Rightarrow> Inl (Ad_Rows e) | Inr rows \<Rightarrow> Inr rows),
              send_admin (pr_id p) src query st1)))"

definition admin_available :: "admin_env \<Rightarrow> string \<Rightarrow> admin_error + bool" where
  "admin_available env pid =
     (case ee_get (ae_base env) pid of Inl e \<Rightarrow> Inl (Ad_Profile e) | Inr p \<Rightarrow> Inr (admin_enabled p))"

subsection \<open>The signature determines the DBA block\<close>

lemma count_join: "ps \<noteq> [] \<Longrightarrow> Suc (count_list (join_with [d] ps) d) = length ps + sum_list (map (\<lambda>x. count_list x d) ps)"
  by (induction ps rule: induct_list012) auto

definition pipe_free :: "profile \<Rightarrow> bool" where
  "pipe_free p \<longleftrightarrow> (\<forall>x \<in> set (signature_parts p). CHR ''|'' \<notin> set x)"

text \<open>
  The parts are joined without escaping; if those of \<open>p\<close> have no bar, another enabled profile with
  the same text has the same parts.
\<close>

lemma signature_text_parts:
  assumes "join_with ''|'' (signature_parts q) = join_with ''|'' (signature_parts p)"
    and "pipe_free p" "admin_enabled p" "admin_enabled q"
  shows "signature_parts q = signature_parts p"
proof -
  have len: "length (signature_parts p) = 6" "length (signature_parts q) = 6"
    using assms(3,4) by (auto simp: signature_parts_def admin_enabled_def split: option.splits)
  then have ne: "signature_parts p \<noteq> []" "signature_parts q \<noteq> []" by auto
  have "sum_list (map (\<lambda>x. count_list x (CHR ''|'')) (signature_parts p)) = 0"
    using assms(2) by (simp add: pipe_free_def count_list_0_iff)
  then have "sum_list (map (\<lambda>x. count_list x (CHR ''|'')) (signature_parts q)) = 0"
    using count_join [OF ne(1), of "CHR ''|''"] count_join [OF ne(2), of "CHR ''|''"] unfolding assms(1) len by linarith
  then have free: "\<forall>x \<in> set (signature_parts q). CHR ''|'' \<notin> set x"
    by (simp add: count_list_0_iff)
  have "split_on (CHR ''|'') (join_with [CHR ''|''] (signature_parts q)) = signature_parts q"
    using ne(2) free by (rule split_join_parts)
  moreover have "split_on (CHR ''|'') (join_with [CHR ''|''] (signature_parts p)) = signature_parts p"
    using ne(1) assms(2) [unfolded pipe_free_def] by (rule split_join_parts)
  ultimately show ?thesis
    unfolding assms(1) by (rule trans [OF sym])
qed

lemma show_bool_inj [simp]: "show_bool a = show_bool b \<longleftrightarrow> a = b"
  by (simp add: show_bool_def)

lemma signature_parts_dba:
  assumes "signature_parts q = signature_parts p" "pr_dba q = Some c"
  shows "pr_dba p = Some c \<and> pr_type p = pr_type q \<and> pr_connect p = pr_connect q"
proof (cases "pr_dba p")
  case (Some c')
  then have "db_enabled c' = db_enabled c" "db_username c' = db_username c" "db_password_ref c' = db_password_ref c"
      "db_connect c' = db_connect c"
    using assms by (simp_all add: signature_parts_def)
  then have "c' = c" by (simp add: dba_config.equality)
  then show ?thesis
    using assms Some by (simp add: signature_parts_def)
qed (use assms in \<open>auto simp: signature_parts_def\<close>)

subsection \<open>Where privileged statements go\<close>

fun source_writable :: "source \<Rightarrow> bool" where
  "source_writable (Pg_Source u) \<longleftrightarrow> su_query u ''default_transaction_read_only'' = []"
| "source_writable (My_Source c) \<longleftrightarrow> mc_params c ''tx_read_only'' = None \<and> mc_params c ''transaction_read_only'' = None"

lemma allow_writes_writable: "source_writable (allow_writes src)"
  by (cases src) auto

lemma allow_writes_credentials [simp]: "source_credentials (allow_writes src) = source_credentials src"
  by (cases src) auto

lemma build_dsn_account:
  "build_dsn d parse_url parse_query parse_dsn p password = Inr src \<Longrightarrow> source_credentials src = (pr_username p, password)"
  by (cases "d = Postgres")
     (auto simp: build_dsn_def build_pg_dsn_def build_mysql_dsn_def Let_def err_simps)

lemma build_admin_dsn_account:
  assumes "build_admin_dsn env d p c password = Inr src"
  shows "source_credentials src = (db_username c, password) \<and> source_writable src"
proof -
  obtain s0 where "build_dsn d (ae_parse_url env) (ae_parse_query env) (ae_parse_dsn env) (dba_profile p c) password = Inr s0"
      "src = allow_writes s0"
    using assms by (auto simp: build_admin_dsn_def err_simps)
  then show ?thesis
    using build_dsn_account allow_writes_writable by (fastforce simp: dba_profile_def)
qed

text \<open>
  A pool built in one of the environments \<open>E\<close> (the passwords behind references change) from an
  enabled DBA block, under the signature of its profile.
\<close>

definition dba_source :: "admin_env set \<Rightarrow> dba_config \<Rightarrow> source \<Rightarrow> bool" where
  "dba_source E c src \<longleftrightarrow> source_writable src \<and>
     (\<exists>env \<in> E. \<exists>pw. ee_secret (ae_base env) (db_password_ref c) = Inr pw \<and> source_credentials src = (db_username c, pw))"

definition pools_ok :: "admin_env set \<Rightarrow> (string \<Rightarrow> string) \<Rightarrow> admin_state \<Rightarrow> bool" where
  "pools_ok E sha st \<longleftrightarrow> (\<forall>i pl. ad_pools st i = Some pl \<longrightarrow>
     (\<exists>q c. pr_dba q = Some c \<and> admin_enabled q \<and> ap_sig pl = admin_signature sha q \<and> dba_source E c (ap_source pl)))"

lemma build_pool_Inr:
  "build_pool env p c = Inr src \<Longrightarrow>
   \<exists>pw. ee_secret (ae_base env) (db_password_ref c) = Inr pw \<and> source_credentials src = (db_username c, pw) \<and> source_writable src"
  by (auto simp: build_pool_def dest: build_admin_dsn_account split: sum.splits option.splits)

text \<open>Calls in environments from \<open>E\<close>, for any profiles, statements and queries.\<close>

inductive admin_step :: "admin_env set \<Rightarrow> admin_state \<Rightarrow> admin_state \<Rightarrow> bool" for E where
  Exec: "env \<in> E \<Longrightarrow> admin_step E st (snd (admin_exec env pid stmt t st))"
| Query: "env \<in> E \<Longrightarrow> admin_step E st (snd (admin_query env pid query args st))"

lemma admin_db_ok:
  assumes "pools_ok E (ae_sha env) st" "env \<in> E" "admin_db env p st = (x, st1)"
  shows "pools_ok E (ae_sha env) st1 \<and> ad_sent st1 = ad_sent st \<and>
    (\<forall>src. x = Inr src \<longrightarrow> admin_enabled p \<and>
      (\<exists>q c. pr_dba q = Some c \<and> admin_enabled q \<and> admin_signature (ae_sha env) q = admin_signature (ae_sha env) p \<and>
        dba_source E c src))"
proof (cases "\<exists>c. pr_dba p = Some c \<and> admin_enabled p")
  case True
  then obtain c where c: "pr_dba p = Some c" "admin_enabled p" by blast
  show ?thesis
  proof (cases "\<exists>pl. ad_pools st (pr_id p) = Some pl \<and> ap_sig pl = admin_signature (ae_sha env) p")
    case True
    then obtain pl where pl: "ad_pools st (pr_id p) = Some pl" "ap_sig pl = admin_signature (ae_sha env) p" by blast
    then have "x = Inr (ap_source pl)" "st1 = st"
      using assms(3) c by (auto simp: admin_db_def Let_def)
    then show ?thesis
      using assms(1) pl c(2) unfolding pools_ok_def by (metis sum.inject(2))
  next
    case False
    then have x: "(x, st1) = (case build_pool env p c of
        Inl e \<Rightarrow> (Inl e, st \<lparr>ad_pools := (ad_pools st) (pr_id p := None)\<rparr>)
      | Inr src \<Rightarrow> (Inr src, st \<lparr>ad_pools := (ad_pools st) (pr_id p \<mapsto> \<lparr>ap_source = src, ap_sig = admin_signature (ae_sha env) p\<rparr>)\<rparr>))"
      using assms(3) c by (auto simp: admin_db_def Let_def split: option.splits sum.splits)
    have "dba_source E c src" if "build_pool env p c = Inr src" for src
      using build_pool_Inr [OF that] assms(2) by (auto simp: dba_source_def)
    then show ?thesis
      using x c assms(1) by (auto simp: pools_ok_def split: sum.splits)
  qed
next
  case False
  then have "x = Inl (Ad_Not_Enabled (pr_id p))" "st1 = st"
    using assms(3) by (auto simp: admin_db_def split: option.splits)
  then show ?thesis
    using assms(1) by simp
qed

lemma admin_exec_db:
  assumes "admin_exec env pid stmt t st = (r, st')"
  obtains (None) e where "st' = st" "r = Inl e"
  | (Db) p x st1 where "ee_get (ae_base env) pid = Inr p" "admin_db env p st = (x, st1)"
      "case x of Inl e \<Rightarrow> st' = st1 \<and> r = Inl e | Inr src \<Rightarrow> st' = send_admin (pr_id p) src stmt st1"
  using assms by (auto simp: admin_exec_def split: sum.splits option.splits prod.splits)

lemma admin_query_db:
  assumes "admin_query env pid query args st = (r, st')"
  obtains (None) e where "st' = st" "r = Inl e"
  | (Db) p x st1 where "ee_get (ae_base env) pid = Inr p" "admin_db env p st = (x, st1)"
      "case x of Inl e \<Rightarrow> st' = st1 \<and> r = Inl e | Inr src \<Rightarrow> st' = send_admin (pr_id p) src query st1"
  using assms by (auto simp: admin_query_def split: sum.splits option.splits prod.splits)

lemma pools_ok_send [simp]: "pools_ok E sha (send_admin pid src stmt st) = pools_ok E sha st"
  by (simp add: pools_ok_def send_admin_def)

lemma pools_ok_step:
  assumes "admin_step E st st'" "pools_ok E sha st" "\<forall>env \<in> E. ae_sha env = sha"
  shows "pools_ok E sha st'"
  using assms(1)
proof cases
  case (Exec env pid stmt t)
  obtain r where "admin_exec env pid stmt t st = (r, st')"
    using Exec(1) by (metis prod.collapse)
  then show ?thesis
    using Exec(2) assms(2,3) admin_db_ok [of E env st]
    by (cases rule: admin_exec_db) (auto split: sum.splits)
next
  case (Query env pid query args)
  obtain r where "admin_query env pid query args st = (r, st')"
    using Query(1) by (metis prod.collapse)
  then show ?thesis
    using Query(2) assms(2,3) admin_db_ok [of E env st]
    by (cases rule: admin_query_db) (auto split: sum.splits)
qed

lemma pools_ok_run:
  assumes "(admin_step E)\<^sup>*\<^sup>* new_admin_state st" "\<forall>env \<in> E. ae_sha env = sha"
  shows "pools_ok E sha st"
  using assms(1)
proof (induction rule: rtranclp_induct)
  case base
  show ?case
    by (simp add: pools_ok_def new_admin_state_def)
qed (use pools_ok_step assms(2) in blast)

lemma same_signature_same_dba:
  assumes "admin_signature sha q = admin_signature sha p" "pipe_free p" "admin_enabled p" "admin_enabled q" "pr_dba q = Some c"
    and "\<forall>q. admin_signature sha q = admin_signature sha p \<longrightarrow> join_with ''|'' (signature_parts q) = join_with ''|'' (signature_parts p)"
  shows "pr_dba p = Some c"
  using signature_parts_dba [OF signature_text_parts [OF _ assms(2-4)] assms(5)] assms(1,6) by blast

text \<open>
  Privileged statements need the opt-in and use the right account: in every run of privileged
  calls, in environments whose passwords may differ, a call either fails and sends nothing, or it
  sends exactly its statement for a stored profile with an enabled DBA block, to a source that logs
  in with the user name of that block and a password its reference resolved to, and that is not
  marked read-only. The pool may be an old one: the hash of the signature is assumed to have no
  second preimage for this profile, whose parts have no bar.
\<close>

theorem privileged_needs_opt_in:
  assumes "(admin_step E)\<^sup>*\<^sup>* new_admin_state st" "env \<in> E" "\<forall>env' \<in> E. ae_sha env' = ae_sha env"
    and "admin_exec env pid stmt t st = (r, st')"
    and "\<And>p. ee_get (ae_base env) pid = Inr p \<Longrightarrow> pipe_free p"
    and "\<And>p q. ee_get (ae_base env) pid = Inr p \<Longrightarrow> admin_signature (ae_sha env) q = admin_signature (ae_sha env) p \<Longrightarrow>
      join_with ''|'' (signature_parts q) = join_with ''|'' (signature_parts p)"
  shows "((\<exists>e. r = Inl e) \<and> ad_sent st' = ad_sent st) \<or>
    (\<exists>p c src. ee_get (ae_base env) pid = Inr p \<and> pr_dba p = Some c \<and> db_enabled c \<and>
      ad_sent st' = ad_sent st @ [(pr_id p, src, stmt)] \<and> source_writable src \<and>
      (\<exists>env' \<in> E. \<exists>pw. ee_secret (ae_base env') (db_password_ref c) = Inr pw \<and> source_credentials src = (db_username c, pw)))"
  using assms(4)
proof (cases rule: admin_exec_db)
  case (Db p x st1)
  have ok: "pools_ok E (ae_sha env) st"
    using pools_ok_run [OF assms(1)] assms(3) by blast
  note db = admin_db_ok [OF ok assms(2) Db(2)]
  show ?thesis
  proof (cases x)
    case (Inr src)
    then obtain q c where q: "admin_enabled p" "pr_dba q = Some c" "admin_enabled q"
        "admin_signature (ae_sha env) q = admin_signature (ae_sha env) p" "dba_source E c src"
      using db by blast
    then have "pr_dba p = Some c"
      using same_signature_same_dba [OF q(4) assms(5) [OF Db(1)] q(1,3,2)] assms(6) [OF Db(1)] by blast
    moreover have "db_enabled c"
      using q(2,3) by (simp add: admin_enabled_def)
    ultimately show ?thesis
      using Db Inr db q(5) by (auto simp: dba_source_def send_admin_def)
  qed (use Db db in auto)
qed auto

subsection \<open>A concrete privileged call\<close>

definition dba_demo_profile :: profile where
  "dba_demo_profile = with_defaults (demo_profile \<lparr>pr_dba := Some demo_dba\<rparr>)"

definition admin_demo_env :: admin_env where
  "admin_demo_env = \<lparr>ae_base = (demo_env 3) \<lparr>ee_get := (\<lambda>_. Inr dba_demo_profile)\<rparr>, ae_sha = (\<lambda>s. s),
     ae_parse_url = (\<lambda>_. None), ae_parse_query = (\<lambda>_ _. []), ae_parse_dsn = (\<lambda>_. None), ae_open = (\<lambda>_. None),
     ae_exec = (\<lambda>src stmt t. Inr 0), ae_query = (\<lambda>src q args. Inl (Db_Other [])), ae_text = (\<lambda>_. [])\<rparr>"

lemma dba_demo_facts:
  "pipe_free dba_demo_profile" "dialect_for (pr_type dba_demo_profile) = Some Postgres" "pr_id dba_demo_profile = ''dw''"
  "pr_dba dba_demo_profile = Some demo_dba" "admin_enabled dba_demo_profile"
  "parse_connect_string (trim_space (pr_connect (dba_profile dba_demo_profile demo_dba))) = Some (''db'', ''5432'', ''dw'', [])"
  "has_prefix (trim_space (pr_connect (dba_profile dba_demo_profile demo_dba))) ''postgres://'' = False"
  "has_prefix (trim_space (pr_connect (dba_profile dba_demo_profile demo_dba))) ''postgresql://'' = False"
  "resolve_password (\<lambda>_. ''pw'') (\<lambda>_. None) (db_password_ref demo_dba) = Inr ''pw''"
  by code_simp+

lemma dba_demo_pool: "\<exists>src. build_pool admin_demo_env dba_demo_profile demo_dba = Inr src"
  using dba_demo_facts
  by (simp add: build_pool_def admin_demo_env_def demo_env_def build_admin_dsn_def build_dsn_def build_pg_dsn_def Let_def)

lemma dba_demo_call:
  "\<exists>st' src. admin_exec admin_demo_env ''dw'' ''VACUUM'' 0 new_admin_state = (Inr 0, st') \<and> ad_sent st' = [(''dw'', src, ''VACUUM'')]"
proof -
  obtain src where "build_pool admin_demo_env dba_demo_profile demo_dba = Inr src"
    using dba_demo_pool by blast
  moreover have "ee_get (ae_base admin_demo_env) pid = Inr dba_demo_profile" "ae_exec admin_demo_env s q t = Inr 0" for pid s q t
    by (simp_all add: admin_demo_env_def)
  ultimately show ?thesis
    by (simp add: admin_exec_def admin_db_def dba_demo_facts new_admin_state_def send_admin_def Let_def)
qed

theorem privileged_needs_opt_in_witness:
  "\<exists>st' src. admin_exec admin_demo_env ''dw'' ''VACUUM'' 0 new_admin_state = (Inr 0, st') \<and>
     ad_sent st' = [(''dw'', src, ''VACUUM'')] \<and> source_credentials src = (''root'', ''pw'')"
proof -
  obtain st' src where call: "admin_exec admin_demo_env ''dw'' ''VACUUM'' 0 new_admin_state = (Inr 0, st')" "ad_sent st' = [(''dw'', src, ''VACUUM'')]"
    using dba_demo_call by blast
  have get: "ee_get (ae_base admin_demo_env) ''dw'' = Inr p \<longleftrightarrow> p = dba_demo_profile" for p
    by (auto simp: admin_demo_env_def)
  have "ad_sent new_admin_state = []"
    by (simp add: new_admin_state_def)
  moreover have "ee_secret (ae_base admin_demo_env) (db_password_ref demo_dba) = Inr ''pw''" "db_username demo_dba = ''root''"
    using dba_demo_facts by (simp_all add: admin_demo_env_def demo_env_def) (simp add: demo_dba_def)
  moreover have "ae_sha admin_demo_env = (\<lambda>s. s)"
    by (simp add: admin_demo_env_def)
  ultimately show ?thesis
    using privileged_needs_opt_in [of "{admin_demo_env}" new_admin_state admin_demo_env, OF rtranclp.rtrancl_refl _ _ call(1)] call
    by (auto simp: get dba_demo_facts admin_signature_def)
qed

end
