(* ===== verification/Auth_Service.thy ===== *)
theory Auth_Service
  imports Prelude
begin

text \<open>
  Accounts, sessions and MCP keys (\<open>internal/meta/auth.go\<close> on the store of \<open>internal/meta/mem.go\<close>,
  the handlers of \<open>internal/mcp/auth.go\<close>, the account update of \<open>internal/mcp/authapi.go\<close>).
  The state is the store; every operation returns its result and the new store. Tokens, ids and the
  current time are inputs; \<open>hash\<close> is the SHA-256 digest in hexadecimal, \<open>pw_hash\<close> (which may fail)
  and \<open>pw_ok\<close> stand for bcrypt. Go's maps are lists with one element for a key. Creation times, client addresses and user agents, which no operation
  here reads, are left out, and so are the store's answers that a session or key to touch is missing,
  which the callers ignore.

  The lemmas show that a revoked session or key stays revoked whatever the service does next, that a
  request acts as an account only on a live credential, and that the account update keeps an active
  administrator.
\<close>

subsection \<open>Records\<close>

record account =
  ac_id :: string
  ac_username :: string
  ac_display :: string
  ac_email :: string
  ac_password :: string
  ac_role :: string
  ac_provider :: string
  ac_subject :: string
  ac_active :: bool
  ac_last_login :: "int option"

record session =
  se_hash :: string
  se_user :: string
  se_expires :: int
  se_revoked :: "int option"

record mcp_key =
  ky_id :: string
  ky_user :: string
  ky_name :: string
  ky_hash :: string
  ky_prefix :: string
  ky_expires :: "int option"
  ky_last_used :: "int option"
  ky_revoked :: "int option"
  ky_rotated_from :: string

record store =
  st_users :: "account list"
  st_sessions :: "session list"
  st_keys :: "mcp_key list"

datatype auth_error = Not_Found | Duplicate | Unauthorized | Inactive | Expired | Revoked | Signs_In_Via_Sso
  | Bad_Spec | Username_Required | Password_Too_Short | Hash_Failed | Bad_Role | Last_Admin | Sso_Password | Not_A_Login

datatype key_status = Key_Revoked | Key_Expired | Key_Active

text \<open>\<open>SessionTTL\<close> in nanoseconds.\<close>

definition session_ttl :: int where
  "session_ttl = 24 * 3600 * 1000000000"

definition key_magic :: string where
  "key_magic = ''jsk_''"

subsection \<open>The store\<close>

definition create_user :: "account \<Rightarrow> store \<Rightarrow> auth_error option \<times> store" where
  "create_user u s =
     (if \<exists>e \<in> set (st_users s). equal_fold (ac_username e) (ac_username u) \<or>
          ac_subject u \<noteq> [] \<and> ac_provider e = ac_provider u \<and> ac_subject e = ac_subject u
      then (Some Duplicate, s)
      else (None, s \<lparr>st_users := filter (\<lambda>e. ac_id e \<noteq> ac_id u) (st_users s) @ [u]\<rparr>))"

definition get_user_by_id :: "string \<Rightarrow> store \<Rightarrow> account option" where
  "get_user_by_id i s = find (\<lambda>u. ac_id u = i) (st_users s)"

definition get_user_by_username :: "string \<Rightarrow> store \<Rightarrow> account option" where
  "get_user_by_username n s = find (\<lambda>u. equal_fold (ac_username u) n) (st_users s)"

definition get_user_by_subject :: "string \<Rightarrow> string \<Rightarrow> store \<Rightarrow> account option" where
  "get_user_by_subject prov subject s = find (\<lambda>u. ac_provider u = prov \<and> ac_subject u = subject) (st_users s)"

text \<open>An empty password hash leaves the stored one.\<close>

definition update_user :: "account \<Rightarrow> store \<Rightarrow> auth_error option \<times> store" where
  "update_user u s =
     (case get_user_by_id (ac_id u) s of
        None \<Rightarrow> (Some Not_Found, s)
      | Some prev \<Rightarrow>
          let u1 = (if ac_password u = [] then u \<lparr>ac_password := ac_password prev\<rparr> else u) in
          (None, s \<lparr>st_users := map (\<lambda>e. if ac_id e = ac_id u then u1 else e) (st_users s)\<rparr>))"

definition touch_login :: "string \<Rightarrow> int \<Rightarrow> store \<Rightarrow> store" where
  "touch_login i now s =
     s \<lparr>st_users := map (\<lambda>u. if ac_id u = i then u \<lparr>ac_last_login := Some now\<rparr> else u) (st_users s)\<rparr>"

definition create_session :: "session \<Rightarrow> store \<Rightarrow> store" where
  "create_session se s = s \<lparr>st_sessions := filter (\<lambda>x. se_hash x \<noteq> se_hash se) (st_sessions s) @ [se]\<rparr>"

definition get_session :: "store \<Rightarrow> string \<Rightarrow> session option" where
  "get_session s h = find (\<lambda>x. se_hash x = h) (st_sessions s)"

definition update_session :: "(session \<Rightarrow> bool) \<Rightarrow> (session \<Rightarrow> session) \<Rightarrow> store \<Rightarrow> store" where
  "update_session p f s = s \<lparr>st_sessions := map (\<lambda>x. if p x then f x else x) (st_sessions s)\<rparr>"

definition extend_session :: "string \<Rightarrow> int \<Rightarrow> store \<Rightarrow> store" where
  "extend_session h until = update_session (\<lambda>x. se_hash x = h) (\<lambda>x. x \<lparr>se_expires := until\<rparr>)"

definition revoke_session :: "int \<Rightarrow> string \<Rightarrow> store \<Rightarrow> store" where
  "revoke_session now h = update_session (\<lambda>x. se_hash x = h) (\<lambda>x. x \<lparr>se_revoked := Some now\<rparr>)"

definition revoke_user_sessions :: "int \<Rightarrow> string \<Rightarrow> store \<Rightarrow> store" where
  "revoke_user_sessions now i =
     update_session (\<lambda>x. se_user x = i \<and> se_revoked x = None) (\<lambda>x. x \<lparr>se_revoked := Some now\<rparr>)"

definition store_key :: "mcp_key \<Rightarrow> store \<Rightarrow> store" where
  "store_key k s = s \<lparr>st_keys := filter (\<lambda>x. ky_id x \<noteq> ky_id k) (st_keys s) @ [k]\<rparr>"

definition get_key_by_hash :: "store \<Rightarrow> string \<Rightarrow> mcp_key option" where
  "get_key_by_hash s h = find (\<lambda>k. ky_hash k = h) (st_keys s)"

definition get_key_by_id :: "store \<Rightarrow> string \<Rightarrow> mcp_key option" where
  "get_key_by_id s i = find (\<lambda>k. ky_id k = i) (st_keys s)"

definition update_key :: "string \<Rightarrow> (mcp_key \<Rightarrow> mcp_key) \<Rightarrow> store \<Rightarrow> store" where
  "update_key i f s = s \<lparr>st_keys := map (\<lambda>k. if ky_id k = i then f k else k) (st_keys s)\<rparr>"

definition revoke_key :: "int \<Rightarrow> string \<Rightarrow> store \<Rightarrow> store" where
  "revoke_key now i = update_key i (\<lambda>k. k \<lparr>ky_revoked := Some now\<rparr>)"

definition touch_key :: "int \<Rightarrow> string \<Rightarrow> store \<Rightarrow> store" where
  "touch_key now i = update_key i (\<lambda>k. k \<lparr>ky_last_used := Some now\<rparr>)"

definition key_status_of :: "int \<Rightarrow> mcp_key \<Rightarrow> key_status" where
  "key_status_of now k =
     (if ky_revoked k \<noteq> None then Key_Revoked
      else (case ky_expires k of Some e \<Rightarrow> if now > e then Key_Expired else Key_Active | None \<Rightarrow> Key_Active))"

subsection \<open>Accounts\<close>

text \<open>\<open>HashPassword\<close>; the length is in bytes.\<close>

definition hash_password :: "(string \<Rightarrow> string option) \<Rightarrow> string \<Rightarrow> auth_error + string" where
  "hash_password pw_hash plain =
     (if length plain < 8 then Inl Password_Too_Short
      else (case pw_hash plain of None \<Rightarrow> Inl Hash_Failed | Some h \<Rightarrow> Inr h))"

definition create_local_user ::
  "(string \<Rightarrow> string option) \<Rightarrow> string \<Rightarrow> string \<Rightarrow> string \<Rightarrow> string \<Rightarrow> string \<Rightarrow> string \<Rightarrow> store \<Rightarrow> (auth_error + account) \<times> store" where
  "create_local_user pw_hash new_id username password role display email s =
     (let name = trim_space username;
          role1 = (if role \<in> {''admin'', ''user'', ''dba''} then role else ''user'') in
      if name = [] then (Inl Username_Required, s)
      else (case hash_password pw_hash password of
          Inl e \<Rightarrow> (Inl e, s)
        | Inr h \<Rightarrow>
            let u = \<lparr>ac_id = new_id, ac_username = name, ac_display = display, ac_email = email, ac_password = h,
                  ac_role = role1, ac_provider = ''local'', ac_subject = [], ac_active = True, ac_last_login = None\<rparr> in
            (case create_user u s of (Some e, s') \<Rightarrow> (Inl e, s') | (None, s') \<Rightarrow> (Inr u, s'))))"

definition upsert_sso_user ::
  "string \<Rightarrow> string \<Rightarrow> string \<Rightarrow> string \<Rightarrow> string \<Rightarrow> store \<Rightarrow> (auth_error + account) \<times> store" where
  "upsert_sso_user new_id subject username display email s =
     (case get_user_by_subject ''keycloak'' subject s of
        Some u \<Rightarrow> (if ac_active u then Inr u else Inl Inactive, s)
      | None \<Rightarrow>
          let role = (if st_users s = [] then ''admin'' else ''user'');
              name = (if username = [] then ''kc-'' @ subject else username);
              u = \<lparr>ac_id = new_id, ac_username = name, ac_display = display, ac_email = email, ac_password = [],
                ac_role = role, ac_provider = ''keycloak'', ac_subject = subject, ac_active = True, ac_last_login = None\<rparr> in
          (case create_user u s of
             (None, s') \<Rightarrow> (Inr u, s')
           | (Some _, s') \<Rightarrow>
               let u' = u \<lparr>ac_username := name @ ''-'' @ take 6 new_id\<rparr> in
               (case create_user u' s' of (None, s'') \<Rightarrow> (Inr u', s'') | (Some e, s'') \<Rightarrow> (Inl e, s''))))"

text \<open>
  \<open>Bootstrap\<close>: \<open>gen\<close> is the random password. The account to create is its name, its password and
  the password the operator has to record.
\<close>

definition bootstrap_account :: "string \<Rightarrow> string \<Rightarrow> auth_error + string \<times> string \<times> string" where
  "bootstrap_account gen spec =
     (if spec = [] then Inr (''admin'', gen, gen)
      else
        let user = takeWhile (\<lambda>c. c \<noteq> CHR '':'') spec;
            pass = drop (Suc (length user)) spec in
        if CHR '':'' \<notin> set spec \<or> user = [] \<or> pass = [] then Inl Bad_Spec else Inr (user, pass, []))"

definition bootstrap ::
  "(string \<Rightarrow> string option) \<Rightarrow> string \<Rightarrow> string \<Rightarrow> string \<Rightarrow> store \<Rightarrow> (auth_error + (string \<times> string) option) \<times> store" where
  "bootstrap pw_hash new_id gen spec s =
     (if st_users s \<noteq> [] then (Inr None, s)
      else (case bootstrap_account gen spec of
          Inl e \<Rightarrow> (Inl e, s)
        | Inr (username, password, generated) \<Rightarrow>
            (case create_local_user pw_hash new_id username password ''admin'' ''Administrator'' [] s of
               (Inl e, s') \<Rightarrow> (Inl e, s')
             | (Inr _, s') \<Rightarrow> (Inr (Some (username, generated)), s'))))"

definition verify_password :: "(string \<Rightarrow> string \<Rightarrow> bool) \<Rightarrow> account \<Rightarrow> string \<Rightarrow> auth_error option" where
  "verify_password pw_ok u plain =
     (if ac_provider u \<noteq> ''local'' \<or> ac_password u = [] \<or> \<not> pw_ok (ac_password u) plain then Some Unauthorized else None)"

subsection \<open>Sessions\<close>

definition issue_session :: "(string \<Rightarrow> string) \<Rightarrow> int \<Rightarrow> string \<Rightarrow> string \<Rightarrow> store \<Rightarrow> store" where
  "issue_session hash now token user_id =
     create_session \<lparr>se_hash = hash token, se_user = user_id, se_expires = now + session_ttl, se_revoked = None\<rparr>"

definition login :: "(string \<Rightarrow> string) \<Rightarrow> (string \<Rightarrow> string \<Rightarrow> bool) \<Rightarrow> int \<Rightarrow> string \<Rightarrow> string \<Rightarrow> string \<Rightarrow> store
    \<Rightarrow> (auth_error + account \<times> string) \<times> store" where
  "login hash pw_ok now token username password s =
     (case get_user_by_username username s of
        None \<Rightarrow> (Inl Unauthorized, s)
      | Some u \<Rightarrow>
          if ac_provider u \<noteq> ''local'' \<or> ac_password u = [] then (Inl Signs_In_Via_Sso, s)
          else if \<not> pw_ok (ac_password u) password then (Inl Unauthorized, s)
          else if \<not> ac_active u then (Inl Inactive, s)
          else (Inr (u, token), touch_login (ac_id u) now (issue_session hash now token (ac_id u) s)))"

definition authenticate :: "(string \<Rightarrow> string) \<Rightarrow> int \<Rightarrow> string \<Rightarrow> store \<Rightarrow> (auth_error + account) \<times> store" where
  "authenticate hash now token s =
     (if token = [] then (Inl Unauthorized, s)
      else (case get_session s (hash token) of
          None \<Rightarrow> (Inl Unauthorized, s)
        | Some se \<Rightarrow>
            if se_revoked se \<noteq> None then (Inl Revoked, s)
            else if now > se_expires se then (Inl Expired, s)
            else (case get_user_by_id (se_user se) s of
                None \<Rightarrow> (Inl Unauthorized, s)
              | Some u \<Rightarrow>
                  if \<not> ac_active u then (Inl Unauthorized, s)
                  else (Inr u, if se_expires se - now < session_ttl div 2
                               then extend_session (se_hash se) (now + session_ttl) s else s))))"

definition logout :: "(string \<Rightarrow> string) \<Rightarrow> int \<Rightarrow> string \<Rightarrow> store \<Rightarrow> store" where
  "logout hash now token s = (if token = [] then s else revoke_session now (hash token) s)"

subsection \<open>Keys\<close>

text \<open>\<open>raw\<close> is the magic prefix and the random part, \<open>ttl \<le> 0\<close> means no expiry.\<close>

definition create_key :: "(string \<Rightarrow> string) \<Rightarrow> int \<Rightarrow> string \<Rightarrow> string \<Rightarrow> string \<Rightarrow> string \<Rightarrow> int \<Rightarrow> string \<Rightarrow> store \<Rightarrow> mcp_key \<times> store" where
  "create_key hash now raw new_id user_id name ttl rotated_from s =
     (let k = \<lparr>ky_id = new_id, ky_user = user_id, ky_name = (if trim_space name = [] then ''default'' else name),
            ky_hash = hash raw, ky_prefix = take 12 raw, ky_expires = (if ttl > 0 then Some (now + ttl) else None),
            ky_last_used = None, ky_revoked = None, ky_rotated_from = rotated_from\<rparr> in
      (k, store_key k s))"

definition authenticate_key :: "(string \<Rightarrow> string) \<Rightarrow> int \<Rightarrow> string \<Rightarrow> store \<Rightarrow> (auth_error + account \<times> mcp_key) \<times> store" where
  "authenticate_key hash now raw0 s =
     (let raw = trim_space raw0 in
      if \<not> has_prefix raw key_magic then (Inl Unauthorized, s)
      else (case get_key_by_hash s (hash raw) of
          None \<Rightarrow> (Inl Unauthorized, s)
        | Some k \<Rightarrow>
            if ky_hash k \<noteq> hash raw then (Inl Unauthorized, s)
            else (case key_status_of now k of
                Key_Revoked \<Rightarrow> (Inl Revoked, s)
              | Key_Expired \<Rightarrow> (Inl Expired, s)
              | Key_Active \<Rightarrow>
                  (case get_user_by_id (ky_user k) s of
                     None \<Rightarrow> (Inl Unauthorized, s)
                   | Some u \<Rightarrow>
                       if ac_active u then (Inr (u, k), touch_key now (ky_id k) s)
                       else (Inl Unauthorized, s)))))"

text \<open>The store answers that a key to revoke is missing; here it was just looked up.\<close>

definition rotate_key :: "(string \<Rightarrow> string) \<Rightarrow> int \<Rightarrow> string \<Rightarrow> string \<Rightarrow> string \<Rightarrow> store \<Rightarrow> (auth_error + mcp_key) \<times> store" where
  "rotate_key hash now raw new_id key_id s =
     (case get_key_by_id s key_id of
        None \<Rightarrow> (Inl Not_Found, s)
      | Some old \<Rightarrow>
          let s1 = revoke_key now (ky_id old) s;
              ttl = (case ky_expires old of
                  None \<Rightarrow> 0
                | Some e \<Rightarrow> if e - now > 0 then e - now else session_ttl);
              (k, s2) = create_key hash now raw new_id (ky_user old) (ky_name old) ttl (ky_id old) s1 in
          (Inr k, s2))"

subsection \<open>Requests\<close>

text \<open>The headers and the cookie of a request; an absent one is empty.\<close>

record credentials =
  cr_admin_token :: string
  cr_authorization :: string
  cr_cookie :: string
  cr_mcp_key :: string

definition master_user :: account where
  "master_user = \<lparr>ac_id = ''master'', ac_username = ''master-token'', ac_display = [], ac_email = [], ac_password = [],
     ac_role = ''admin'', ac_provider = ''token'', ac_subject = [], ac_active = True, ac_last_login = None\<rparr>"

definition master_token_given :: "string \<Rightarrow> credentials \<Rightarrow> bool" where
  "master_token_given admin_token cr \<longleftrightarrow>
     (let t = trim_space admin_token;
          got = (if cr_admin_token cr \<noteq> [] then cr_admin_token cr else trim_prefix (cr_authorization cr) ''Bearer '') in
      t \<noteq> [] \<and> got \<noteq> [] \<and> got = t)"

definition request_key :: "credentials \<Rightarrow> string" where
  "request_key cr =
     (if cr_mcp_key cr \<noteq> [] then cr_mcp_key cr
      else (let b = trim_prefix (cr_authorization cr) ''Bearer '' in if has_prefix b ''jsk_'' then b else []))"

definition resolve_key :: "(string \<Rightarrow> string) \<Rightarrow> int \<Rightarrow> credentials \<Rightarrow> store \<Rightarrow> (auth_error + account) \<times> store" where
  "resolve_key hash now cr s =
     (if request_key cr = [] then (Inl Unauthorized, s)
      else (case authenticate_key hash now (request_key cr) s of
          (Inl e, s') \<Rightarrow> (Inl e, s')
        | (Inr (u, _), s') \<Rightarrow> (Inr u, s')))"

text \<open>\<open>Server.authenticate\<close>: the master token, then the session cookie, then an MCP key.\<close>

definition resolve_request ::
  "(string \<Rightarrow> string) \<Rightarrow> int \<Rightarrow> string \<Rightarrow> credentials \<Rightarrow> store \<Rightarrow> (auth_error + account) \<times> store" where
  "resolve_request hash now admin_token cr s =
     (if master_token_given admin_token cr then (Inr master_user, s)
      else if cr_cookie cr = [] then resolve_key hash now cr s
      else (case authenticate hash now (cr_cookie cr) s of
          (Inr u, s') \<Rightarrow> (Inr u, s')
        | (Inl _, s') \<Rightarrow> resolve_key hash now cr s'))"

text \<open>The bodies of \<open>handleUpdateProfile\<close> and \<open>handleChangePassword\<close> for the resolved account.\<close>

definition update_profile :: "account \<Rightarrow> string \<Rightarrow> string \<Rightarrow> store \<Rightarrow> auth_error option \<times> store" where
  "update_profile u display email s =
     (if ac_id u = ''master'' then (Some Not_A_Login, s)
      else (case get_user_by_id (ac_id u) s of
          None \<Rightarrow> (Some Not_Found, s)
        | Some cur \<Rightarrow>
            update_user (cur \<lparr>ac_display := trim_space display, ac_email := trim_space email, ac_password := []\<rparr>) s))"

definition change_password ::
  "(string \<Rightarrow> string option) \<Rightarrow> (string \<Rightarrow> string \<Rightarrow> bool) \<Rightarrow> account \<Rightarrow> string \<Rightarrow> string \<Rightarrow> store \<Rightarrow> auth_error option \<times> store" where
  "change_password pw_hash pw_ok u old new s =
     (if ac_id u = ''master'' then (Some Not_A_Login, s)
      else if ac_provider u \<noteq> ''local'' then (Some Sso_Password, s)
      else (case verify_password pw_ok u old of
          Some e \<Rightarrow> (Some e, s)
        | None \<Rightarrow>
            (case hash_password pw_hash new of
               Inl e \<Rightarrow> (Some e, s)
             | Inr h \<Rightarrow> update_user (u \<lparr>ac_password := h\<rparr>) s)))"

text \<open>A handler resolves the request first.\<close>

definition with_actor :: "(string \<Rightarrow> string) \<Rightarrow> int \<Rightarrow> string \<Rightarrow> credentials \<Rightarrow>
    (account \<Rightarrow> store \<Rightarrow> auth_error option \<times> store) \<Rightarrow> store \<Rightarrow> auth_error option \<times> store" where
  "with_actor hash now admin_token cr body s =
     (case resolve_request hash now admin_token cr s of (Inl e, s') \<Rightarrow> (Some e, s') | (Inr u, s') \<Rightarrow> body u s')"

definition handle_update_profile ::
  "(string \<Rightarrow> string) \<Rightarrow> int \<Rightarrow> string \<Rightarrow> credentials \<Rightarrow> string \<Rightarrow> string \<Rightarrow> store \<Rightarrow> auth_error option \<times> store" where
  "handle_update_profile hash now admin_token cr display email =
     with_actor hash now admin_token cr (\<lambda>u. update_profile u display email)"

definition handle_change_password ::
  "(string \<Rightarrow> string) \<Rightarrow> (string \<Rightarrow> string option) \<Rightarrow> (string \<Rightarrow> string \<Rightarrow> bool) \<Rightarrow> int \<Rightarrow> string \<Rightarrow> credentials \<Rightarrow>
    string \<Rightarrow> string \<Rightarrow> store \<Rightarrow> auth_error option \<times> store" where
  "handle_change_password hash pw_hash pw_ok now admin_token cr old new =
     with_actor hash now admin_token cr (\<lambda>u. change_password pw_hash pw_ok u old new)"

subsection \<open>The administrator's account update\<close>

record update_request =
  ur_role :: "string option"
  ur_active :: "bool option"
  ur_display :: "string option"
  ur_email :: "string option"
  ur_password :: "string option"

definition count_admins :: "store \<Rightarrow> nat" where
  "count_admins s = length (filter (\<lambda>u. ac_role u = ''admin'' \<and> ac_active u) (st_users s))"

definition set_role :: "update_request \<Rightarrow> store \<Rightarrow> account \<Rightarrow> auth_error + account" where
  "set_role req s u =
     (case ur_role req of
        None \<Rightarrow> Inr u
      | Some r \<Rightarrow>
          if r \<notin> {''admin'', ''user'', ''dba''} then Inl Bad_Role
          else if ac_role u = ''admin'' \<and> r \<noteq> ''admin'' \<and> count_admins s \<le> 1 then Inl Last_Admin
          else Inr (u \<lparr>ac_role := r\<rparr>))"

definition set_active :: "update_request \<Rightarrow> store \<Rightarrow> account \<Rightarrow> auth_error + account" where
  "set_active req s u =
     (case ur_active req of
        None \<Rightarrow> Inr u
      | Some b \<Rightarrow>
          if \<not> b \<and> ac_role u = ''admin'' \<and> count_admins s \<le> 1 then Inl Last_Admin
          else Inr (u \<lparr>ac_active := b\<rparr>))"

definition set_password :: "(string \<Rightarrow> string option) \<Rightarrow> update_request \<Rightarrow> account \<Rightarrow> auth_error + account" where
  "set_password pw_hash req u =
     (case ur_password req of
        None \<Rightarrow> Inr u
      | Some p \<Rightarrow>
          if p = [] then Inr u
          else if ac_provider u \<noteq> ''local'' then Inl Sso_Password
          else bind_err (hash_password pw_hash p) (\<lambda>h. Inr (u \<lparr>ac_password := h\<rparr>)))"

text \<open>The account a request asks for, with the checks in the order of the handler.\<close>

definition requested_user :: "(string \<Rightarrow> string option) \<Rightarrow> update_request \<Rightarrow> store \<Rightarrow> account \<Rightarrow> auth_error + account" where
  "requested_user pw_hash req s u0 =
     bind_err (set_role req s u0) (\<lambda>u1.
     bind_err (set_active req s u1) (\<lambda>u2.
       set_password pw_hash req
         (u2 \<lparr>ac_display := (case ur_display req of Some d \<Rightarrow> d | None \<Rightarrow> ac_display u2),
             ac_email := (case ur_email req of Some m \<Rightarrow> m | None \<Rightarrow> ac_email u2)\<rparr>)))"

definition admin_update_user :: "(string \<Rightarrow> string option) \<Rightarrow> int \<Rightarrow> string \<Rightarrow> update_request \<Rightarrow> store \<Rightarrow> auth_error option \<times> store" where
  "admin_update_user pw_hash now user_id req s =
     (case get_user_by_id user_id s of
        None \<Rightarrow> (Some Not_Found, s)
      | Some u0 \<Rightarrow>
          (case requested_user pw_hash req s u0 of
             Inl e \<Rightarrow> (Some e, s)
           | Inr u \<Rightarrow>
               (case update_user u s of
                  (Some e, s1) \<Rightarrow> (Some e, s1)
                | (None, s1) \<Rightarrow> (None, if ac_active u then s1 else revoke_user_sessions now (ac_id u) s1))))"

subsection \<open>Runs of the service\<close>

text \<open>Random tokens and ids are new: no stored credential has their hash or id.\<close>

definition fresh_session :: "(string \<Rightarrow> string) \<Rightarrow> string \<Rightarrow> store \<Rightarrow> bool" where
  "fresh_session hash token s \<longleftrightarrow> hash token \<notin> se_hash ` set (st_sessions s)"

definition fresh_key :: "(string \<Rightarrow> string) \<Rightarrow> string \<Rightarrow> string \<Rightarrow> store \<Rightarrow> bool" where
  "fresh_key hash raw new_id s \<longleftrightarrow> hash raw \<notin> ky_hash ` set (st_keys s) \<and> new_id \<notin> ky_id ` set (st_keys s)"

inductive auth_step :: "(string \<Rightarrow> string) \<Rightarrow> (string \<Rightarrow> string option) \<Rightarrow> (string \<Rightarrow> string \<Rightarrow> bool) \<Rightarrow> store \<Rightarrow> store \<Rightarrow> bool"
  for hash pw_hash pw_ok where
  Local_User: "auth_step hash pw_hash pw_ok s (snd (create_local_user pw_hash i n p r d e s))"
| Sso_User: "auth_step hash pw_hash pw_ok s (snd (upsert_sso_user i subject n d e s))"
| Login: "fresh_session hash token s \<Longrightarrow> auth_step hash pw_hash pw_ok s (snd (login hash pw_ok now token n p s))"
| Sso_Session: "fresh_session hash token s \<Longrightarrow> auth_step hash pw_hash pw_ok s (issue_session hash now token i s)"
| Authenticate: "auth_step hash pw_hash pw_ok s (snd (authenticate hash now token s))"
| Logout: "auth_step hash pw_hash pw_ok s (logout hash now token s)"
| Create_Key: "fresh_key hash raw i s \<Longrightarrow> auth_step hash pw_hash pw_ok s (snd (create_key hash now raw i u n ttl from s))"
| Use_Key: "auth_step hash pw_hash pw_ok s (snd (authenticate_key hash now raw s))"
| Rotate_Key: "fresh_key hash raw i s \<Longrightarrow> auth_step hash pw_hash pw_ok s (snd (rotate_key hash now raw i k s))"
| Revoke_Key: "auth_step hash pw_hash pw_ok s (revoke_key now i s)"
| Bootstrap: "auth_step hash pw_hash pw_ok s (snd (bootstrap pw_hash i gen spec s))"
| Update_Profile: "auth_step hash pw_hash pw_ok s (snd (update_profile u d e s))"
| Change_Password: "auth_step hash pw_hash pw_ok s (snd (change_password pw_hash pw_ok u old new s))"
| Admin_Update: "auth_step hash pw_hash pw_ok s (snd (admin_update_user pw_hash now i req s))"

text \<open>
  What the clients rely on, for sessions and for keys: a lookup of credentials by their hash, and
  steps that never bring a dead one back.
\<close>

locale credential_store =
  fixes lookup :: "'s \<Rightarrow> string \<Rightarrow> 'c option"
    and dead :: "'c \<Rightarrow> bool"
    and step :: "'s \<Rightarrow> 's \<Rightarrow> bool"
  assumes step_dead: "step s s' \<Longrightarrow> lookup s h = Some c \<Longrightarrow> dead c \<Longrightarrow> \<exists>c'. lookup s' h = Some c' \<and> dead c'"
begin

definition is_dead :: "'s \<Rightarrow> string \<Rightarrow> bool" where
  "is_dead s h \<longleftrightarrow> (\<exists>c. lookup s h = Some c \<and> dead c)"

lemma is_deadI: "lookup s h = Some c \<Longrightarrow> dead c \<Longrightarrow> is_dead s h"
  by (auto simp: is_dead_def)

lemma run_dead: "step\<^sup>*\<^sup>* s s' \<Longrightarrow> is_dead s h \<Longrightarrow> is_dead s' h"
  by (induction rule: rtranclp_induct) (auto simp: is_dead_def dest: step_dead)

end

subsection \<open>What the operations leave alone\<close>

lemma create_user_frame: "st_sessions (snd (create_user u s)) = st_sessions s" "st_keys (snd (create_user u s)) = st_keys s"
  by (simp_all add: create_user_def)

lemma update_user_frame: "st_sessions (snd (update_user u s)) = st_sessions s" "st_keys (snd (update_user u s)) = st_keys s"
  by (simp_all add: update_user_def Let_def split: option.split)

lemma create_user_store:
  "create_user u s = (r, s') \<Longrightarrow> st_sessions s' = st_sessions s"
  "create_user u s = (r, s') \<Longrightarrow> st_keys s' = st_keys s"
  by (auto simp: create_user_def split: if_splits)

lemma update_user_store:
  "update_user u s = (r, s') \<Longrightarrow> st_sessions s' = st_sessions s"
  "update_user u s = (r, s') \<Longrightarrow> st_keys s' = st_keys s"
  using update_user_frame [of u s] by simp_all

lemma local_user_frame:
  "st_sessions (snd (create_local_user ph i n p r d e s)) = st_sessions s"
  "st_keys (snd (create_local_user ph i n p r d e s)) = st_keys s"
  by (auto simp: create_local_user_def Let_def dest: create_user_store split: sum.split prod.split option.split)

lemma create_retry_store:
  assumes "(case create_user u s of
      (None, s') \<Rightarrow> (Inr u, s')
    | (Some _, s') \<Rightarrow> (case create_user v s' of (None, s'') \<Rightarrow> (Inr v, s'') | (Some e, s'') \<Rightarrow> (Inl e, s''))) = (r, t)"
  shows "st_sessions t = st_sessions s \<and> st_keys t = st_keys s"
proof -
  obtain r1 s1 where 1: "create_user u s = (r1, s1)" by fastforce
  obtain r2 s2 where 2: "create_user v s1 = (r2, s2)" by fastforce
  show ?thesis
    using assms create_user_store [OF 1] create_user_store [OF 2] by (auto simp: 1 2 split: option.splits)
qed

lemma sso_user_frame:
  "st_sessions (snd (upsert_sso_user i subject n d e s)) = st_sessions s"
  "st_keys (snd (upsert_sso_user i subject n d e s)) = st_keys s"
proof -
  obtain r t where t: "upsert_sso_user i subject n d e s = (r, t)" by fastforce
  have "st_sessions t = st_sessions s \<and> st_keys t = st_keys s"
  proof (cases "get_user_by_subject ''keycloak'' subject s")
    case None
    show ?thesis
      by (rule create_retry_store [OF t [unfolded upsert_sso_user_def Let_def None option.case]])
  qed (use t in \<open>simp add: upsert_sso_user_def\<close>)
  then show "st_sessions (snd (upsert_sso_user i subject n d e s)) = st_sessions s"
    "st_keys (snd (upsert_sso_user i subject n d e s)) = st_keys s"
    by (simp_all add: t)
qed

lemma local_user_store:
  "create_local_user ph i n p r d e s = (x, s') \<Longrightarrow> st_sessions s' = st_sessions s \<and> st_keys s' = st_keys s"
  using local_user_frame [of ph i n p r d e s] by simp

lemma bootstrap_frame:
  "st_sessions (snd (bootstrap ph i gen spec s)) = st_sessions s"
  "st_keys (snd (bootstrap ph i gen spec s)) = st_keys s"
  by (auto simp: bootstrap_def dest: local_user_store split: sum.split prod.split)

lemma self_update_frame:
  "st_sessions (snd (update_profile u d e s)) = st_sessions s"
  "st_keys (snd (update_profile u d e s)) = st_keys s"
  "st_sessions (snd (change_password ph pok u old new s)) = st_sessions s"
  "st_keys (snd (change_password ph pok u old new s)) = st_keys s"
  by (simp_all add: update_profile_def change_password_def update_user_frame split: option.split sum.split)

lemma update_session_frame [simp]: "st_keys (update_session p f s) = st_keys s"
  by (simp add: update_session_def)

lemma update_key_frame [simp]: "st_sessions (update_key i f s) = st_sessions s"
  by (simp add: update_key_def)

text \<open>An update that keeps the hash and never clears the revocation keeps a dead credential dead.\<close>

definition session_revoked :: "store \<Rightarrow> string \<Rightarrow> bool" where
  "session_revoked s h \<longleftrightarrow> (\<exists>c. get_session s h = Some c \<and> se_revoked c \<noteq> None)"

definition key_revoked :: "store \<Rightarrow> string \<Rightarrow> bool" where
  "key_revoked s h \<longleftrightarrow> (\<exists>c. get_key_by_hash s h = Some c \<and> ky_revoked c \<noteq> None)"

lemma update_session_dead:
  assumes "\<And>x. se_hash (f x) = se_hash x" "\<And>x. se_revoked x \<noteq> None \<Longrightarrow> se_revoked (f x) \<noteq> None"
    and "session_revoked s h"
  shows "session_revoked (update_session p f s) h"
proof -
  obtain c where c: "get_session s h = Some c" "se_revoked c \<noteq> None"
    using assms(3) by (auto simp: session_revoked_def)
  have "get_session (update_session p f s) h = Some (if p c then f c else c)"
    using c(1) find_map_key [of se_hash "\<lambda>x. if p x then f x else x" h "st_sessions s"]
    by (simp add: get_session_def update_session_def assms(1))
  then show ?thesis
    using assms(2) [OF c(2)] c(2) by (auto simp: session_revoked_def)
qed

lemma update_key_dead:
  assumes "\<And>x. ky_hash (f x) = ky_hash x" "\<And>x. ky_revoked x \<noteq> None \<Longrightarrow> ky_revoked (f x) \<noteq> None"
    and "key_revoked s h"
  shows "key_revoked (update_key i f s) h"
proof -
  obtain c where c: "get_key_by_hash s h = Some c" "ky_revoked c \<noteq> None"
    using assms(3) by (auto simp: key_revoked_def)
  have "get_key_by_hash (update_key i f s) h = Some (if ky_id c = i then f c else c)"
    using c(1) find_map_key [of ky_hash "\<lambda>x. if ky_id x = i then f x else x" h "st_keys s"]
    by (simp add: get_key_by_hash_def update_key_def assms(1))
  then show ?thesis
    using assms(2) [OF c(2)] c(2) by (auto simp: key_revoked_def)
qed

lemma issue_session_lookup:
  assumes "fresh_session hash token s" "get_session s h = Some c"
  shows "get_session (issue_session hash now token i s) h = Some c"
proof -
  have "filter (\<lambda>x. se_hash x \<noteq> hash token) (st_sessions s) = st_sessions s"
    using assms(1) by (auto simp: fresh_session_def filter_id_conv image_iff)
  then show ?thesis
    using assms(2) by (simp add: issue_session_def create_session_def get_session_def find_append_Some)
qed

lemma create_key_lookup:
  assumes "fresh_key hash raw i s" "get_key_by_hash s h = Some c"
  shows "get_key_by_hash (snd (create_key hash now raw i u n ttl from s)) h = Some c"
proof -
  have "filter (\<lambda>x. ky_id x \<noteq> i) (st_keys s) = st_keys s"
    using assms(1) by (auto simp: fresh_key_def filter_id_conv image_iff)
  then show ?thesis
    using assms(2) by (simp add: create_key_def store_key_def get_key_by_hash_def find_append_Some Let_def)
qed

lemma update_key_image:
  assumes "\<And>k. g (f k) = g k"
  shows "g ` set (st_keys (update_key i f s)) = g ` set (st_keys s)"
proof -
  have "(\<lambda>k. g (if ky_id k = i then f k else k)) = g"
    using assms by auto
  moreover have "st_keys (update_key i f s) = map (\<lambda>k. if ky_id k = i then f k else k) (st_keys s)"
    by (simp add: update_key_def)
  ultimately show ?thesis
    by (simp only: list.set_map image_image)
qed

lemma fresh_key_revoke: "fresh_key hash raw i (revoke_key now j s) = fresh_key hash raw i s"
  by (simp add: fresh_key_def revoke_key_def update_key_image)

lemma issue_session_dead:
  "fresh_session hash token s \<Longrightarrow> session_revoked s h \<Longrightarrow> session_revoked (issue_session hash now token i s) h"
  by (auto simp: session_revoked_def issue_session_lookup)

lemma create_key_dead:
  "fresh_key hash raw i s \<Longrightarrow> key_revoked s h \<Longrightarrow> key_revoked (snd (create_key hash now raw i u n ttl from s)) h"
  by (auto simp: key_revoked_def create_key_lookup)

lemma session_revoked_cong: "st_sessions s' = st_sessions s \<Longrightarrow> session_revoked s' h = session_revoked s h"
  by (simp add: session_revoked_def get_session_def)

lemma key_revoked_cong: "st_keys s' = st_keys s \<Longrightarrow> key_revoked s' h = key_revoked s h"
  by (simp add: key_revoked_def get_key_by_hash_def)

lemma admin_update_frame:
  "st_keys (snd (admin_update_user ph now i req s)) = st_keys s"
  "st_sessions (snd (admin_update_user ph now i req s)) = st_sessions s \<or>
   (\<exists>j s1. st_sessions s1 = st_sessions s \<and> snd (admin_update_user ph now i req s) = revoke_user_sessions now j s1)"
  subgoal
    by (auto simp: admin_update_user_def revoke_user_sessions_def dest: update_user_store
        split: option.split sum.split prod.split)
  subgoal
    by (cases "get_user_by_id i s") (fastforce simp: admin_update_user_def dest: update_user_store
        split: option.split sum.split prod.split)+
  done


subsection \<open>Revoked credentials stay dead\<close>

lemma authenticate_frame:
  "st_keys (snd (authenticate hash now token s)) = st_keys s"
  "snd (authenticate hash now token s) = s \<or> (\<exists>h u. snd (authenticate hash now token s) = extend_session h u s)"
  by (auto simp: authenticate_def extend_session_def split: option.split)

lemma authenticate_key_frame:
  "st_sessions (snd (authenticate_key hash now raw s)) = st_sessions s"
  "snd (authenticate_key hash now raw s) = s \<or> (\<exists>i. snd (authenticate_key hash now raw s) = touch_key now i s)"
  by (auto simp: authenticate_key_def touch_key_def Let_def split: option.split key_status.split)

lemma login_frame:
  "snd (login hash pw_ok now token n p s) = s \<or>
   (\<exists>i. snd (login hash pw_ok now token n p s) = touch_login i now (issue_session hash now token i s))"
  by (cases "get_user_by_username n s") (auto simp: login_def)

lemma login_keys: "st_keys (snd (login hash pw_ok now token n p s)) = st_keys s"
  using login_frame [of hash pw_ok now token n p s]
  by (auto simp: touch_login_def issue_session_def create_session_def)

lemma create_key_sessions: "st_sessions (snd (create_key hash now raw i u n ttl r s)) = st_sessions s"
  by (simp add: create_key_def store_key_def Let_def)

lemma rotate_key_frame:
  "snd (rotate_key hash now raw i k s) = s \<or>
   (\<exists>j u n ttl. snd (rotate_key hash now raw i k s) = snd (create_key hash now raw i u n ttl j (revoke_key now j s)))"
proof (cases "get_key_by_id s k")
  case (Some old)
  show ?thesis
    unfolding rotate_key_def Some option.case Let_def case_prod_beta snd_conv by blast
qed (simp add: rotate_key_def)

lemma rotate_key_sessions: "st_sessions (snd (rotate_key hash now raw i k s)) = st_sessions s"
  using rotate_key_frame [of hash now raw i k s]
  by (auto simp: create_key_sessions revoke_key_def)

lemma session_update_dead:
  assumes "session_revoked s h"
  shows "session_revoked (extend_session i u s) h" "session_revoked (revoke_session now i s) h"
    "session_revoked (revoke_user_sessions now i s) h"
  unfolding extend_session_def revoke_session_def revoke_user_sessions_def
  by (rule update_session_dead [OF _ _ assms]; simp)+

lemma key_update_dead:
  assumes "key_revoked s h"
  shows "key_revoked (revoke_key now i s) h" "key_revoked (touch_key now i s) h"
  unfolding revoke_key_def touch_key_def by (rule update_key_dead [OF _ _ assms]; simp)+

lemma touch_login_session: "session_revoked (touch_login i now s) h = session_revoked s h"
  by (rule session_revoked_cong) (simp add: touch_login_def)

lemma step_session_dead:
  assumes "auth_step hash pw_hash pw_ok s s'" "session_revoked s h"
  shows "session_revoked s' h"
  using assms
proof (cases rule: auth_step.cases)
  case (Local_User i n p r d e)
  then show ?thesis
    using assms(2) by (simp add: session_revoked_cong [OF local_user_frame(1)])
next
  case (Sso_User i subject n d e)
  then show ?thesis
    using assms(2) by (simp add: session_revoked_cong [OF sso_user_frame(1)])
next
  case (Login token now n p)
  then show ?thesis
    using login_frame [of hash pw_ok now token n p s] assms(2)
    by (auto simp: touch_login_session issue_session_dead)
next
  case (Sso_Session token now i)
  then show ?thesis
    using assms(2) by (simp add: issue_session_dead)
next
  case (Authenticate now token)
  then show ?thesis
    using authenticate_frame(2) [of hash now token s] assms(2) by (auto simp: session_update_dead)
next
  case (Logout now token)
  then show ?thesis
    using assms(2) by (simp add: logout_def session_update_dead)
next
  case (Create_Key raw i now u n ttl r)
  then show ?thesis
    using assms(2) by (simp add: session_revoked_cong [OF create_key_sessions])
next
  case (Use_Key now raw)
  then show ?thesis
    using assms(2) by (simp add: session_revoked_cong [OF authenticate_key_frame(1)])
next
  case (Rotate_Key raw i now k)
  then show ?thesis
    using assms(2) by (simp add: session_revoked_cong [OF rotate_key_sessions])
next
  case (Revoke_Key now i)
  then show ?thesis
    using assms(2) by (simp add: revoke_key_def session_revoked_cong [OF update_key_frame])
next
  case (Bootstrap i gen spec)
  then show ?thesis
    using assms(2) by (simp add: session_revoked_cong [OF bootstrap_frame(1)])
next
  case (Update_Profile u d e)
  then show ?thesis
    using assms(2) by (simp add: session_revoked_cong [OF self_update_frame(1)])
next
  case (Change_Password u old new)
  then show ?thesis
    using assms(2) by (simp add: session_revoked_cong [OF self_update_frame(3)])
next
  case (Admin_Update now i req)
  then show ?thesis
    using admin_update_frame(2) [of pw_hash now i req s] assms(2)
    by (metis session_revoked_cong session_update_dead(3))
qed

lemma step_key_dead:
  assumes "auth_step hash pw_hash pw_ok s s'" "key_revoked s h"
  shows "key_revoked s' h"
  using assms
proof (cases rule: auth_step.cases)
  case (Local_User i n p r d e)
  then show ?thesis
    using assms(2) by (simp add: key_revoked_cong [OF local_user_frame(2)])
next
  case (Sso_User i subject n d e)
  then show ?thesis
    using assms(2) by (simp add: key_revoked_cong [OF sso_user_frame(2)])
next
  case (Login token now n p)
  then show ?thesis
    using assms(2) by (simp add: key_revoked_cong [OF login_keys])
next
  case (Sso_Session token now i)
  then show ?thesis
    using assms(2) key_revoked_cong [of s' s h] by (simp add: issue_session_def create_session_def)
next
  case (Authenticate now token)
  then show ?thesis
    using assms(2) by (simp add: key_revoked_cong [OF authenticate_frame(1)])
next
  case (Logout now token)
  then show ?thesis
    using assms(2) key_revoked_cong [of s' s h] by (simp add: logout_def revoke_session_def)
next
  case (Create_Key raw i now u n ttl r)
  then show ?thesis
    using assms(2) by (simp add: create_key_dead)
next
  case (Use_Key now raw)
  then show ?thesis
    using authenticate_key_frame(2) [of hash now raw s] assms(2) by (auto simp: key_update_dead)
next
  case (Rotate_Key raw i now k)
  then show ?thesis
    using rotate_key_frame [of hash now raw i k s] assms(2)
    by (auto simp: create_key_dead fresh_key_revoke key_update_dead)
next
  case (Revoke_Key now i)
  then show ?thesis
    using assms(2) by (simp add: key_update_dead)
next
  case (Bootstrap i gen spec)
  then show ?thesis
    using assms(2) by (simp add: key_revoked_cong [OF bootstrap_frame(2)])
next
  case (Update_Profile u d e)
  then show ?thesis
    using assms(2) by (simp add: key_revoked_cong [OF self_update_frame(2)])
next
  case (Change_Password u old new)
  then show ?thesis
    using assms(2) by (simp add: key_revoked_cong [OF self_update_frame(4)])
next
  case (Admin_Update now i req)
  then show ?thesis
    using assms(2) by (simp add: key_revoked_cong [OF admin_update_frame(1)])
qed

interpretation sessions: credential_store get_session "\<lambda>c. se_revoked c \<noteq> None" "auth_step hash pw_hash pw_ok"
  for hash pw_hash pw_ok
  using step_session_dead by unfold_locales (unfold session_revoked_def, blast)

interpretation mcp_keys: credential_store get_key_by_hash "\<lambda>c. ky_revoked c \<noteq> None" "auth_step hash pw_hash pw_ok"
  for hash pw_hash pw_ok
  using step_key_dead by unfold_locales (unfold key_revoked_def, blast)


lemma session_revoked_run:
  assumes "(auth_step hash pw_hash pw_ok)\<^sup>*\<^sup>* s s'" "session_revoked s h"
  shows "session_revoked s' h"
  using sessions.run_dead [OF assms(1)] assms(2) unfolding sessions.is_dead_def session_revoked_def by blast

lemma key_revoked_run:
  assumes "(auth_step hash pw_hash pw_ok)\<^sup>*\<^sup>* s s'" "key_revoked s h"
  shows "key_revoked s' h"
  using mcp_keys.run_dead [OF assms(1)] assms(2) unfolding mcp_keys.is_dead_def key_revoked_def by blast

subsection \<open>What a caller sees\<close>

lemma authenticate_revoked:
  "session_revoked s (hash token) \<Longrightarrow> token \<noteq> [] \<Longrightarrow> authenticate hash now token s = (Inl Revoked, s)"
  by (auto simp: authenticate_def session_revoked_def)

lemma authenticate_key_revoked:
  assumes "key_revoked s (hash (trim_space raw))" "has_prefix (trim_space raw) key_magic"
  shows "authenticate_key hash now raw s = (Inl Revoked, s)"
proof -
  obtain k where k: "get_key_by_hash s (hash (trim_space raw)) = Some k" "ky_revoked k \<noteq> None"
    using assms(1) by (auto simp: key_revoked_def)
  then have "ky_hash k = hash (trim_space raw)" "key_status_of now k = Key_Revoked"
    by (auto simp: get_key_by_hash_def find_Some_iff key_status_of_def)
  then show ?thesis
    using assms(2) by (simp add: authenticate_key_def k(1))
qed

lemma logout_revokes:
  assumes "get_session s (hash token) = Some c" "token \<noteq> []"
  shows "session_revoked (logout hash now token s) (hash token)"
proof -
  have "se_hash c = hash token"
    using assms(1) by (auto simp: get_session_def find_Some_iff)
  then have "get_session (logout hash now token s) (hash token) = Some (c\<lparr>se_revoked := Some now\<rparr>)"
    using assms find_map_key [of se_hash "\<lambda>x. if se_hash x = hash token then x\<lparr>se_revoked := Some now\<rparr> else x" "hash token" "st_sessions s"]
    by (simp add: logout_def revoke_session_def update_session_def get_session_def)
  then show ?thesis
    by (simp add: session_revoked_def)
qed

lemma revoke_key_revokes:
  assumes "get_key_by_hash s h = Some k"
  shows "key_revoked (revoke_key now (ky_id k) s) h"
proof -
  have "get_key_by_hash (revoke_key now (ky_id k) s) h = Some (k\<lparr>ky_revoked := Some now\<rparr>)"
    using assms find_map_key [of ky_hash "\<lambda>x. if ky_id x = ky_id k then x\<lparr>ky_revoked := Some now\<rparr> else x" h "st_keys s"]
    by (simp add: get_key_by_hash_def revoke_key_def update_key_def)
  then show ?thesis
    by (simp add: key_revoked_def)
qed

text \<open>Resolving a request is a run of the service, so its handlers are runs too.\<close>

lemma resolve_key_run: "(auth_step hash pw_hash pw_ok)\<^sup>*\<^sup>* s (snd (resolve_key hash now cr s))"
proof (cases "request_key cr = []")
  case False
  then have "snd (resolve_key hash now cr s) = snd (authenticate_key hash now (request_key cr) s)"
    by (simp add: resolve_key_def split: sum.split prod.split)
  then show ?thesis
    by (metis auth_step.Use_Key r_into_rtranclp)
qed (simp add: resolve_key_def)

lemma resolve_request_run: "(auth_step hash pw_hash pw_ok)\<^sup>*\<^sup>* s (snd (resolve_request hash now token cr s))"
proof -
  obtain r s1 where a: "authenticate hash now (cr_cookie cr) s = (r, s1)" by fastforce
  have "auth_step hash pw_hash pw_ok s s1"
    using auth_step.Authenticate [of hash pw_hash pw_ok s now "cr_cookie cr"] by (simp add: a)
  then show ?thesis
    using resolve_key_run [of hash pw_hash pw_ok] converse_rtranclp_into_rtranclp [of "auth_step hash pw_hash pw_ok" s s1]
    by (auto simp: resolve_request_def a split: sum.split)
qed

lemma with_actor_run:
  assumes "\<And>u t. auth_step hash pw_hash pw_ok t (snd (body u t))"
  shows "(auth_step hash pw_hash pw_ok)\<^sup>*\<^sup>* s (snd (with_actor hash now token cr body s))"
proof -
  obtain r s1 where r: "resolve_request hash now token cr s = (r, s1)" by fastforce
  have "(auth_step hash pw_hash pw_ok)\<^sup>*\<^sup>* s s1"
    using resolve_request_run [of hash pw_hash pw_ok s now token cr] by (simp add: r)
  then show ?thesis
    using assms by (auto simp: with_actor_def r intro: rtranclp.rtrancl_into_rtrancl split: sum.split)
qed

lemma handler_runs:
  "(auth_step hash pw_hash pw_ok)\<^sup>*\<^sup>* s (snd (handle_update_profile hash now token cr d e s))"
  "(auth_step hash pw_hash pw_ok)\<^sup>*\<^sup>* s (snd (handle_change_password hash pw_hash pw_ok now token cr old new s))"
  unfolding handle_update_profile_def handle_change_password_def
  by (rule with_actor_run auth_step.Update_Profile auth_step.Change_Password)+

text \<open>What a successful authentication rests on.\<close>

definition live_session :: "int \<Rightarrow> session \<Rightarrow> bool" where
  "live_session now se \<longleftrightarrow> se_revoked se = None \<and> now \<le> se_expires se"

lemma authenticate_Inr:
  "fst (authenticate hash now token s) = Inr u \<Longrightarrow>
   \<exists>se. get_session s (hash token) = Some se \<and> live_session now se \<and> get_user_by_id (se_user se) s = Some u \<and> ac_active u"
  by (auto simp: authenticate_def live_session_def split: option.splits if_splits)

lemma authenticate_Inl: "authenticate hash now token s = (Inl e, s') \<Longrightarrow> s' = s"
  by (auto simp: authenticate_def split: option.splits if_splits)

lemma authenticate_key_Inr:
  "fst (authenticate_key hash now raw s) = Inr (u, k) \<Longrightarrow>
   get_key_by_hash s (hash (trim_space raw)) = Some k \<and> key_status_of now k = Key_Active \<and>
   get_user_by_id (ky_user k) s = Some u \<and> ac_active u"
  by (auto simp: authenticate_key_def Let_def split: option.splits if_splits key_status.splits)

lemma resolve_key_Inr:
  "fst (resolve_key hash now cr s) = Inr u \<Longrightarrow>
   \<exists>k. get_key_by_hash s (hash (trim_space (request_key cr))) = Some k \<and> key_status_of now k = Key_Active \<and>
     get_user_by_id (ky_user k) s = Some u \<and> ac_active u"
  using authenticate_key_Inr [of hash now "request_key cr" s u]
  by (auto simp: resolve_key_def split: if_splits sum.splits prod.splits)

definition live_credential :: "(string \<Rightarrow> string) \<Rightarrow> int \<Rightarrow> string \<Rightarrow> credentials \<Rightarrow> store \<Rightarrow> account \<Rightarrow> bool" where
  "live_credential hash now admin_token cr s u \<longleftrightarrow>
    (master_token_given admin_token cr \<and> u = master_user) \<or>
    (\<exists>se. get_session s (hash (cr_cookie cr)) = Some se \<and> live_session now se \<and>
      get_user_by_id (se_user se) s = Some u \<and> ac_active u) \<or>
    (\<exists>k. get_key_by_hash s (hash (trim_space (request_key cr))) = Some k \<and> key_status_of now k = Key_Active \<and>
      get_user_by_id (ky_user k) s = Some u \<and> ac_active u)"

lemma resolve_request_live:
  assumes "fst (resolve_request hash now admin_token cr s) = Inr u"
  shows "live_credential hash now admin_token cr s u"
proof -
  obtain r s1 where a: "authenticate hash now (cr_cookie cr) s = (r, s1)" by fastforce
  consider "master_token_given admin_token cr" "u = master_user"
    | "r = Inr u" | "fst (resolve_key hash now cr s) = Inr u"
    using assms authenticate_Inl [of hash now "cr_cookie cr" s] a
    by (auto simp: resolve_request_def split: if_splits sum.splits)
  then show ?thesis
  proof cases
    case 2
    then show ?thesis
      using authenticate_Inr [of hash now "cr_cookie cr" s u] a by (simp add: live_credential_def)
  next
    case 3
    then show ?thesis
      using resolve_key_Inr unfolding live_credential_def by blast
  qed (simp add: live_credential_def)
qed

text \<open>
  C10. A request acts as an account only by the master token (as the synthetic administrator), by a
  cookie of a session that is neither revoked nor expired, or by a key that is neither revoked nor
  expired; and the account of a session or key is stored and active.
\<close>

theorem request_needs_live_credential:
  assumes "fst (resolve_request hash now admin_token cr s) = Inr u"
  shows "(master_token_given admin_token cr \<and> u = master_user) \<or>
    (\<exists>se. get_session s (hash (cr_cookie cr)) = Some se \<and> live_session now se \<and>
      get_user_by_id (se_user se) s = Some u \<and> ac_active u) \<or>
    (\<exists>k. get_key_by_hash s (hash (trim_space (request_key cr))) = Some k \<and> key_status_of now k = Key_Active \<and>
      get_user_by_id (ky_user k) s = Some u \<and> ac_active u)"
  using resolve_request_live [OF assms] unfolding live_credential_def .

text \<open>\<open>RotateMCPKey\<close> retires the old key, and issues an active one even when the old key was revoked.\<close>

lemma rotate_retires:
  assumes "get_key_by_id s i = Some old" "get_key_by_hash s h = Some old" "fresh_key hash raw j s"
  shows "key_revoked (snd (rotate_key hash now raw j i s)) h"
proof -
  have "key_revoked (revoke_key now (ky_id old) s) h"
    using assms(2) by (rule revoke_key_revokes)
  then show ?thesis
    unfolding rotate_key_def assms(1) option.case Let_def case_prod_beta snd_conv
    by (rule create_key_dead [rotated]) (simp add: fresh_key_revoke assms(3))
qed

lemma rotate_revives:
  assumes "get_key_by_id s i = Some old" "ky_expires old = None"
  shows "\<exists>k. fst (rotate_key hash now raw j i s) = Inr k \<and> ky_user k = ky_user old \<and> key_status_of later k = Key_Active"
  using assms by (simp add: rotate_key_def create_key_def key_status_of_def Let_def)

subsection \<open>An administrator remains\<close>

lemma length_filter_update:
  assumes "distinct (map key xs)" "x \<in> set xs" "key y = key x"
  shows "length (filter P (map (\<lambda>e. if key e = key x then y else e) xs)) + (if P x then 1 else 0) =
         length (filter P xs) + (if P y then 1 else 0)"
  using assms(1,2)
proof (induction xs)
  case (Cons a xs)
  show ?case
  proof (cases "a = x")
    case True
    then have "map (\<lambda>e. if key e = key x then y else e) xs = xs"
      using Cons.prems(1) by (intro map_idI) (auto simp: image_iff)
    then show ?thesis
      using True by simp
  next
    case False
    then have "x \<in> set xs" "key a \<noteq> key x"
      using Cons.prems by (auto simp: image_iff)
    then show ?thesis
      using Cons by simp
  qed
qed simp

definition is_active_admin :: "account \<Rightarrow> bool" where
  "is_active_admin u \<longleftrightarrow> ac_role u = ''admin'' \<and> ac_active u"

lemma count_admins_alt: "count_admins s = length (filter is_active_admin (st_users s))"
  by (simp add: count_admins_def is_active_admin_def [abs_def])

text \<open>What the checks before the write let through.\<close>

lemma set_role_admin:
  "set_role req s u = Inr v \<Longrightarrow> is_active_admin u \<Longrightarrow> count_admins s < 2 \<Longrightarrow> is_active_admin v"
  by (auto simp: set_role_def is_active_admin_def split: option.splits if_splits)

lemma set_active_admin:
  "set_active req s u = Inr v \<Longrightarrow> is_active_admin u \<Longrightarrow> count_admins s < 2 \<Longrightarrow> is_active_admin v"
  by (auto simp: set_active_def is_active_admin_def split: option.splits if_splits)

lemma set_password_admin: "set_password ph req u = Inr v \<Longrightarrow> is_active_admin v = is_active_admin u"
  by (auto simp: set_password_def is_active_admin_def bind_err_def split: option.splits if_splits sum.splits)

lemma set_ids:
  "set_role req s u = Inr v \<Longrightarrow> ac_id v = ac_id u"
  "set_active req s u = Inr v \<Longrightarrow> ac_id v = ac_id u"
  "set_password ph req u = Inr v \<Longrightarrow> ac_id v = ac_id u"
  by (auto simp: set_role_def set_active_def set_password_def bind_err_def split: option.splits if_splits sum.splits)

lemma requested_admin:
  assumes "requested_user ph req s u = Inr v" "is_active_admin u" "count_admins s < 2"
  shows "is_active_admin v"
proof -
  obtain u1 u2 where 1: "set_role req s u = Inr u1" "set_active req s u1 = Inr u2"
    and 2: "set_password ph req (u2\<lparr>ac_display := (case ur_display req of Some d \<Rightarrow> d | None \<Rightarrow> ac_display u2),
             ac_email := (case ur_email req of Some m \<Rightarrow> m | None \<Rightarrow> ac_email u2)\<rparr>) = Inr v"
    using assms(1) by (auto simp: requested_user_def bind_err_Inr_iff)
  have "is_active_admin u2"
    using 1 assms(2,3) set_role_admin set_active_admin by blast
  then show ?thesis
    using set_password_admin [OF 2] by (simp add: is_active_admin_def)
qed

lemma requested_id: "requested_user ph req s u = Inr v \<Longrightarrow> ac_id v = ac_id u"
  by (auto simp: requested_user_def bind_err_Inr_iff dest!: set_ids)

lemma update_user_count:
  assumes "distinct (map ac_id (st_users s))" "get_user_by_id (ac_id u) s = Some prev" "update_user u s = (None, s1)"
  shows "count_admins s1 + (if is_active_admin prev then 1 else 0) = count_admins s + (if is_active_admin u then 1 else 0)"
proof -
  define u1 where "u1 = (if ac_password u = [] then u\<lparr>ac_password := ac_password prev\<rparr> else u)"
  have prev: "prev \<in> set (st_users s)" "ac_id prev = ac_id u"
    using assms(2) by (auto simp: get_user_by_id_def find_Some_iff)
  have "ac_id u1 = ac_id prev" "is_active_admin u1 = is_active_admin u"
    by (simp_all add: u1_def prev is_active_admin_def)
  moreover have "st_users s1 = map (\<lambda>e. if ac_id e = ac_id prev then u1 else e) (st_users s)"
    using assms(2,3) by (auto simp: update_user_def u1_def prev)
  ultimately show ?thesis
    using length_filter_update [of ac_id "st_users s" prev u1 is_active_admin] assms(1) prev(1)
    by (simp add: count_admins_alt)
qed

text \<open>
  C30. Whatever an administrator's account update asks for (a demotion, a deactivation, or both in
  one request), the store keeps an active administrator when it had one.
\<close>

theorem admin_remains:
  assumes "distinct (map ac_id (st_users s))" "0 < count_admins s"
  shows "0 < count_admins (snd (admin_update_user pw_hash now i req s))"
proof (cases "fst (admin_update_user pw_hash now i req s)")
  case (Some e)
  then have "snd (admin_update_user pw_hash now i req s) = s"
    by (auto simp: admin_update_user_def update_user_def Let_def split: option.splits sum.splits prod.splits)
  then show ?thesis
    using assms(2) by simp
next
  case None
  then obtain u0 u s1 where u: "get_user_by_id i s = Some u0" "requested_user pw_hash req s u0 = Inr u" "update_user u s = (None, s1)"
    by (auto simp: admin_update_user_def split: option.splits sum.splits prod.splits)
  have "ac_id u = i"
    using requested_id [OF u(2)] u(1) by (auto simp: get_user_by_id_def find_Some_iff)
  then have "count_admins s1 + (if is_active_admin u0 then 1 else 0) = count_admins s + (if is_active_admin u then 1 else 0)"
    using update_user_count [OF assms(1) _ u(3)] u(1) by simp
  then have "0 < count_admins s1"
    using requested_admin [OF u(2)] assms(2) by (cases "count_admins s < 2") (auto split: if_splits)
  then show ?thesis
    using u by (simp add: admin_update_user_def count_admins_def revoke_user_sessions_def update_session_def)
qed

definition sample_admin :: account where
  "sample_admin = \<lparr>ac_id = ''1'', ac_username = ''root'', ac_display = [], ac_email = [], ac_password = ''h'', ac_role = ''admin'',
     ac_provider = ''local'', ac_subject = [], ac_active = True, ac_last_login = None\<rparr>"

definition sample_store :: store where
  "sample_store = \<lparr>st_users = [sample_admin],
     st_sessions = [\<lparr>se_hash = ''#tok'', se_user = ''1'', se_expires = 100, se_revoked = None\<rparr>],
     st_keys = [\<lparr>ky_id = ''k1'', ky_user = ''1'', ky_name = ''default'', ky_hash = ''#jsk_a'', ky_prefix = ''jsk_a'', ky_expires = None,
       ky_last_used = None, ky_revoked = None, ky_rotated_from = []\<rparr>]\<rparr>"

definition demote_request :: update_request where
  "demote_request = \<lparr>ur_role = Some ''user'', ur_active = Some False, ur_display = None, ur_email = None, ur_password = None\<rparr>"

theorem admin_remains_witness:
  "0 < count_admins (snd (admin_update_user Some 5 ''1'' demote_request sample_store)) \<and>
   fst (admin_update_user Some 5 ''1'' demote_request sample_store) = Some Last_Admin"
proof
  show "0 < count_admins (snd (admin_update_user Some 5 ''1'' demote_request sample_store))"
    by (rule admin_remains) (simp_all add: sample_store_def sample_admin_def count_admins_def)
qed (simp add: admin_update_user_def get_user_by_id_def requested_user_def set_role_def count_admins_def demote_request_def
    sample_store_def sample_admin_def)

definition cookie_request :: credentials where
  "cookie_request = \<lparr>cr_admin_token = [], cr_authorization = [], cr_cookie = ''tok'', cr_mcp_key = []\<rparr>"

lemma sample_request: "fst (resolve_request ((@) ''#'') 9 [] cookie_request sample_store) = Inr sample_admin"
  by code_simp

theorem request_needs_live_credential_witness:
  "\<exists>se. get_session sample_store ''#tok'' = Some se \<and> live_session 9 se"
proof -
  note request_needs_live_credential [OF sample_request]
  moreover have "\<not> master_token_given [] cookie_request"
    by code_simp
  moreover have "get_key_by_hash sample_store (''#'' @ trim_space (request_key cookie_request)) = None"
    by code_simp
  ultimately show ?thesis
    by (auto simp: cookie_request_def)
qed

text \<open>
  C8. A logged-out session and a revoked key stay dead: whatever logins, authentications, key
  creations, rotations, revocations and account updates follow, the old token and the old key are
  answered with Revoked.
\<close>

theorem revoked_credentials_stay_dead:
  "(get_session s (hash token) \<noteq> None \<and> token \<noteq> [] \<and> (auth_step hash pw_hash pw_ok)\<^sup>*\<^sup>* (logout hash t0 token s) s1 \<longrightarrow>
      fst (authenticate hash now token s1) = Inl Revoked) \<and>
   (get_key_by_hash s (hash (trim_space raw)) = Some k \<and> has_prefix (trim_space raw) key_magic \<and>
    (auth_step hash pw_hash pw_ok)\<^sup>*\<^sup>* (revoke_key t0 (ky_id k) s) s2 \<longrightarrow>
      fst (authenticate_key hash now raw s2) = Inl Revoked)"
proof (intro conjI impI; elim conjE)
  assume "get_session s (hash token) \<noteq> None" "token \<noteq> []" "(auth_step hash pw_hash pw_ok)\<^sup>*\<^sup>* (logout hash t0 token s) s1"
  then have "session_revoked s1 (hash token)"
    by (metis logout_revokes not_None_eq session_revoked_run)
  then show "fst (authenticate hash now token s1) = Inl Revoked"
    using \<open>token \<noteq> []\<close> by (simp add: authenticate_revoked)
next
  assume k: "get_key_by_hash s (hash (trim_space raw)) = Some k" "has_prefix (trim_space raw) key_magic"
    "(auth_step hash pw_hash pw_ok)\<^sup>*\<^sup>* (revoke_key t0 (ky_id k) s) s2"
  then have "key_revoked s2 (hash (trim_space raw))"
    by (metis key_revoked_run revoke_key_revokes)
  then show "fst (authenticate_key hash now raw s2) = Inl Revoked"
    using k(2) by (simp add: authenticate_key_revoked)
qed

theorem revoked_credentials_stay_dead_witness:
  "fst (authenticate ((@) ''#'') 9 ''tok'' (snd (authenticate ((@) ''#'') 8 ''tok'' (logout ((@) ''#'') 7 ''tok'' sample_store)))) = Inl Revoked \<and>
   fst (authenticate_key ((@) ''#'') 9 ''jsk_a'' (snd (rotate_key ((@) ''#'') 8 ''jsk_b'' ''k2'' ''k1'' (revoke_key 7 ''k1'' sample_store)))) = Inl Revoked"
proof
  let ?step = "auth_step ((@) ''#'') Some (=)"
  let ?s1 = "snd (authenticate ((@) ''#'') 8 ''tok'' (logout ((@) ''#'') 7 ''tok'' sample_store))"
  let ?s2 = "snd (rotate_key ((@) ''#'') 8 ''jsk_b'' ''k2'' ''k1'' (revoke_key 7 ''k1'' sample_store))"
  have "?step\<^sup>*\<^sup>* (logout ((@) ''#'') 7 ''tok'' sample_store) ?s1"
    by (intro r_into_rtranclp auth_step.Authenticate)
  moreover have "get_session sample_store ''#tok'' \<noteq> None"
    by (simp add: get_session_def sample_store_def)
  ultimately show "fst (authenticate ((@) ''#'') 9 ''tok'' ?s1) = Inl Revoked"
    using revoked_credentials_stay_dead [of sample_store "(@) ''#''" "''tok''" Some "(=)" 7 ?s1] by simp
  have "fresh_key ((@) ''#'') ''jsk_b'' ''k2'' (revoke_key 7 ''k1'' sample_store)"
    by (simp add: fresh_key_def revoke_key_def update_key_def sample_store_def)
  then have "?step\<^sup>*\<^sup>* (revoke_key 7 ''k1'' sample_store) ?s2"
    by (intro r_into_rtranclp auth_step.Rotate_Key)
  moreover have "trim_space ''jsk_a'' = ''jsk_a''" "has_prefix ''jsk_a'' key_magic"
    by code_simp+
  moreover obtain k where "get_key_by_hash sample_store ''#jsk_a'' = Some k" "ky_id k = ''k1''"
    by (simp add: get_key_by_hash_def sample_store_def)
  ultimately show "fst (authenticate_key ((@) ''#'') 9 ''jsk_a'' ?s2) = Inl Revoked"
    using revoked_credentials_stay_dead [of sample_store "(@) ''#''" "[]" Some "(=)" 7 sample_store 9 "''jsk_a''" k ?s2] by simp
qed

end
