(* ===== verification/Profile_Access.thy ===== *)
theory Profile_Access
  imports Auth_Service Result_Cache
begin

text \<open>
  Who may use and change connection profiles when accounts are on: the profile records and grants of
  the store (\<open>internal/meta/mem.go\<close>), the permission tests of \<open>internal/meta/types.go\<close>, the handlers of
  \<open>internal/mcp/authapi.go\<close> and \<open>internal/mcp/dbapi.go\<close> that change them, and the query handler, which
  puts the components together: resolve the request, check the permission, validate the text
  against the catalog (a parameter), execute. A record's definition, which the store keeps as JSON,
  is the decoded profile. The two-level map of grants is one list; the order of the answer of
  \<open>ListGrants\<close> plays no role here.

  The lemmas show that only those who manage a profile change it, that owners stay, and that
  rows are only given to a live credential with permission.
\<close>

subsection \<open>Records and permissions\<close>

record profile_record =
  rec_id :: string
  rec_owner :: string
  rec_def :: profile
  rec_visibility :: string

record grant =
  gr_profile :: string
  gr_user :: string
  gr_permission :: string

record access_store =
  as_profiles :: "profile_record list"
  as_grants :: "grant list"

definition vis_private :: string where "vis_private = ''private''"
definition vis_shared :: string where "vis_shared = ''shared''"
definition perm_use :: string where "perm_use = ''use''"
definition perm_manage :: string where "perm_manage = ''manage''"

definition is_admin :: "account \<Rightarrow> bool" where
  "is_admin u \<longleftrightarrow> ac_role u = ''admin''"

definition can_use_profile :: "account \<Rightarrow> profile_record \<Rightarrow> grant list \<Rightarrow> bool" where
  "can_use_profile u r gs \<longleftrightarrow>
     is_admin u \<or> rec_owner r = ac_id u \<or> rec_visibility r = vis_shared \<or> (\<exists>g \<in> set gs. gr_user g = ac_id u)"

definition can_manage_profile :: "account \<Rightarrow> profile_record \<Rightarrow> grant list \<Rightarrow> bool" where
  "can_manage_profile u r gs \<longleftrightarrow>
     is_admin u \<or> rec_owner r = ac_id u \<or> (\<exists>g \<in> set gs. gr_user g = ac_id u \<and> gr_permission g = perm_manage)"

datatype access_error = No_Such_Profile | Record_Exists | No_Permission | Manage_Required | Owner_Required
  | Bad_Visibility | Bad_Permission | No_Such_User | Target_Required | No_Such_Grant | Master_Cannot_Own | Id_Mismatch
  | Invalid_Definition profile_error

subsection \<open>The store\<close>

definition get_record :: "access_store \<Rightarrow> string \<Rightarrow> profile_record option" where
  "get_record s pid = find (\<lambda>r. rec_id r = pid) (as_profiles s)"

definition list_grants :: "access_store \<Rightarrow> string \<Rightarrow> grant list" where
  "list_grants s pid = filter (\<lambda>g. gr_profile g = pid) (as_grants s)"

definition upsert_record :: "profile_record \<Rightarrow> bool \<Rightarrow> access_store \<Rightarrow> access_error option \<times> access_store" where
  "upsert_record r create s =
     (let known = get_record s (rec_id r) \<noteq> None in
      if create \<and> known then (Some Record_Exists, s)
      else if \<not> create \<and> \<not> known then (Some No_Such_Profile, s)
      else (None, s \<lparr>as_profiles := filter (\<lambda>x. rec_id x \<noteq> rec_id r) (as_profiles s) @ [r]\<rparr>))"

definition delete_record :: "string \<Rightarrow> access_store \<Rightarrow> access_error option \<times> access_store" where
  "delete_record pid s =
     (if get_record s pid = None then (Some No_Such_Profile, s)
      else (None, s \<lparr>as_profiles := filter (\<lambda>x. rec_id x \<noteq> pid) (as_profiles s),
                     as_grants := filter (\<lambda>g. gr_profile g \<noteq> pid) (as_grants s)\<rparr>))"

definition set_grant :: "grant \<Rightarrow> access_store \<Rightarrow> access_error option \<times> access_store" where
  "set_grant g s =
     (if get_record s (gr_profile g) = None then (Some No_Such_Profile, s)
      else (None, s \<lparr>as_grants :=
        filter (\<lambda>x. \<not> (gr_profile x = gr_profile g \<and> gr_user x = gr_user g)) (as_grants s) @ [g]\<rparr>))"

definition remove_grant :: "string \<Rightarrow> string \<Rightarrow> access_store \<Rightarrow> access_error option \<times> access_store" where
  "remove_grant pid user s =
     (if \<exists>g \<in> set (as_grants s). gr_profile g = pid \<and> gr_user g = user
      then (None, s \<lparr>as_grants := filter (\<lambda>x. \<not> (gr_profile x = pid \<and> gr_user x = user)) (as_grants s)\<rparr>)
      else (Some No_Such_Grant, s))"

subsection \<open>The handlers, for the resolved account\<close>

definition require_manage :: "account \<Rightarrow> string \<Rightarrow> access_store \<Rightarrow> access_error + profile_record" where
  "require_manage u pid s =
     (case get_record s pid of
        None \<Rightarrow> Inl No_Such_Profile
      | Some r \<Rightarrow> if can_manage_profile u r (list_grants s (rec_id r)) then Inr r else Inl Manage_Required)"

text \<open>The account a grant is for: by id, or else by name.\<close>

definition grant_target :: "store \<Rightarrow> string \<Rightarrow> string \<Rightarrow> access_error + string" where
  "grant_target accounts user_id username =
     (if user_id \<noteq> [] then Inr user_id
      else if username = [] then Inl Target_Required
      else (case get_user_by_username username accounts of
          None \<Rightarrow> Inl No_Such_User
        | Some t \<Rightarrow> if ac_id t = [] then Inl Target_Required else Inr (ac_id t)))"

definition put_grant :: "store \<Rightarrow> account \<Rightarrow> string \<Rightarrow> string \<Rightarrow> string \<Rightarrow> string \<Rightarrow> access_store \<Rightarrow> access_error option \<times> access_store" where
  "put_grant accounts u pid username user_id perm s =
     (case require_manage u pid s of
        Inl e \<Rightarrow> (Some e, s)
      | Inr r \<Rightarrow>
          if perm \<notin> {perm_use, perm_manage} then (Some Bad_Permission, s)
          else (case grant_target accounts user_id username of
              Inl e \<Rightarrow> (Some e, s)
            | Inr t \<Rightarrow> set_grant \<lparr>gr_profile = rec_id r, gr_user = t, gr_permission = perm\<rparr> s))"

definition delete_grant :: "account \<Rightarrow> string \<Rightarrow> string \<Rightarrow> access_store \<Rightarrow> access_error option \<times> access_store" where
  "delete_grant u pid user s =
     (case require_manage u pid s of Inl e \<Rightarrow> (Some e, s) | Inr r \<Rightarrow> remove_grant (rec_id r) user s)"

definition put_visibility :: "account \<Rightarrow> string \<Rightarrow> string \<Rightarrow> access_store \<Rightarrow> access_error option \<times> access_store" where
  "put_visibility u pid vis s =
     (case get_record s pid of
        None \<Rightarrow> (Some No_Such_Profile, s)
      | Some r \<Rightarrow>
          if \<not> is_admin u \<and> rec_owner r \<noteq> ac_id u then (Some Owner_Required, s)
          else if vis \<notin> {vis_private, vis_shared} then (Some Bad_Visibility, s)
          else upsert_record (r \<lparr>rec_visibility := vis\<rparr>) False s)"

definition delete_profile :: "account \<Rightarrow> string \<Rightarrow> access_store \<Rightarrow> access_error option \<times> access_store" where
  "delete_profile u pid s =
     (case get_record s pid of
        None \<Rightarrow> (Some No_Such_Profile, s)
      | Some r \<Rightarrow> if \<not> is_admin u \<and> rec_owner r \<noteq> ac_id u then (Some Owner_Required, s) else delete_record pid s)"

text \<open>
  \<open>upsertProfileMeta\<close>; \<open>path_id\<close> and \<open>vis\<close> are empty when missing. A missing visibility becomes private
  before it is stored, and only a given one is checked against the right to change it.
\<close>

definition store_definition :: "account \<Rightarrow> bool \<Rightarrow> profile \<Rightarrow> string \<Rightarrow> string \<Rightarrow> access_store \<Rightarrow> access_error option \<times> access_store" where
  "store_definition u create p vis visibility s =
     (if create
      then upsert_record \<lparr>rec_id = pr_id p, rec_owner = ac_id u, rec_def = p, rec_visibility = visibility\<rparr> True s
      else (case get_record s (pr_id p) of
          None \<Rightarrow> (Some No_Such_Profile, s)
        | Some r \<Rightarrow>
            if \<not> can_manage_profile u r (list_grants s (rec_id r)) then (Some Manage_Required, s)
            else if vis \<noteq> [] \<and> vis \<noteq> rec_visibility r \<and> \<not> is_admin u \<and> rec_owner r \<noteq> ac_id u
            then (Some Owner_Required, s)
            else upsert_record (r \<lparr>rec_def := p, rec_visibility := visibility\<rparr>) False s))"

definition upsert_profile_meta ::
  "account \<Rightarrow> string \<Rightarrow> bool \<Rightarrow> profile \<Rightarrow> string \<Rightarrow> access_store \<Rightarrow> access_error option \<times> access_store" where
  "upsert_profile_meta u path_id create p0 vis s =
     (if ac_id u = ''master'' \<and> create then (Some Master_Cannot_Own, s)
      else if path_id \<noteq> [] \<and> pr_id p0 \<noteq> [] \<and> pr_id p0 \<noteq> path_id then (Some Id_Mismatch, s)
      else
        let p = (if path_id \<noteq> [] then p0 \<lparr>pr_id := path_id\<rparr> else p0);
            visibility = (if vis = [] then vis_private else vis) in
        if visibility \<notin> {vis_private, vis_shared} then (Some Bad_Visibility, s)
        else (case validate_profile p of
            Some e \<Rightarrow> (Some (Invalid_Definition e), s)
          | None \<Rightarrow> store_definition u create p vis visibility s))"

text \<open>One request of the account \<open>u\<close> that reaches one of the handlers.\<close>

inductive access_step :: "account \<Rightarrow> access_store \<Rightarrow> access_store \<Rightarrow> bool" for u where
  Put_Grant: "access_step u s (snd (put_grant accounts u pid username user_id perm s))"
| Delete_Grant: "access_step u s (snd (delete_grant u pid user s))"
| Put_Visibility: "access_step u s (snd (put_visibility u pid vis s))"
| Delete_Profile: "access_step u s (snd (delete_profile u pid s))"
| Upsert: "access_step u s (snd (upsert_profile_meta u path_id create p vis s))"

subsection \<open>What a step may change\<close>

lemma get_record_upsert:
  "get_record (s \<lparr>as_profiles := filter (\<lambda>x. rec_id x \<noteq> rec_id r) (as_profiles s) @ [r]\<rparr>) pid =
   (if pid = rec_id r then Some r else get_record s pid)"
proof -
  have "find (\<lambda>x. rec_id x = pid) (filter (\<lambda>x. rec_id x \<noteq> i) xs @ ys) =
      (if pid = i then find (\<lambda>x. rec_id x = pid) ys
       else case find (\<lambda>x. rec_id x = pid) xs of Some x \<Rightarrow> Some x | None \<Rightarrow> find (\<lambda>x. rec_id x = pid) ys)"
    for i and xs ys :: "profile_record list"
    by (induction xs) auto
  then show ?thesis
    by (auto simp: get_record_def split: option.split)
qed

lemma get_record_filter:
  "get_record (s \<lparr>as_profiles := filter (\<lambda>x. rec_id x \<noteq> i) (as_profiles s)\<rparr>) pid =
   (if pid = i then None else get_record s pid)"
proof -
  have "find (\<lambda>x. rec_id x = pid) (filter (\<lambda>x. rec_id x \<noteq> i) xs) = (if pid = i then None else find (\<lambda>x. rec_id x = pid) xs)"
    for xs :: "profile_record list"
    by (induction xs) auto
  then show ?thesis
    by (simp add: get_record_def)
qed

lemma get_record_id: "get_record s pid = Some r \<Longrightarrow> rec_id r = pid"
  by (auto simp: get_record_def find_Some_iff)

lemma get_record_grants [simp]: "get_record (s \<lparr>as_grants := gs\<rparr>) pid = get_record s pid"
  by (simp add: get_record_def)

lemma list_grants_profiles [simp]: "list_grants (s \<lparr>as_profiles := ps\<rparr>) pid = list_grants s pid"
  by (simp add: list_grants_def)

text \<open>What happens to one profile: nothing, or one of the changes the actor has the right to.\<close>

definition may_change :: "account \<Rightarrow> profile_record option \<Rightarrow> grant list \<Rightarrow> profile_record option \<Rightarrow> grant list \<Rightarrow> bool" where
  "may_change u r gs r' gs' \<longleftrightarrow>
     (r' = r \<and> gs' = gs) \<or>
     (case (r, r') of
        (None, Some x') \<Rightarrow> rec_owner x' = ac_id u \<and> gs' = gs
      | (Some x, None) \<Rightarrow> (is_admin u \<or> rec_owner x = ac_id u) \<and> gs' = []
      | (Some x, Some x') \<Rightarrow> can_manage_profile u x gs \<and> rec_owner x' = rec_owner x \<and> rec_id x' = rec_id x \<and>
          (rec_visibility x' = vis_shared \<and> rec_visibility x \<noteq> vis_shared \<longrightarrow> is_admin u \<or> rec_owner x = ac_id u)
      | (None, None) \<Rightarrow> False)"

lemma may_change_refl [intro]: "may_change u r gs r gs"
  by (simp add: may_change_def)

lemma may_change_upsert:
  assumes "get_record s (rec_id x) = Some x" "can_manage_profile u x (list_grants s (rec_id x))" "rec_id x' = rec_id x" "rec_owner x' = rec_owner x"
    and "rec_visibility x' = vis_shared \<Longrightarrow> rec_visibility x \<noteq> vis_shared \<Longrightarrow> is_admin u \<or> rec_owner x = ac_id u"
  shows "may_change u (get_record s pid) (list_grants s pid)
    (get_record (snd (upsert_record x' False s)) pid) (list_grants (snd (upsert_record x' False s)) pid)"
proof -
  have "get_record (snd (upsert_record x' False s)) pid = (if pid = rec_id x then Some x' else get_record s pid)"
    "list_grants (snd (upsert_record x' False s)) pid = list_grants s pid"
    using get_record_upsert [of x' s pid] assms(1,3) by (simp_all add: upsert_record_def)
  then show ?thesis
    using assms by (auto simp: may_change_def)
qed

lemma require_manage_Inr:
  "require_manage u pid s = Inr r \<Longrightarrow> get_record s pid = Some r \<and> rec_id r = pid \<and> can_manage_profile u r (list_grants s pid)"
  by (auto simp: require_manage_def dest: get_record_id split: option.splits if_splits)

lemma set_grant_other:
  "get_record (snd (set_grant g s)) pid = get_record s pid"
  "pid \<noteq> gr_profile g \<Longrightarrow> list_grants (snd (set_grant g s)) pid = list_grants s pid"
  by (auto simp: set_grant_def list_grants_def intro: filter_cong)

lemma remove_grant_other:
  "get_record (snd (remove_grant i user s)) pid = get_record s pid"
  "pid \<noteq> i \<Longrightarrow> list_grants (snd (remove_grant i user s)) pid = list_grants s pid"
  by (auto simp: remove_grant_def list_grants_def intro: filter_cong)

lemma may_change_grants:
  assumes "get_record s i = Some r" "can_manage_profile u r (list_grants s i)" "pid \<noteq> i \<Longrightarrow> gs' = list_grants s pid"
  shows "may_change u (get_record s pid) (list_grants s pid) (get_record s pid) gs'"
  using assms by (cases "pid = i") (auto simp: may_change_def)

lemma create_may_change:
  "rec_owner x = ac_id u \<Longrightarrow>
   may_change u (get_record s pid) (list_grants s pid)
     (get_record (snd (upsert_record x True s)) pid) (list_grants (snd (upsert_record x True s)) pid)"
  using get_record_upsert [of x s pid] by (auto simp: upsert_record_def may_change_def Let_def split: option.split)

lemma vis_distinct [simp]: "vis_private \<noteq> vis_shared" "vis_shared \<noteq> []" "vis_private \<noteq> []"
  by (simp_all add: vis_private_def vis_shared_def)

lemma store_may_change:
  assumes "visibility = (if vis = [] then vis_private else vis)"
  shows "may_change u (get_record s pid) (list_grants s pid)
     (get_record (snd (store_definition u create p vis visibility s)) pid)
     (list_grants (snd (store_definition u create p vis visibility s)) pid)"
proof (cases "create \<or> get_record s (pr_id p) = None")
  case True
  then show ?thesis
    by (cases create) (simp_all add: store_definition_def create_may_change may_change_refl)
next
  case False
  then obtain r where r: "get_record s (pr_id p) = Some r" by blast
  show ?thesis
  proof (cases "can_manage_profile u r (list_grants s (rec_id r)) \<and>
      \<not> (vis \<noteq> [] \<and> vis \<noteq> rec_visibility r \<and> \<not> is_admin u \<and> rec_owner r \<noteq> ac_id u)")
    case True
    then have "snd (store_definition u create p vis visibility s) =
        snd (upsert_record (r\<lparr>rec_def := p, rec_visibility := visibility\<rparr>) False s)"
      using False r by (auto simp: store_definition_def)
    moreover have "is_admin u \<or> rec_owner r = ac_id u" if "visibility = vis_shared" "rec_visibility r \<noteq> vis_shared"
      using that True assms by (auto split: if_splits)
    ultimately show ?thesis
      using may_change_upsert [of s r u "r\<lparr>rec_def := p, rec_visibility := visibility\<rparr>" pid] True get_record_id [OF r] r
      by simp
  next
    case no: False
    then have "snd (store_definition u create p vis visibility s) = s"
      using False r unfolding store_definition_def by auto
    then show ?thesis
      by (simp add: may_change_refl)
  qed
qed

lemma upsert_may_change:
  "may_change u (get_record s pid) (list_grants s pid)
     (get_record (snd (upsert_profile_meta u path_id create p0 vis s)) pid)
     (list_grants (snd (upsert_profile_meta u path_id create p0 vis s)) pid)"
proof -
  define p where "p = (if path_id \<noteq> [] then p0\<lparr>pr_id := path_id\<rparr> else p0)"
  have "snd (upsert_profile_meta u path_id create p0 vis s) \<in>
      {s, snd (store_definition u create p vis (if vis = [] then vis_private else vis) s)}"
    unfolding upsert_profile_meta_def Let_def p_def [symmetric] by (cases "validate_profile p") auto
  then show ?thesis
    using store_may_change [OF refl, of u s pid create p vis] may_change_refl by (elim insertE) simp_all
qed

lemma access_step_may_change:
  assumes "access_step u s s'"
  shows "may_change u (get_record s pid) (list_grants s pid) (get_record s' pid) (list_grants s' pid)"
  using assms
proof cases
  case (Put_Grant accounts i username user_id perm)
  show ?thesis
  proof (cases "require_manage u i s")
    case (Inr r)
    note r = require_manage_Inr [OF Inr]
    from Inr show ?thesis
      using Put_Grant r may_change_grants [of s i r u pid] may_change_refl
      by (auto simp: put_grant_def set_grant_other split: sum.split)
  qed (use Put_Grant in \<open>auto simp: put_grant_def\<close>)
next
  case (Delete_Grant i user)
  show ?thesis
  proof (cases "require_manage u i s")
    case (Inr r)
    note r = require_manage_Inr [OF Inr]
    from Inr show ?thesis
      using Delete_Grant r may_change_grants [of s i r u pid] by (auto simp: delete_grant_def remove_grant_other)
  qed (use Delete_Grant in \<open>auto simp: delete_grant_def\<close>)
next
  case (Put_Visibility i vis)
  show ?thesis
  proof (cases "get_record s i")
    case (Some r)
    then have "rec_id r = i" by (rule get_record_id)
    then show ?thesis
      using Put_Visibility Some may_change_upsert [of s r u "r\<lparr>rec_visibility := vis\<rparr>" pid]
      by (auto simp: put_visibility_def can_manage_profile_def)
  qed (use Put_Visibility in \<open>auto simp: put_visibility_def\<close>)
next
  case (Delete_Profile i)
  show ?thesis
  proof (cases "get_record s i")
    case (Some r)
    have "list_grants (s\<lparr>as_profiles := ps, as_grants := filter (\<lambda>g. gr_profile g \<noteq> i) (as_grants s)\<rparr>) pid = list_grants s pid"
      if "pid \<noteq> i" for ps
      using that by (auto simp: list_grants_def intro: filter_cong)
    then show ?thesis
      using Delete_Profile Some
      by (cases "pid = i") (simp_all add: delete_profile_def delete_record_def get_record_filter may_change_def,
        simp_all add: list_grants_def)
  qed (use Delete_Profile in \<open>auto simp: delete_profile_def\<close>)
next
  case (Upsert path_id create p vis)
  then show ?thesis
    using upsert_may_change by simp
qed

text \<open>A profile that does not exist has no grants, so a new one starts without any.\<close>

definition no_stray_grants :: "access_store \<Rightarrow> bool" where
  "no_stray_grants s \<longleftrightarrow> (\<forall>pid. get_record s pid = None \<longrightarrow> list_grants s pid = [])"

lemma no_stray_grants_step:
  assumes "access_step u s s'" "no_stray_grants s"
  shows "no_stray_grants s'"
  unfolding no_stray_grants_def
proof (intro allI impI)
  fix pid
  assume "get_record s' pid = None"
  then show "list_grants s' pid = []"
    using access_step_may_change [OF assms(1), of pid] assms(2)
    by (cases "get_record s pid") (auto simp: may_change_def no_stray_grants_def)
qed

lemma new_profile_private_to_owner:
  assumes "access_step u s s'" "no_stray_grants s" "get_record s pid = None" "get_record s' pid = Some r"
  shows "rec_owner r = ac_id u \<and> list_grants s' pid = []"
  using access_step_may_change [OF assms(1), of pid] assms by (auto simp: may_change_def no_stray_grants_def)

text \<open>Requests of a group of accounts, in any order.\<close>

definition group_step :: "account set \<Rightarrow> access_store \<Rightarrow> access_store \<Rightarrow> bool" where
  "group_step A s s' \<longleftrightarrow> (\<exists>u \<in> A. access_step u s s')"

lemma group_unchanged:
  assumes "(group_step A)\<^sup>*\<^sup>* s s'" "get_record s pid = Some r" "\<forall>u \<in> A. \<not> can_manage_profile u r (list_grants s pid)"
  shows "get_record s' pid = Some r \<and> list_grants s' pid = list_grants s pid"
  using assms(1)
proof (induction rule: rtranclp_induct)
  case (step y z)
  then obtain u where u: "u \<in> A" "access_step u y z"
    by (auto simp: group_step_def)
  have "\<not> can_manage_profile u r (list_grants s pid)" "\<not> is_admin u" "rec_owner r \<noteq> ac_id u"
    using assms(3) u(1) by (auto simp: can_manage_profile_def)
  then show ?case
    using access_step_may_change [OF u(2), of pid] step.IH by (cases "get_record z pid") (auto simp: may_change_def)
qed (use assms in simp)

lemma group_keeps_owner:
  assumes "(group_step A)\<^sup>*\<^sup>* s s'" "get_record s pid = Some r" "\<forall>u \<in> A. \<not> is_admin u \<and> ac_id u \<noteq> rec_owner r"
  shows "\<exists>r'. get_record s' pid = Some r' \<and> rec_owner r' = rec_owner r \<and> (rec_visibility r' = vis_shared \<longrightarrow> rec_visibility r = vis_shared)"
  using assms(1)
proof (induction rule: rtranclp_induct)
  case (step y z)
  then obtain u x where u: "u \<in> A" "access_step u y z" and x: "get_record y pid = Some x" "rec_owner x = rec_owner r"
      "rec_visibility x = vis_shared \<longrightarrow> rec_visibility r = vis_shared"
    by (auto simp: group_step_def)
  have "\<not> is_admin u" "rec_owner x \<noteq> ac_id u"
    using assms(3) u(1) x(2) by auto
  then show ?case
    using access_step_may_change [OF u(2), of pid] x by (cases "get_record z pid") (auto simp: may_change_def)
qed (use assms in simp)

text \<open>
  C15. Profiles are changed by those who manage them: whatever requests a group of accounts makes, in
  any order, a profile that none of them manages keeps its record and its grants; and a profile
  that none of them owns, with no administrator among them, is neither deleted nor given another
  owner nor shared with everybody, even by accounts with a manage grant.
\<close>

theorem profile_changes_authorised:
  assumes "(group_step A)\<^sup>*\<^sup>* s s'" "get_record s pid = Some r"
  shows "((\<forall>u \<in> A. \<not> can_manage_profile u r (list_grants s pid)) \<longrightarrow>
      get_record s' pid = Some r \<and> list_grants s' pid = list_grants s pid) \<and>
    ((\<forall>u \<in> A. \<not> is_admin u \<and> ac_id u \<noteq> rec_owner r) \<longrightarrow>
      (\<exists>r'. get_record s' pid = Some r' \<and> rec_owner r' = rec_owner r \<and>
        (rec_visibility r' = vis_shared \<longrightarrow> rec_visibility r = vis_shared)))"
  using group_unchanged [OF assms] group_keeps_owner [OF assms] by blast

subsection \<open>Queries\<close>

text \<open>
  \<open>canUseProfileID\<close> in the mode with accounts. A missing account, which stands for a local client, may
  use everything; administrators may name profiles that do not exist.
\<close>

definition can_use_profile_id :: "account option \<Rightarrow> string \<Rightarrow> access_store \<Rightarrow> access_error option" where
  "can_use_profile_id actor pid s =
     (case actor of
        None \<Rightarrow> None
      | Some u \<Rightarrow>
          if is_admin u then None
          else (case get_record s pid of
              None \<Rightarrow> Some No_Such_Profile
            | Some r \<Rightarrow> if can_use_profile u r (list_grants s (rec_id r)) then None else Some No_Permission))"

text \<open>
  The test before the routes that show the catalog, the data sets and the schemas of a profile. They
  take the account from the request's context, where only the MCP endpoint puts one, and do not
  resolve the request's credentials.
\<close>

definition context_account :: "account option" where
  "context_account = None"

definition catalog_route_gate :: "credentials \<Rightarrow> string \<Rightarrow> access_store \<Rightarrow> access_error option" where
  "catalog_route_gate cr pid s = can_use_profile_id context_account pid s"

text \<open>So whoever asks, without any credential, gets through, also for a private profile.\<close>

lemma catalog_route_open: "catalog_route_gate cr pid s = None"
  by (simp add: catalog_route_gate_def can_use_profile_id_def context_account_def)

text \<open>\<open>metaProfileStore.GetProfileByID\<close>.\<close>

definition meta_get :: "access_store \<Rightarrow> string \<Rightarrow> string + profile" where
  "meta_get s pid =
     (case get_record s pid of
        None \<Rightarrow> Inl (''db profile not found: '' @ pid)
      | Some r \<Rightarrow> Inr (with_defaults ((rec_def r) \<lparr>pr_id := rec_id r\<rparr>)))"

interpretation meta_source: profile_source "meta_get s" for s
proof
  fix pid p
  assume "meta_get s pid = Inr p"
  then obtain r where r: "get_record s pid = Some r" "p = with_defaults ((rec_def r)\<lparr>pr_id := rec_id r\<rparr>)"
    by (auto simp: meta_get_def split: option.splits)
  then show "profile_canonical p" by (simp add: with_defaults_canonical_aux)
  show "pr_id p = pid" using r get_record_id by simp
qed

datatype query_refusal = Unauthenticated auth_error | Empty_Request | Not_Permitted access_error | Not_Valid | Failed exec_error

record site =
  si_accounts :: store
  si_access :: access_store
  si_server :: server

text \<open>
  The handler of \<open>/api/query/execute\<close> and \<open>/api/query/preview\<close>; \<open>valid\<close> is the verdict of the catalog's
  validation.
\<close>

definition handle_query ::
  "(string \<Rightarrow> string) \<Rightarrow> int \<Rightarrow> string \<Rightarrow> credentials \<Rightarrow> (string \<Rightarrow> bool) \<Rightarrow> exec_env \<Rightarrow> string list \<Rightarrow>
    string \<Rightarrow> string \<Rightarrow> exec_options \<Rightarrow> bool \<Rightarrow> site \<Rightarrow> (query_refusal + served) \<times> site" where
  "handle_query hash now admin_token cr valid env pii pid sql opts fresh st =
     (case resolve_request hash now admin_token cr (si_accounts st) of (x, accounts) \<Rightarrow>
       let st1 = st \<lparr>si_accounts := accounts\<rparr> in
       (case x of
          Inl e \<Rightarrow> (Inl (Unauthenticated e), st1)
        | Inr u \<Rightarrow>
            if pid = [] \<or> trim_space sql = [] then (Inl Empty_Request, st1)
            else (case can_use_profile_id (Some u) pid (si_access st) of
                Some e \<Rightarrow> (Inl (Not_Permitted e), st1)
              | None \<Rightarrow>
                  if \<not> valid sql then (Inl Not_Valid, st1)
                  else (case execute_guarded (env \<lparr>ee_get := meta_get (si_access st)\<rparr>) pii pid sql
                           (opts \<lparr>eo_user := ac_username u\<rparr>) fresh (si_server st) of
                      (Inl e, sv) \<Rightarrow> (Inl (Failed e), st1 \<lparr>si_server := sv\<rparr>)
                    | (Inr a, sv) \<Rightarrow> (Inr a, st1 \<lparr>si_server := sv\<rparr>)))))"

lemma can_use_profile_id_None:
  "can_use_profile_id (Some u) pid s = None \<Longrightarrow>
   is_admin u \<or> (\<exists>r. get_record s pid = Some r \<and> can_use_profile u r (list_grants s pid))"
  by (auto simp: can_use_profile_id_def dest: get_record_id split: if_splits option.splits)

lemma fresh_answer_capped:
  assumes "execute_guarded env pii pid sql opts fresh sv = (Inr a, sv')" "\<not> sr_cached a" "ee_get env = meta_get s"
  shows "\<exists>p. meta_get s pid = Inr p \<and> int (qr_row_count (sr_result a)) \<le> po_max_rows (pr_policy p)"
proof -
  obtain sv1 where "execute_fresh env pii pid sql opts sv1 = (Inr a, sv')"
    using assms(1,2) by (auto simp: execute_guarded_def split: if_splits prod.splits option.splits)
  then obtain r m ms where r: "execute env pid sql opts (sv_manager sv1) = (Inr r, m)" "mask_pii_result pii r = (ms, sr_result a)"
    by (auto simp: execute_fresh_def split: prod.splits sum.splits)
  have "qr_row_count (sr_result a) = qr_row_count r"
    using r(2) by (rule mask_row_count)
  then show ?thesis
    using meta_source.execute_capped [OF assms(3) r(1)] by auto
qed

text \<open>
  C14. Rows are given only with permission: either a query request is refused and neither the cache
  nor the connection manager, and so no database, is touched; or the request acts for an account
  with a live credential that is an administrator or may use the profile (owner, grant or shared),
  the text passed the catalog's validation, and a freshly executed answer has at most as many rows
  as the stored profile allows.
\<close>

theorem query_needs_permission:
  assumes "handle_query hash now admin_token cr valid env pii pid sql opts fresh st = (x, st')"
  shows "((\<exists>e. x = Inl e) \<and> si_server st' = si_server st) \<or>
    (\<exists>u. live_credential hash now admin_token cr (si_accounts st) u \<and>
      (is_admin u \<or> (\<exists>r. get_record (si_access st) pid = Some r \<and> can_use_profile u r (list_grants (si_access st) pid))) \<and>
      valid sql \<and>
      (\<forall>a. x = Inr a \<and> \<not> sr_cached a \<longrightarrow>
        (\<exists>p. meta_get (si_access st) pid = Inr p \<and> int (qr_row_count (sr_result a)) \<le> po_max_rows (pr_policy p))))"
proof -
  obtain y accounts where y: "resolve_request hash now admin_token cr (si_accounts st) = (y, accounts)" by fastforce
  show ?thesis
  proof (cases "\<exists>u. y = Inr u \<and> can_use_profile_id (Some u) pid (si_access st) = None \<and> valid sql")
    case True
    then obtain u where u: "y = Inr u" "can_use_profile_id (Some u) pid (si_access st) = None" "valid sql" by blast
    let ?env = "env\<lparr>ee_get := meta_get (si_access st)\<rparr>"
    let ?opts = "opts\<lparr>eo_user := ac_username u\<rparr>"
    obtain z sv where z: "execute_guarded ?env pii pid sql ?opts fresh (si_server st) = (z, sv)" by fastforce
    have "x = Inl Empty_Request \<and> si_server st' = si_server st \<or> x = map_sum Failed id z"
      using assms u by (auto simp: handle_query_def y z Let_def split: if_splits sum.splits)
    moreover have "live_credential hash now admin_token cr (si_accounts st) u"
      using resolve_request_live [of hash now admin_token cr "si_accounts st" u] y u(1) by simp
    ultimately show ?thesis
      using u can_use_profile_id_None [OF u(2)] fresh_answer_capped [of ?env pii pid sql ?opts fresh "si_server st" _ sv "si_access st"] z
      by (cases z) auto
  next
    case False
    then show ?thesis
      using assms by (cases y) (auto simp: handle_query_def y Let_def split: if_splits option.splits)
  qed
qed

subsection \<open>A concrete site\<close>

definition dw_record :: profile_record where
  "dw_record = \<lparr>rec_id = ''dw'', rec_owner = ''1'', rec_def = demo_profile \<lparr>pr_policy := (pr_policy demo_profile) \<lparr>po_plan_gate := Some False\<rparr>\<rparr>,
     rec_visibility = ''shared''\<rparr>"

definition sample_access :: access_store where
  "sample_access = \<lparr>as_profiles = [dw_record], as_grants = [\<lparr>gr_profile = ''dw'', gr_user = ''2'', gr_permission = ''manage''\<rparr>]\<rparr>"

definition plain_user :: "string \<Rightarrow> account" where
  "plain_user i = sample_admin \<lparr>ac_id := i, ac_role := ''user''\<rparr>"

lemma sample_lookup: "get_record sample_access ''dw'' = Some dw_record" "list_grants sample_access ''dw'' = as_grants sample_access"
  by (simp_all add: get_record_def list_grants_def sample_access_def dw_record_def)

text \<open>
  \<open>upsertProfileMeta\<close> does not check a missing visibility: the account 2, which has a manage grant and
  may not change the visibility, makes the shared profile private with an update that does not
  mention it.
\<close>

lemma manage_grantee_unshares:
  "fst (put_visibility (plain_user ''2'') ''dw'' ''private'' sample_access) = Some Owner_Required"
  "fst (upsert_profile_meta (plain_user ''2'') ''dw'' False (rec_def dw_record) ''private'' sample_access) = Some Owner_Required"
  "map_option rec_visibility (get_record (snd (upsert_profile_meta (plain_user ''2'') ''dw'' False (rec_def dw_record) [] sample_access)) ''dw'')
     = Some ''private''"
  by code_simp+

theorem profile_changes_authorised_witness:
  "get_record (snd (delete_profile (plain_user ''3'') ''dw'' sample_access)) ''dw'' = Some dw_record \<and>
   list_grants (snd (delete_profile (plain_user ''3'') ''dw'' sample_access)) ''dw'' = as_grants sample_access"
proof -
  have "(group_step {plain_user ''3''})\<^sup>*\<^sup>* sample_access (snd (delete_profile (plain_user ''3'') ''dw'' sample_access))"
    by (intro r_into_rtranclp) (simp add: group_step_def access_step.Delete_Profile)
  from profile_changes_authorised [OF this sample_lookup(1)] show ?thesis
    by (simp add: sample_lookup) (simp add: can_manage_profile_def is_admin_def plain_user_def sample_admin_def dw_record_def
        sample_access_def perm_manage_def)
qed

definition sample_site :: site where
  "sample_site = \<lparr>si_accounts = sample_store, si_access = sample_access, si_server = new_server\<rparr>"

lemma sample_meta_get: "meta_get sample_access ''dw'' = Inr plain_profile"
  by (simp add: meta_get_def sample_lookup) (simp add: dw_record_def plain_profile_def demo_profile_def)

theorem query_needs_permission_witness:
  "\<exists>a. fst (handle_query ((@) ''#'') 9 [] cookie_request (\<lambda>_. True) (table_env 0) [''A''] ''dw'' ''SELECT a'' demo_options True sample_site) = Inr a \<and>
     int (qr_row_count (sr_result a)) \<le> po_max_rows (pr_policy plain_profile)"
proof -
  let ?call = "handle_query ((@) ''#'') 9 [] cookie_request (\<lambda>_. True) (table_env 0) [''A''] ''dw'' ''SELECT a'' demo_options True sample_site"
  obtain acc where acc: "resolve_request ((@) ''#'') 9 [] cookie_request sample_store = (Inr sample_admin, acc)"
    using sample_request by (metis prod.collapse)
  obtain r m where r: "execute ((table_env 0)\<lparr>ee_get := meta_get sample_access\<rparr>) ''dw'' ''SELECT a'' (demo_options\<lparr>eo_user := ''root''\<rparr>) new_manager = (Inr r, m)"
    using table_run_for [of "meta_get sample_access", OF sample_meta_get] by blast
  obtain ms r' where mr: "mask_pii_result [''A''] r = (ms, r')" by fastforce
  have "trim_space ''SELECT a'' \<noteq> []" "can_use_profile_id (Some sample_admin) ''dw'' sample_access = None" "ac_username sample_admin = ''root''"
    by code_simp+
  then obtain a st' where a: "?call = (Inr a, st')" "\<not> sr_cached a"
    using r mr by (simp add: handle_query_def sample_site_def acc execute_guarded_def execute_fresh_def new_server_def)
  then show ?thesis
    using query_needs_permission [OF a(1)] sample_meta_get by (auto simp: sample_site_def)
qed

end
