(* ===== verification/Dba_Console.thy ===== *)
theory Dba_Console
  imports Dba_Pool Profile_Access
begin

text \<open>
  The DBA tools: user and role management, grants, databases, settings, sessions, maintenance
  (\<open>internal/mcp/dbatools.go\<close>), the routes of the DBA console (\<open>dbaapi.go\<close>, \<open>requireDBA\<close> of \<open>admin.go\<close>) and
  the MCP tools with the same names (\<open>server.go\<close>). Each tool is a function of the request that gives
  the statement and the text for the audit log, and a handler that sends it on the privileged path
  of \<open>Dba_Pool\<close> and appends the audit entry. The audit file itself is \<open>Audit_Chain\<close>; here it is the
  list of entries. Times are left out.

  The lemmas show that names and passwords are read back by the database as they were given
  (PostgreSQL), that passwords do not reach the audit log, that every statement has its entry, and
  that only the dba and admin roles get through.
\<close>

subsection \<open>Quoting\<close>

datatype dba_refusal =
    No_Dialect exec_error
  | Ident_Empty
  | Ident_Illegal
  | No_Changes
  | Password_Only
  | Needs_Confirm
  | No_Privileges
  | No_Object
  | Bad_Parameter
  | No_Pid
  | Bad_Operation
  | Needs_Target
  | Not_Supported
  | No_Sql

definition carriage_return :: char where "carriage_return = CHR 0x0D"
definition tab :: char where "tab = CHR 0x09"

definition ident_quote :: "dialect \<Rightarrow> char" where
  "ident_quote d = (if d = Postgres then dquote else backtick)"

definition quote_ident :: "dialect \<Rightarrow> string \<Rightarrow> dba_refusal + string" where
  "quote_ident d name =
     (let n = trim_space name; q = ident_quote d in
      if n = [] then Inl Ident_Empty
      else if \<exists>c \<in> set n. c = CHR 0x00 \<or> c = newline \<or> c = carriage_return then Inl Ident_Illegal
      else Inr (q # replace_char q [q, q] n @ [q]))"

definition quote_literal :: "string \<Rightarrow> string" where
  "quote_literal s = quote # replace_char quote [quote, quote] s @ [quote]"

definition redacted :: string where
  "redacted = quote # ''***'' @ [quote]"

definition bool_word :: "bool \<Rightarrow> string \<Rightarrow> string \<Rightarrow> string" where
  "bool_word v yes no = (if v then yes else no)"

subsection \<open>The statements: what is sent, and what the audit log gets\<close>

record dba_user_opts =
  uo_username :: string
  uo_password :: string
  uo_can_login :: "bool option"
  uo_superuser :: "bool option"
  uo_create_db :: "bool option"
  uo_create_role :: "bool option"

definition create_attrs :: "dba_user_opts \<Rightarrow> string list" where
  "create_attrs o' =
     [if uo_can_login o' = None \<or> uo_can_login o' = Some True then ''LOGIN'' else ''NOLOGIN'']
     @ (if uo_superuser o' = Some True then [''SUPERUSER''] else [])
     @ (if uo_create_db o' = Some True then [''CREATEDB''] else [])
     @ (if uo_create_role o' = Some True then [''CREATEROLE''] else [])"

definition with_password :: "string \<Rightarrow> string \<Rightarrow> string \<Rightarrow> string \<times> string" where
  "with_password base clause password =
     (if password \<noteq> [] then (base @ clause @ quote_literal password, base @ clause @ redacted) else (base, base))"

definition any_host :: "string \<Rightarrow> string" where
  "any_host username = quote_literal username @ ''@'' @ quote_literal ''%''"

definition create_user_sql :: "dialect \<Rightarrow> dba_user_opts \<Rightarrow> dba_refusal + string \<times> string" where
  "create_user_sql d o' =
     bind_err (quote_ident d (uo_username o')) (\<lambda>qid. Inr (
       if d = Postgres
       then with_password (''CREATE ROLE '' @ qid @ '' '' @ join_with '' '' (create_attrs o')) '' PASSWORD '' (uo_password o')
       else with_password (''CREATE USER '' @ any_host (uo_username o')) '' IDENTIFIED BY '' (uo_password o')))"

definition optional_word :: "bool option \<Rightarrow> string \<Rightarrow> string \<Rightarrow> string list" where
  "optional_word v yes no = (case v of None \<Rightarrow> [] | Some b \<Rightarrow> [bool_word b yes no])"

definition alter_clauses :: "dba_user_opts \<Rightarrow> string list" where
  "alter_clauses o' =
     optional_word (uo_can_login o') ''LOGIN'' ''NOLOGIN'' @ optional_word (uo_superuser o') ''SUPERUSER'' ''NOSUPERUSER''
     @ optional_word (uo_create_db o') ''CREATEDB'' ''NOCREATEDB'' @ optional_word (uo_create_role o') ''CREATEROLE'' ''NOCREATEROLE''"

definition alter_body :: "string list \<Rightarrow> string \<Rightarrow> string" where
  "alter_body clauses pw_clause =
     (if clauses = [] then pw_clause else '' WITH '' @ join_with '' '' (clauses @ [trim_prefix pw_clause '' '']))"

definition alter_user_sql :: "dialect \<Rightarrow> dba_user_opts \<Rightarrow> dba_refusal + string \<times> string" where
  "alter_user_sql d o' =
     bind_err (quote_ident d (uo_username o')) (\<lambda>qid.
       if d = Postgres then
         let clauses = alter_clauses o';
             pw = (if uo_password o' = [] then [] else '' PASSWORD '' @ quote_literal (uo_password o'));
             pw_audit = (if uo_password o' = [] then [] else '' PASSWORD '' @ redacted) in
         if clauses = [] \<and> pw = [] then Inl No_Changes
         else Inr (''ALTER ROLE '' @ qid @ alter_body clauses pw, ''ALTER ROLE '' @ qid @ alter_body clauses pw_audit)
       else if uo_password o' = [] then Inl Password_Only
       else Inr (with_password (''ALTER USER '' @ any_host (uo_username o')) '' IDENTIFIED BY '' (uo_password o')))"

definition drop_user_sql :: "dialect \<Rightarrow> string \<Rightarrow> dba_refusal + string" where
  "drop_user_sql d username =
     (if d = Postgres then bind_err (quote_ident d username) (\<lambda>qid. Inr (''DROP ROLE IF EXISTS '' @ qid))
      else Inr (''DROP USER IF EXISTS '' @ any_host username))"

definition grant_sql :: "dialect \<Rightarrow> string \<Rightarrow> string \<Rightarrow> string \<Rightarrow> bool \<Rightarrow> bool \<Rightarrow> dba_refusal + string" where
  "grant_sql d privileges object grantee revoke with_grant =
     (let priv = trim_space privileges; obj = trim_space object in
      if priv = [] then Inl No_Privileges
      else if obj = [] then Inl No_Object
      else bind_err (quote_ident d grantee) (\<lambda>gid. Inr (
        if revoke then ''REVOKE '' @ priv @ '' ON '' @ obj @ '' FROM '' @ gid
        else ''GRANT '' @ priv @ '' ON '' @ obj @ '' TO '' @ gid @ (if with_grant then '' WITH GRANT OPTION'' else []))))"

definition create_database_sql :: "dialect \<Rightarrow> string \<Rightarrow> string \<Rightarrow> string \<Rightarrow> dba_refusal + string" where
  "create_database_sql d name owner encoding =
     bind_err (quote_ident d name) (\<lambda>qid.
       let ow = trim_space owner; enc = trim_space encoding in
       if d = Postgres then
         bind_err (if ow = [] then Inr [] else bind_err (quote_ident d ow) (\<lambda>oq. Inr ('' OWNER '' @ oq))) (\<lambda>owner_clause.
           Inr (''CREATE DATABASE '' @ qid @ owner_clause @ (if enc = [] then [] else '' ENCODING '' @ quote_literal enc)))
       else Inr (''CREATE DATABASE '' @ qid @ (if enc = [] then [] else '' CHARACTER SET '' @ enc)))"

definition drop_database_sql :: "dialect \<Rightarrow> string \<Rightarrow> dba_refusal + string" where
  "drop_database_sql d name = bind_err (quote_ident d name) (\<lambda>qid. Inr (''DROP DATABASE IF EXISTS '' @ qid))"

definition set_parameter_sql :: "dialect \<Rightarrow> string \<Rightarrow> string \<Rightarrow> string \<Rightarrow> dba_refusal + string" where
  "set_parameter_sql d parameter v scope =
     (let param = trim_space parameter; sc = to_upper (trim_space scope) in
      if param = [] \<or> (\<exists>c \<in> set param. c \<in> set [CHR '' '', tab, newline, carriage_return, CHR '';'', quote, dquote]) then Inl Bad_Parameter
      else if d = Postgres then Inr (''ALTER SYSTEM SET '' @ param @ '' = '' @ quote_literal v)
      else Inr (''SET '' @ (if sc \<noteq> ''GLOBAL'' \<and> sc \<noteq> ''SESSION'' then ''GLOBAL'' else sc) @ '' '' @ param @ '' = '' @ quote_literal v))"

text \<open>The action's name and the statement.\<close>

definition terminate_sql :: "dialect \<Rightarrow> int \<Rightarrow> bool \<Rightarrow> dba_refusal + string \<times> string" where
  "terminate_sql d pid cancel_only =
     (if pid \<le> 0 then Inl No_Pid
      else Inr (if cancel_only then ''cancel_query'' else ''terminate_session'',
        if d = Postgres
        then (if cancel_only then ''SELECT pg_cancel_backend('' else ''SELECT pg_terminate_backend('') @ show_int pid @ '')''
        else (if cancel_only then ''KILL QUERY '' else ''KILL '') @ show_int pid))"

definition maintenance_sql :: "dialect \<Rightarrow> string \<Rightarrow> string \<Rightarrow> dba_refusal + string" where
  "maintenance_sql d operation target =
     (let op = to_upper (trim_space operation); tgt = trim_space target in
      if op \<notin> set [''VACUUM'', ''ANALYZE'', ''REINDEX'', ''OPTIMIZE''] then Inl Bad_Operation
      else if d = Postgres then
        (if op = ''VACUUM'' \<or> op = ''ANALYZE'' then Inr (op @ (if tgt = [] then [] else '' '' @ tgt))
         else if op = ''REINDEX'' then (if tgt = [] then Inl Needs_Target else Inr (''REINDEX '' @ tgt))
         else Inl Not_Supported)
      else if op \<noteq> ''ANALYZE'' \<and> op \<noteq> ''OPTIMIZE'' then Inl Not_Supported
      else if tgt = [] then Inl Needs_Target
      else Inr (op @ '' TABLE '' @ tgt))"

subsection \<open>Inspection queries\<close>

definition sql_lines :: "string list \<Rightarrow> string" where
  "sql_lines ls = join_with [newline, tab, tab] ls"

datatype inspection = Users | Databases | Settings string | Sessions

fun inspection_query :: "dialect \<Rightarrow> inspection \<Rightarrow> string" where
  "inspection_query d Users =
     (if d = Postgres then sql_lines
        [''SELECT rolname AS name, rolsuper AS superuser, rolcreaterole AS createrole,'',
         ''rolcreatedb AS createdb, rolcanlogin AS can_login, rolreplication AS replication,'',
         ''rolconnlimit AS conn_limit, rolvaliduntil AS valid_until'',
         ''FROM pg_roles ORDER BY rolname'']
      else sql_lines
        [''SELECT User AS name, Host AS host,'',
         ''(Super_priv='' @ [quote] @ ''Y'' @ [quote] @ '') AS superuser, (Create_user_priv='' @ [quote] @ ''Y'' @ [quote] @ '') AS create_user,'',
         ''(Grant_priv='' @ [quote] @ ''Y'' @ [quote] @ '') AS can_grant, account_locked AS locked'',
         ''FROM mysql.user ORDER BY User, Host''])"
| "inspection_query d Databases =
     (if d = Postgres then sql_lines
        [''SELECT d.datname AS name, pg_get_userbyid(d.datdba) AS owner,'',
         ''pg_encoding_to_char(d.encoding) AS encoding, d.datcollate AS collate,'',
         ''pg_size_pretty(pg_database_size(d.datname)) AS size'',
         ''FROM pg_database d WHERE d.datistemplate = false ORDER BY d.datname'']
      else sql_lines
        [''SELECT schema_name AS name, default_character_set_name AS encoding,'',
         ''default_collation_name AS collate FROM information_schema.schemata ORDER BY schema_name''])"
| "inspection_query d (Settings _) =
     (if d = Postgres then sql_lines
        [''SELECT name, setting AS value, unit, category, short_desc AS description,'',
         ''context, boot_val AS default_value, pending_restart'',
         ''FROM pg_settings WHERE ($1='' @ [quote] @ ''%%'' @ [quote] @ '' OR lower(name) LIKE $1) ORDER BY name LIMIT 500'']
      else sql_lines
        [''SELECT variable_name AS name, variable_value AS value'',
         ''FROM performance_schema.global_variables WHERE (? = '' @ [quote] @ ''%%'' @ [quote] @ '' OR lower(variable_name) LIKE ?)'',
         ''ORDER BY variable_name LIMIT 500''])"
| "inspection_query d Sessions =
     (if d = Postgres then sql_lines
        [''SELECT pid, usename AS username, datname AS database, client_addr::text AS client,'',
         ''state, wait_event_type AS wait_type, now()-query_start AS duration,'',
         ''left(query, 200) AS query FROM pg_stat_activity'',
         ''WHERE pid <> pg_backend_pid() ORDER BY query_start NULLS LAST LIMIT 200'']
      else sql_lines
        [''SELECT id AS pid, user AS username, db AS database, host AS client,'',
         ''command AS state, time AS duration_s, left(info, 200) AS query'',
         ''FROM information_schema.processlist ORDER BY time DESC LIMIT 200''])"

fun inspection_args :: "dialect \<Rightarrow> inspection \<Rightarrow> string list" where
  "inspection_args d (Settings f) =
     (let a = ''%'' @ to_lower (trim_space f) @ ''%'' in if d = Postgres then [a] else [a, a])"
| "inspection_args d _ = []"

text \<open>The queries of the overview and the column each is read from.\<close>

definition overview_queries :: "dialect \<Rightarrow> (string \<times> string) list" where
  "overview_queries d =
     (if d = Postgres
      then [(''SELECT version() AS v'', ''v''), (''SELECT count(*) AS n FROM pg_roles'', ''n''),
            (''SELECT count(*) AS n FROM pg_database WHERE datistemplate = false'', ''n'')]
      else [(''SELECT version() AS v'', ''v''), (''SELECT count(*) AS n FROM mysql.user'', ''n''),
            (''SELECT count(*) AS n FROM information_schema.schemata'', ''n'')])"

subsection \<open>The handlers\<close>

record dba_audit =
  da_action :: string
  da_profile :: string
  da_actor :: string
  da_sql :: string
  da_error :: "admin_error option"

record console =
  co_admin :: admin_state
  co_audit :: "dba_audit list"

datatype dba_reply =
    Dba_Refused dba_refusal
  | Dba_Failed admin_error
  | Dba_Done string string int bool
  | Dba_Rows dialect "(string \<Rightarrow> sql_value option) list"
  | Dba_Overview dialect bool "sql_value option option list"

text \<open>The name in the audit log: the account of the request's context.\<close>

definition audit_actor :: "account option \<Rightarrow> string" where
  "audit_actor u = (case u of None \<Rightarrow> ''dba'' | Some a \<Rightarrow> ac_username a)"

definition dba_exec ::
  "admin_env \<Rightarrow> account option \<Rightarrow> string \<Rightarrow> string \<Rightarrow> string \<times> string \<Rightarrow> console \<Rightarrow> dba_reply \<times> console" where
  "dba_exec env u pid action st con =
     (case admin_exec env pid (fst st) 60 (co_admin con) of (r, ad) \<Rightarrow>
       let entry = \<lparr>da_action = action, da_profile = pid, da_actor = audit_actor u, da_sql = snd st,
             da_error = (case r of Inl e \<Rightarrow> Some e | Inr _ \<Rightarrow> None)\<rparr> in
       (case r of Inl e \<Rightarrow> Dba_Failed e | Inr n \<Rightarrow> Dba_Done action (snd st) n False,
        con \<lparr>co_admin := ad, co_audit := co_audit con @ [entry]\<rparr>))"

text \<open>\<open>dbaDialect\<close>, then the statement of the dialect, then \<open>dbaExec\<close>.\<close>

definition run_statement ::
  "admin_env \<Rightarrow> account option \<Rightarrow> string \<Rightarrow> (dialect \<Rightarrow> dba_refusal + string \<times> string \<times> string) \<Rightarrow> console \<Rightarrow> dba_reply \<times> console" where
  "run_statement env u pid build con =
     (case profile_dialect (ae_base env) pid of
        Inl e \<Rightarrow> (Dba_Refused (No_Dialect e), con)
      | Inr d \<Rightarrow>
          (case build d of
             Inl e \<Rightarrow> (Dba_Refused e, con)
           | Inr (action, st) \<Rightarrow> dba_exec env u pid action st con))"

definition named :: "string \<Rightarrow> dba_refusal + string \<times> string \<Rightarrow> dba_refusal + string \<times> string \<times> string" where
  "named action x = bind_err x (\<lambda>st. Inr (action, st))"

definition verbatim :: "dba_refusal + string \<Rightarrow> dba_refusal + string \<times> string" where
  "verbatim x = bind_err x (\<lambda>s. Inr (s, s))"

definition dba_create_user :: "admin_env \<Rightarrow> account option \<Rightarrow> string \<Rightarrow> dba_user_opts \<Rightarrow> console \<Rightarrow> dba_reply \<times> console" where
  "dba_create_user env u pid o' = run_statement env u pid (\<lambda>d. named ''create_user'' (create_user_sql d o'))"

definition dba_alter_user :: "admin_env \<Rightarrow> account option \<Rightarrow> string \<Rightarrow> dba_user_opts \<Rightarrow> console \<Rightarrow> dba_reply \<times> console" where
  "dba_alter_user env u pid o' = run_statement env u pid (\<lambda>d. named ''alter_user'' (alter_user_sql d o'))"

definition dba_drop_user :: "admin_env \<Rightarrow> account option \<Rightarrow> string \<Rightarrow> string \<Rightarrow> bool \<Rightarrow> console \<Rightarrow> dba_reply \<times> console" where
  "dba_drop_user env u pid username confirm con =
     (if \<not> confirm then (Dba_Refused Needs_Confirm, con)
      else run_statement env u pid (\<lambda>d. named ''drop_user'' (verbatim (drop_user_sql d username))) con)"

definition dba_grant ::
  "admin_env \<Rightarrow> account option \<Rightarrow> string \<Rightarrow> string \<Rightarrow> string \<Rightarrow> string \<Rightarrow> bool \<Rightarrow> bool \<Rightarrow> console \<Rightarrow> dba_reply \<times> console" where
  "dba_grant env u pid privileges object grantee revoke with_grant =
     run_statement env u pid (\<lambda>d. named (if revoke then ''revoke'' else ''grant'')
       (verbatim (grant_sql d privileges object grantee revoke with_grant)))"

definition dba_create_database ::
  "admin_env \<Rightarrow> account option \<Rightarrow> string \<Rightarrow> string \<Rightarrow> string \<Rightarrow> string \<Rightarrow> console \<Rightarrow> dba_reply \<times> console" where
  "dba_create_database env u pid name owner encoding =
     run_statement env u pid (\<lambda>d. named ''create_database'' (verbatim (create_database_sql d name owner encoding)))"

definition dba_drop_database :: "admin_env \<Rightarrow> account option \<Rightarrow> string \<Rightarrow> string \<Rightarrow> bool \<Rightarrow> console \<Rightarrow> dba_reply \<times> console" where
  "dba_drop_database env u pid name confirm con =
     (if \<not> confirm then (Dba_Refused Needs_Confirm, con)
      else run_statement env u pid (\<lambda>d. named ''drop_database'' (verbatim (drop_database_sql d name))) con)"

definition reload_stmt :: string where
  "reload_stmt = ''SELECT pg_reload_conf()''"

text \<open>On PostgreSQL a successful change is followed by a reload, whose failure is not reported.\<close>

definition reload_settings :: "admin_env \<Rightarrow> string \<Rightarrow> dba_reply \<times> console \<Rightarrow> dba_reply \<times> console" where
  "reload_settings env pid x =
     (case x of
        (Dba_Done action sql n _, con) \<Rightarrow>
          (case admin_exec env pid reload_stmt 30 (co_admin con) of (r, ad) \<Rightarrow>
            (Dba_Done action sql n (\<exists>k. r = Inr k), con \<lparr>co_admin := ad\<rparr>))
      | (other, con) \<Rightarrow> (other, con))"

definition dba_set_parameter ::
  "admin_env \<Rightarrow> account option \<Rightarrow> string \<Rightarrow> string \<Rightarrow> string \<Rightarrow> string \<Rightarrow> console \<Rightarrow> dba_reply \<times> console" where
  "dba_set_parameter env u pid parameter v scope con =
     (let x = run_statement env u pid (\<lambda>d. named ''set_parameter'' (verbatim (set_parameter_sql d parameter v scope))) con in
      if profile_dialect (ae_base env) pid = Inr Postgres then reload_settings env pid x else x)"

definition dba_terminate_session :: "admin_env \<Rightarrow> account option \<Rightarrow> string \<Rightarrow> int \<Rightarrow> bool \<Rightarrow> console \<Rightarrow> dba_reply \<times> console" where
  "dba_terminate_session env u pid backend cancel_only =
     run_statement env u pid (\<lambda>d. bind_err (terminate_sql d backend cancel_only) (\<lambda>(action, s). Inr (action, s, s)))"

definition dba_run_maintenance :: "admin_env \<Rightarrow> account option \<Rightarrow> string \<Rightarrow> string \<Rightarrow> string \<Rightarrow> console \<Rightarrow> dba_reply \<times> console" where
  "dba_run_maintenance env u pid operation target =
     run_statement env u pid (\<lambda>d. named ''maintenance'' (verbatim (maintenance_sql d operation target)))"

definition dba_execute :: "admin_env \<Rightarrow> account option \<Rightarrow> string \<Rightarrow> string \<Rightarrow> bool \<Rightarrow> console \<Rightarrow> dba_reply \<times> console" where
  "dba_execute env u pid sql confirm con =
     (if \<not> confirm then (Dba_Refused Needs_Confirm, con)
      else if trim_space sql = [] then (Dba_Refused No_Sql, con)
      else dba_exec env u pid ''execute'' (sql, sql) con)"

definition dba_list :: "admin_env \<Rightarrow> string \<Rightarrow> inspection \<Rightarrow> console \<Rightarrow> dba_reply \<times> console" where
  "dba_list env pid i con =
     (case profile_dialect (ae_base env) pid of
        Inl e \<Rightarrow> (Dba_Refused (No_Dialect e), con)
      | Inr d \<Rightarrow>
          (case admin_query env pid (inspection_query d i) (inspection_args d i) (co_admin con) of (r, ad) \<Rightarrow>
            (case r of Inl e \<Rightarrow> Dba_Failed e | Inr rows \<Rightarrow> Dba_Rows d rows, con \<lparr>co_admin := ad\<rparr>)))"

fun overview_go :: "admin_env \<Rightarrow> string \<Rightarrow> (string \<times> string) list \<Rightarrow> admin_state \<Rightarrow> sql_value option option list \<times> admin_state" where
  "overview_go env pid [] ad = ([], ad)"
| "overview_go env pid ((q, column) # qs) ad =
     (case admin_query env pid q [] ad of (r, ad1) \<Rightarrow>
       (case overview_go env pid qs ad1 of (vs, ad2) \<Rightarrow>
         ((case r of Inr (row # _) \<Rightarrow> Some (row column) | _ \<Rightarrow> None) # vs, ad2)))"

definition dba_overview :: "admin_env \<Rightarrow> string \<Rightarrow> console \<Rightarrow> dba_reply \<times> console" where
  "dba_overview env pid con =
     (case profile_dialect (ae_base env) pid of
        Inl e \<Rightarrow> (Dba_Refused (No_Dialect e), con)
      | Inr d \<Rightarrow>
          if admin_available env pid \<noteq> Inr True then (Dba_Overview d False [], con)
          else (case overview_go env pid (overview_queries d) (co_admin con) of (vs, ad) \<Rightarrow>
            (Dba_Overview d True vs, con \<lparr>co_admin := ad\<rparr>)))"

subsection \<open>Requests and their gates\<close>

datatype dba_request =
    Overview_Req
  | List_Req inspection
  | Create_User dba_user_opts
  | Alter_User dba_user_opts
  | Drop_User string bool
  | Grant_Req string string string bool bool
  | Create_Database string string string
  | Drop_Database string bool
  | Set_Parameter string string string
  | Terminate_Session int bool
  | Run_Maintenance string string
  | Execute_Req string bool

fun dba_dispatch :: "admin_env \<Rightarrow> account option \<Rightarrow> string \<Rightarrow> dba_request \<Rightarrow> console \<Rightarrow> dba_reply \<times> console" where
  "dba_dispatch env u pid Overview_Req con = dba_overview env pid con"
| "dba_dispatch env u pid (List_Req i) con = dba_list env pid i con"
| "dba_dispatch env u pid (Create_User o') con = dba_create_user env u pid o' con"
| "dba_dispatch env u pid (Alter_User o') con = dba_alter_user env u pid o' con"
| "dba_dispatch env u pid (Drop_User name confirm) con = dba_drop_user env u pid name confirm con"
| "dba_dispatch env u pid (Grant_Req privs obj grantee revoke with_grant) con =
     dba_grant env u pid privs obj grantee revoke with_grant con"
| "dba_dispatch env u pid (Create_Database name owner enc) con = dba_create_database env u pid name owner enc con"
| "dba_dispatch env u pid (Drop_Database name confirm) con = dba_drop_database env u pid name confirm con"
| "dba_dispatch env u pid (Set_Parameter param v scope) con = dba_set_parameter env u pid param v scope con"
| "dba_dispatch env u pid (Terminate_Session backend cancel) con = dba_terminate_session env u pid backend cancel con"
| "dba_dispatch env u pid (Run_Maintenance op target) con = dba_run_maintenance env u pid op target con"
| "dba_dispatch env u pid (Execute_Req sql confirm) con = dba_execute env u pid sql confirm con"

definition is_dba :: "account \<Rightarrow> bool" where
  "is_dba u \<longleftrightarrow> ac_role u = ''dba'' \<or> ac_role u = ''admin''"

datatype gate_refusal = Not_Authenticated auth_error | Not_Dba | Profile_Missing

record dba_site =
  ds_accounts :: store
  ds_console :: console

text \<open>
  A route of the DBA console: \<open>requireDBA\<close>, which does not put the account into the context, a
  profile, then the tool.
\<close>

definition dba_route ::
  "(string \<Rightarrow> string) \<Rightarrow> int \<Rightarrow> string \<Rightarrow> credentials \<Rightarrow> admin_env \<Rightarrow> string \<Rightarrow> dba_request \<Rightarrow> dba_site \<Rightarrow>
     (gate_refusal + dba_reply) \<times> dba_site" where
  "dba_route hash now admin_token cr env pid req st =
     (case resolve_request hash now admin_token cr (ds_accounts st) of (x, accounts) \<Rightarrow>
       let st1 = st \<lparr>ds_accounts := accounts\<rparr> in
       (case x of
          Inl e \<Rightarrow> (Inl (Not_Authenticated e), st1)
        | Inr u \<Rightarrow>
            if \<not> is_dba u then (Inl Not_Dba, st1)
            else if pid = [] then (Inl Profile_Missing, st1)
            else (case dba_dispatch env context_account pid req (ds_console st) of (r, con) \<Rightarrow>
              (Inr r, st1 \<lparr>ds_console := con\<rparr>))))"

text \<open>An MCP tool call over HTTP: the endpoint resolves the account and puts it into the context.\<close>

definition dba_tool_call ::
  "(string \<Rightarrow> string) \<Rightarrow> int \<Rightarrow> string \<Rightarrow> credentials \<Rightarrow> admin_env \<Rightarrow> string \<Rightarrow> dba_request \<Rightarrow> dba_site \<Rightarrow>
     (gate_refusal + dba_reply) \<times> dba_site" where
  "dba_tool_call hash now admin_token cr env pid req st =
     (case resolve_request hash now admin_token cr (ds_accounts st) of (x, accounts) \<Rightarrow>
       let st1 = st \<lparr>ds_accounts := accounts\<rparr> in
       (case x of
          Inl e \<Rightarrow> (Inl (Not_Authenticated e), st1)
        | Inr u \<Rightarrow>
            if \<not> is_dba u then (Inl Not_Dba, st1)
            else (case dba_dispatch env (Some u) pid req (ds_console st) of (r, con) \<Rightarrow>
              (Inr r, st1 \<lparr>ds_console := con\<rparr>))))"

subsection \<open>The quote rules of SQL\<close>

text \<open>
  Standard quote rules: a quoted text ends at a quote that is not doubled. With \<open>esc\<close> a backslash
  takes the next character as it is, as MySQL does in strings unless told otherwise.
\<close>

fun read_quoted :: "bool \<Rightarrow> char \<Rightarrow> string \<Rightarrow> (string \<times> string) option" where
  "read_quoted esc q [] = None"
| "read_quoted esc q [c] = (if c = q then Some ([], []) else None)"
| "read_quoted esc q (c # d # s) =
     (if c = q then
        (if d = q then map_option (map_prod ((#) q) id) (read_quoted esc q s) else Some ([], d # s))
      else if esc \<and> c = backslash then map_option (map_prod ((#) d) id) (read_quoted esc q s)
      else map_option (map_prod ((#) c) id) (read_quoted esc q (d # s)))"

lemma read_quoted_plain:
  "c \<noteq> q \<Longrightarrow> read_quoted False q (c # s) = map_option (map_prod ((#) c) id) (read_quoted False q s)"
  by (cases s) auto

lemma read_quoted_end: "r = [] \<or> hd r \<noteq> q \<Longrightarrow> read_quoted esc q (q # r) = Some ([], r)"
  by (cases r) auto

lemma read_quoted_replace:
  "r = [] \<or> hd r \<noteq> q \<Longrightarrow> read_quoted False q (replace_char q [q, q] s @ q # r) = Some (s, r)"
  by (induction s) (simp_all add: replace_char_def read_quoted_end read_quoted_plain del: read_quoted.simps(2))

lemma read_quoted_length: "read_quoted esc q s = Some (t, r) \<Longrightarrow> length r < length s"
  by (induction esc q s arbitrary: t r rule: read_quoted.induct) (auto split: if_splits intro: less_SucI)

datatype lexeme = Lx_Char char | Lx_Ident string | Lx_Literal string

function sql_lex :: "string \<Rightarrow> lexeme list option" where
  "sql_lex [] = Some []"
| "sql_lex (c # s) =
     (if c = quote then
        (case read_quoted False quote s of
           None \<Rightarrow> None | Some (t, r) \<Rightarrow> map_option ((#) (Lx_Literal t)) (sql_lex r))
      else if c = dquote then
        (case read_quoted False dquote s of
           None \<Rightarrow> None | Some (t, r) \<Rightarrow> map_option ((#) (Lx_Ident t)) (sql_lex r))
      else map_option ((#) (Lx_Char c)) (sql_lex s))"
  by pat_completeness auto
termination
  by (relation "measure length") (auto dest: read_quoted_length)

definition plain :: "string \<Rightarrow> bool" where
  "plain s \<longleftrightarrow> quote \<notin> set s \<and> dquote \<notin> set s"

lemma sql_lex_plain: "plain s \<Longrightarrow> sql_lex (s @ r) = map_option ((@) (map Lx_Char s)) (sql_lex r)"
proof (induction s)
  case (Cons c s)
  then have "sql_lex (s @ r) = map_option ((@) (map Lx_Char s)) (sql_lex r)" "c \<noteq> quote" "c \<noteq> dquote"
    by (auto simp: plain_def)
  then show ?case
    by (simp add: option.map_comp comp_def)
next
  case Nil
  show ?case
    by (cases "sql_lex r") simp_all
qed

lemma sql_lex_literal:
  "r = [] \<or> hd r \<noteq> quote \<Longrightarrow> sql_lex (quote_literal s @ r) = map_option ((#) (Lx_Literal s)) (sql_lex r)"
  using read_quoted_replace [of r quote s] by (simp add: quote_literal_def)

lemma quote_ident_Inr:
  "quote_ident Postgres name = Inr i \<Longrightarrow> i = dquote # replace_char dquote [dquote, dquote] (trim_space name) @ [dquote]"
  by (auto simp: quote_ident_def ident_quote_def Let_def split: if_splits)

lemma sql_lex_ident:
  assumes "quote_ident Postgres name = Inr i" "r = [] \<or> hd r \<noteq> dquote"
  shows "sql_lex (i @ r) = map_option ((#) (Lx_Ident (trim_space name))) (sql_lex r)"
proof -
  have "dquote \<noteq> quote"
    by (simp add: special_char_defs)
  then show ?thesis
    using read_quoted_replace [of r dquote "trim_space name"] assms(2) quote_ident_Inr [OF assms(1)] by simp
qed

lemma plain_append [simp]: "plain (a @ b) \<longleftrightarrow> plain a \<and> plain b"
  by (auto simp: plain_def)

lemma plain_join: "\<forall>w \<in> set ws. plain w \<Longrightarrow> plain (join_with '' '' ws)"
  by (induction ws rule: induct_list012) (auto simp: plain_def special_char_defs)

lemma plain_attrs: "plain (join_with '' '' (create_attrs o'))"
  by (rule plain_join) (auto simp: create_attrs_def plain_def special_char_defs)

lemma plain_clauses: "plain (join_with '' '' (alter_clauses o'))"
  by (rule plain_join) (auto simp: alter_clauses_def optional_word_def bool_word_def plain_def special_char_defs split: option.splits)

lemma join_with_snoc: "ws \<noteq> [] \<Longrightarrow> join_with d (ws @ [w]) = join_with d ws @ d @ w"
  by (induction ws rule: induct_list012) auto

text \<open>What the database reads of an optional password clause.\<close>

definition password_lexemes :: "string \<Rightarrow> string \<Rightarrow> lexeme list" where
  "password_lexemes clause password = (if password = [] then [] else map Lx_Char clause @ [Lx_Literal password])"

lemma sql_lex_password:
  assumes "plain clause"
  shows "sql_lex (if password = [] then [] else clause @ quote_literal password) = Some (password_lexemes clause password)"
  using sql_lex_plain [OF assms, of "quote_literal password"] sql_lex_literal [of "[]" password]
  by (simp add: password_lexemes_def)

lemma sql_lex_named:
  assumes "quote_ident Postgres name = Inr i" "plain pre" "plain post" "post @ r = [] \<or> hd (post @ r) \<noteq> dquote" "sql_lex r = Some ls"
  shows "sql_lex (pre @ i @ post @ r) = Some (map Lx_Char pre @ [Lx_Ident (trim_space name)] @ map Lx_Char post @ ls)"
  using sql_lex_plain [OF assms(2), of "i @ post @ r"] sql_lex_plain [OF assms(3), of r] sql_lex_ident [OF assms(1,4)] assms(5)
  by simp

lemma create_user_reads_back:
  assumes "create_user_sql Postgres o' = Inr (stmt, logged)"
  shows "sql_lex stmt = Some (map Lx_Char ''CREATE ROLE '' @ [Lx_Ident (trim_space (uo_username o'))] @
    map Lx_Char ('' '' @ join_with '' '' (create_attrs o')) @ password_lexemes '' PASSWORD '' (uo_password o'))"
proof -
  obtain i where i: "quote_ident Postgres (uo_username o') = Inr i"
    using assms by (cases "quote_ident Postgres (uo_username o')") (auto simp: create_user_sql_def)
  then have stmt: "stmt = ''CREATE ROLE '' @ i @ ('' '' @ join_with '' '' (create_attrs o')) @
      (if uo_password o' = [] then [] else '' PASSWORD '' @ quote_literal (uo_password o'))"
    using assms by (auto simp: create_user_sql_def with_password_def split: if_splits)
  have "plain ''CREATE ROLE ''" "plain '' PASSWORD ''" "plain ('' '' @ join_with '' '' (create_attrs o'))"
    using plain_attrs [of o'] by (simp_all add: plain_def special_char_defs)
  then show ?thesis
    unfolding stmt by (intro sql_lex_named [OF i] sql_lex_password) (simp_all add: special_char_defs)
qed

lemma alter_user_reads_back:
  assumes "alter_user_sql Postgres o' = Inr (stmt, logged)"
  shows "sql_lex stmt = Some (map Lx_Char ''ALTER ROLE '' @ [Lx_Ident (trim_space (uo_username o'))] @
    (if alter_clauses o' = [] then password_lexemes '' PASSWORD '' (uo_password o')
     else map Lx_Char ('' WITH '' @ join_with '' '' (alter_clauses o') @ '' '') @ password_lexemes ''PASSWORD '' (uo_password o')))"
proof -
  obtain i where i: "quote_ident Postgres (uo_username o') = Inr i"
    using assms by (cases "quote_ident Postgres (uo_username o')") (auto simp: alter_user_sql_def)
  have plain: "plain ''ALTER ROLE ''" "plain '' PASSWORD ''" "plain ''PASSWORD ''" "plain []"
      "plain ('' WITH '' @ join_with '' '' (alter_clauses o') @ '' '')"
    using plain_clauses [of o'] by (simp_all add: plain_def special_char_defs)
  show ?thesis
  proof (cases "alter_clauses o' = []")
    case True
    then have stmt: "stmt = ''ALTER ROLE '' @ i @ [] @ (if uo_password o' = [] then [] else '' PASSWORD '' @ quote_literal (uo_password o'))"
      using assms i by (auto simp: alter_user_sql_def alter_body_def Let_def split: if_splits)
    have "sql_lex stmt = Some (map Lx_Char ''ALTER ROLE '' @ [Lx_Ident (trim_space (uo_username o'))] @ map Lx_Char [] @
        password_lexemes '' PASSWORD '' (uo_password o'))"
      unfolding stmt by (intro sql_lex_named [OF i] sql_lex_password plain) (simp add: special_char_defs)
    then show ?thesis
      using True by simp
  next
    case False
    have "trim_prefix (if uo_password o' = [] then [] else '' PASSWORD '' @ quote_literal (uo_password o')) '' '' =
        (if uo_password o' = [] then [] else ''PASSWORD '' @ quote_literal (uo_password o'))"
      by (simp add: trim_prefix_def)
    then have stmt: "stmt = ''ALTER ROLE '' @ i @ ('' WITH '' @ join_with '' '' (alter_clauses o') @ '' '') @
        (if uo_password o' = [] then [] else ''PASSWORD '' @ quote_literal (uo_password o'))"
      using assms i False by (simp add: alter_user_sql_def alter_body_def Let_def join_with_snoc split: if_splits)
    have "sql_lex stmt = Some (map Lx_Char ''ALTER ROLE '' @ [Lx_Ident (trim_space (uo_username o'))] @
        map Lx_Char ('' WITH '' @ join_with '' '' (alter_clauses o') @ '' '') @ password_lexemes ''PASSWORD '' (uo_password o'))"
      unfolding stmt by (intro sql_lex_named [OF i] sql_lex_password plain) (simp add: special_char_defs)
    then show ?thesis
      using False by simp
  qed
qed

lemma drop_reads_back:
  assumes "quote_ident Postgres name = Inr i" "plain pre"
  shows "sql_lex (pre @ i) = Some (map Lx_Char pre @ [Lx_Ident (trim_space name)])"
  using sql_lex_named [OF assms, of "[]" "[]"] by (simp add: plain_def)

lemma create_database_reads_back:
  assumes "create_database_sql Postgres name owner encoding = Inr stmt"
  shows "sql_lex stmt = Some (map Lx_Char ''CREATE DATABASE '' @ [Lx_Ident (trim_space name)] @
    (if trim_space owner = [] then [] else map Lx_Char '' OWNER '' @ [Lx_Ident (trim_space owner)]) @
    password_lexemes '' ENCODING '' (trim_space encoding))"
proof -
  let ?enc = "if trim_space encoding = [] then [] else '' ENCODING '' @ quote_literal (trim_space encoding)"
  obtain i where i: "quote_ident Postgres name = Inr i"
    using assms by (cases "quote_ident Postgres name") (auto simp: create_database_sql_def)
  have plain: "plain ''CREATE DATABASE ''" "plain '' OWNER ''" "plain '' ENCODING ''" "plain []"
    by (simp_all add: plain_def special_char_defs)
  show ?thesis
  proof (cases "trim_space owner = []")
    case True
    then have stmt: "stmt = ''CREATE DATABASE '' @ i @ [] @ ?enc"
      using assms i by (simp add: create_database_sql_def Let_def)
    have "sql_lex stmt = Some (map Lx_Char ''CREATE DATABASE '' @ [Lx_Ident (trim_space name)] @ map Lx_Char [] @
        password_lexemes '' ENCODING '' (trim_space encoding))"
      unfolding stmt by (intro sql_lex_named [OF i] sql_lex_password plain) (simp add: special_char_defs)
    then show ?thesis
      using True by simp
  next
    case False
    then obtain oq where oq: "quote_ident Postgres (trim_space owner) = Inr oq"
      using assms i by (cases "quote_ident Postgres (trim_space owner)") (auto simp: create_database_sql_def Let_def)
    then have stmt: "stmt = ''CREATE DATABASE '' @ i @ [] @ '' OWNER '' @ oq @ [] @ ?enc"
      using assms i False by (simp add: create_database_sql_def Let_def)
    have "sql_lex ('' OWNER '' @ oq @ [] @ ?enc) = Some (map Lx_Char '' OWNER '' @ [Lx_Ident (trim_space (trim_space owner))] @
        map Lx_Char [] @ password_lexemes '' ENCODING '' (trim_space encoding))"
      by (intro sql_lex_named [OF oq] sql_lex_password plain) (simp add: special_char_defs)
    then have "sql_lex stmt = Some (map Lx_Char ''CREATE DATABASE '' @ [Lx_Ident (trim_space name)] @ map Lx_Char [] @
        map Lx_Char '' OWNER '' @ [Lx_Ident (trim_space (trim_space owner))] @ map Lx_Char [] @
        password_lexemes '' ENCODING '' (trim_space encoding))"
      unfolding stmt by (intro sql_lex_named [OF i] plain) (simp_all add: special_char_defs)
    then show ?thesis
      using False by simp
  qed
qed

text \<open>
  C20. PostgreSQL reads back exactly what was asked for: under the quote rules of SQL every statement
  that creates, changes or drops a role or a database consists of the fixed words of the tool, the
  trimmed name as one identifier, and the password or encoding as one literal, whatever characters
  they contain; nothing of a name or a password is read as SQL.
\<close>

theorem dba_statements_read_back:
  "(create_user_sql Postgres o' = Inr (stmt, logged) \<longrightarrow>
      sql_lex stmt = Some (map Lx_Char ''CREATE ROLE '' @ [Lx_Ident (trim_space (uo_username o'))] @
        map Lx_Char ('' '' @ join_with '' '' (create_attrs o')) @ password_lexemes '' PASSWORD '' (uo_password o'))) \<and>
   (alter_user_sql Postgres o' = Inr (stmt, logged) \<longrightarrow>
      sql_lex stmt = Some (map Lx_Char ''ALTER ROLE '' @ [Lx_Ident (trim_space (uo_username o'))] @
        (if alter_clauses o' = [] then password_lexemes '' PASSWORD '' (uo_password o')
         else map Lx_Char ('' WITH '' @ join_with '' '' (alter_clauses o') @ '' '') @ password_lexemes ''PASSWORD '' (uo_password o')))) \<and>
   (drop_user_sql Postgres name = Inr stmt \<longrightarrow>
      sql_lex stmt = Some (map Lx_Char ''DROP ROLE IF EXISTS '' @ [Lx_Ident (trim_space name)])) \<and>
   (drop_database_sql Postgres name = Inr stmt \<longrightarrow>
      sql_lex stmt = Some (map Lx_Char ''DROP DATABASE IF EXISTS '' @ [Lx_Ident (trim_space name)])) \<and>
   (create_database_sql Postgres name owner encoding = Inr stmt \<longrightarrow>
      sql_lex stmt = Some (map Lx_Char ''CREATE DATABASE '' @ [Lx_Ident (trim_space name)] @
        (if trim_space owner = [] then [] else map Lx_Char '' OWNER '' @ [Lx_Ident (trim_space owner)]) @
        password_lexemes '' ENCODING '' (trim_space encoding)))"
proof (intro conjI impI)
  have plain: "plain ''DROP ROLE IF EXISTS ''" "plain ''DROP DATABASE IF EXISTS ''"
    by (simp_all add: plain_def special_char_defs)
  show "sql_lex stmt = Some (map Lx_Char ''DROP ROLE IF EXISTS '' @ [Lx_Ident (trim_space name)])"
    if "drop_user_sql Postgres name = Inr stmt"
    using that drop_reads_back [OF _ plain(1)] by (auto simp: drop_user_sql_def bind_err_Inr_iff simp del: append.simps)
  show "sql_lex stmt = Some (map Lx_Char ''DROP DATABASE IF EXISTS '' @ [Lx_Ident (trim_space name)])"
    if "drop_database_sql Postgres name = Inr stmt"
    using that drop_reads_back [OF _ plain(2)] by (auto simp: drop_database_sql_def bind_err_Inr_iff simp del: append.simps)
qed (fact create_user_reads_back alter_user_reads_back create_database_reads_back)+

text \<open>A name and a password that try to get out.\<close>

definition hostile_opts :: dba_user_opts where
  "hostile_opts = \<lparr>uo_username = ''a'' @ dquote # '' SUPERUSER'', uo_password = quote # ''; DROP ROLE x; --'',
     uo_can_login = None, uo_superuser = None, uo_create_db = None, uo_create_role = None\<rparr>"

theorem dba_statements_read_back_witness:
  "sql_lex (case create_user_sql Postgres hostile_opts of Inr (stmt, _) \<Rightarrow> stmt | Inl _ \<Rightarrow> []) =
     Some (map Lx_Char ''CREATE ROLE '' @ [Lx_Ident (''a'' @ dquote # '' SUPERUSER'')] @ map Lx_Char '' LOGIN PASSWORD '' @
       [Lx_Literal (quote # ''; DROP ROLE x; --'')])"
proof -
  have "trim_space (uo_username hostile_opts) = ''a'' @ dquote # '' SUPERUSER''" "create_attrs hostile_opts = [''LOGIN'']"
      "uo_password hostile_opts = quote # ''; DROP ROLE x; --''"
    by code_simp+
  moreover have "\<not> isl (create_user_sql Postgres hostile_opts)"
    by code_simp
  moreover from this obtain stmt logged where s: "create_user_sql Postgres hostile_opts = Inr (stmt, logged)"
    by (cases "create_user_sql Postgres hostile_opts") auto
  ultimately show ?thesis
    using dba_statements_read_back [of hostile_opts stmt logged] by (simp add: password_lexemes_def)
qed

text \<open>
  On MySQL and MariaDB a backslash in a password is not doubled, although it takes the next quote as
  text there: the password ends early and its rest is read as SQL.
\<close>

lemma mysql_password_ends_early:
  assumes "quote \<notin> set rest" "rest \<noteq> []"
  shows "quote_literal (backslash # quote # rest) = quote # backslash # quote # quote # rest @ [quote] \<and>
    read_quoted True quote (tl (quote_literal (backslash # quote # rest))) = Some ([quote], rest @ [quote])"
proof -
  obtain c cs where "rest = c # cs" "c \<noteq> quote"
    using assms by (cases rest) auto
  moreover have "replace_char quote [quote, quote] rest = rest"
    using assms(1) by (rule replace_char_id)
  moreover have "replace_char quote [quote, quote] (backslash # quote # rest) = backslash # quote # quote # replace_char quote [quote, quote] rest"
    by (simp add: replace_char_def special_char_defs)
  ultimately show ?thesis
    by (simp add: quote_literal_def special_char_defs)
qed

text \<open>The check for a bare setting name lets a second assignment through.\<close>

lemma parameter_with_two_names:
  "set_parameter_sql Mysql ''a=1,b'' ''2'' [] = Inr (''SET GLOBAL a=1,b = '' @ quote_literal ''2'')"
  by code_simp

subsection \<open>Every privileged action is audited\<close>

lemma admin_db_sent:
  "admin_db env p st = (x, st1) \<Longrightarrow> ad_sent st1 = ad_sent st \<and> (\<forall>src. x = Inr src \<longrightarrow> admin_enabled p)"
  by (auto simp: admin_db_def Let_def split: option.splits if_splits sum.splits)

text \<open>Statements are sent only for a stored profile with an enabled DBA block.\<close>

definition sends :: "admin_env \<Rightarrow> string \<Rightarrow> admin_state \<Rightarrow> string list \<Rightarrow> admin_state \<Rightarrow> bool" where
  "sends env pid st stmts st' \<longleftrightarrow>
     (\<exists>new. ad_sent st' = ad_sent st @ new \<and> map (snd \<circ> snd) new = stmts \<and>
       (\<forall>x \<in> set new. \<exists>p. ee_get (ae_base env) pid = Inr p \<and> fst x = pr_id p \<and> admin_enabled p))"

lemma sends_refl [simp]: "sends env pid st [] st"
  by (simp add: sends_def)

lemma sends_trans: "sends env pid st a st1 \<Longrightarrow> sends env pid st1 b st2 \<Longrightarrow> sends env pid st (a @ b) st2"
  unfolding sends_def by (elim exE conjE, rule_tac x = "new @ newa" in exI) auto

lemma admin_exec_sends:
  assumes "admin_exec env pid stmt t st = (r, st')"
  shows "sends env pid st [] st' \<and> (\<exists>e. r = Inl e) \<or> sends env pid st [stmt] st'"
  using assms
proof (cases rule: admin_exec_db)
  case (Db p x st1)
  then show ?thesis
    using admin_db_sent [OF Db(2)] by (cases x) (auto simp: sends_def send_admin_def)
qed simp

lemma admin_query_sends:
  assumes "admin_query env pid query args st = (r, st')"
  shows "sends env pid st [] st' \<or> sends env pid st [query] st'"
  using assms
proof (cases rule: admin_query_db)
  case (Db p x st1)
  then show ?thesis
    using admin_db_sent [OF Db(2)] by (cases x) (auto simp: sends_def send_admin_def)
qed simp

text \<open>The audit text of a statement: the statement, or the statement without its password.\<close>

definition logs :: "string \<Rightarrow> string \<Rightarrow> bool" where
  "logs stmt text \<longleftrightarrow> text = stmt \<or> (\<exists>pre pw. pw \<noteq> [] \<and> stmt = pre @ quote_literal pw \<and> text = pre @ redacted)"

text \<open>An action has one audit entry, with the account of the context and the text of what was sent.\<close>

definition audited :: "admin_env \<Rightarrow> account option \<Rightarrow> string \<Rightarrow> console \<Rightarrow> string list \<Rightarrow> console \<Rightarrow> bool" where
  "audited env u pid con rest con' \<longleftrightarrow>
     (\<exists>a. co_audit con' = co_audit con @ [a] \<and> da_profile a = pid \<and> da_actor a = audit_actor u \<and>
       ((da_error a \<noteq> None \<and> sends env pid (co_admin con) [] (co_admin con')) \<or>
        (\<exists>stmt. logs stmt (da_sql a) \<and> sends env pid (co_admin con) (stmt # rest) (co_admin con'))))"

lemma dba_exec_audited:
  assumes "dba_exec env u pid action st con = (r, con')" "logs (fst st) (snd st)"
  shows "audited env u pid con [] con' \<and> (\<forall>a s n b. r = Dba_Done a s n b \<longrightarrow>
    (\<exists>e. co_audit con' = co_audit con @ [e] \<and> da_error e = None))"
proof -
  obtain x ad where x: "admin_exec env pid (fst st) 60 (co_admin con) = (x, ad)" by fastforce
  then show ?thesis
    using assms admin_exec_sends [OF x]
    by (cases x) (auto simp: dba_exec_def audited_def Let_def)
qed

lemma run_statement_audited:
  assumes "run_statement env u pid build con = (r, con')" "\<And>d action st. build d = Inr (action, st) \<Longrightarrow> logs (fst st) (snd st)"
  shows "con' = con \<and> (\<exists>e. r = Dba_Refused e) \<or> audited env u pid con [] con'"
proof (cases "\<exists>d x. profile_dialect (ae_base env) pid = Inr d \<and> build d = Inr x")
  case True
  then obtain d action st where "profile_dialect (ae_base env) pid = Inr d" "build d = Inr (action, st)" by auto
  then show ?thesis
    using assms(1) dba_exec_audited [of env u pid action st con r con'] assms(2) by (auto simp: run_statement_def)
next
  case False
  then show ?thesis
    using assms(1) by (auto simp: run_statement_def split: sum.splits)
qed

lemma logs_refl [simp, intro]: "logs s s"
  by (simp add: logs_def)

lemma logs_password: "pw \<noteq> [] \<Longrightarrow> logs (pre @ quote_literal pw) (pre @ redacted)"
  unfolding logs_def by blast

lemma with_password_logs: "logs (fst (with_password base clause pw)) (snd (with_password base clause pw))"
  using logs_password [of pw "base @ clause"] by (simp add: with_password_def)

lemma create_user_logs: "create_user_sql d o' = Inr st \<Longrightarrow> logs (fst st) (snd st)"
  by (auto simp: create_user_sql_def bind_err_Inr_iff with_password_logs split: if_splits)

lemma alter_body_password:
  "alter_body clauses ('' PASSWORD '' @ x) =
     (if clauses = [] then '' PASSWORD '' else '' WITH '' @ join_with '' '' clauses @ '' '' @ ''PASSWORD '') @ x"
  by (simp add: alter_body_def join_with_snoc trim_prefix_def)

lemma alter_user_logs: "alter_user_sql d o' = Inr st \<Longrightarrow> logs (fst st) (snd st)"
proof -
  assume st: "alter_user_sql d o' = Inr st"
  then obtain qid where q: "quote_ident d (uo_username o') = Inr qid"
    by (auto simp: alter_user_sql_def bind_err_Inr_iff)
  show "logs (fst st) (snd st)"
  proof (cases "d = Postgres \<and> uo_password o' \<noteq> []")
    case True
    let ?pre = "''ALTER ROLE '' @ qid @ (if alter_clauses o' = [] then '' PASSWORD '' else '' WITH '' @ join_with '' '' (alter_clauses o') @ '' '' @ ''PASSWORD '')"
    have "st = (?pre @ quote_literal (uo_password o'), ?pre @ redacted)"
      using st q True by (auto simp: alter_user_sql_def Let_def alter_body_password simp del: append_Cons append_Nil)
    then show ?thesis
      using logs_password [of "uo_password o'" ?pre] True by (simp del: append_Cons append_Nil)
  qed (use st q in \<open>auto simp: alter_user_sql_def Let_def with_password_logs split: if_splits\<close>)
qed

lemma build_logs:
  "named action (verbatim x) = Inr (action', st) \<Longrightarrow> logs (fst st) (snd st)"
  "named action (create_user_sql d o') = Inr (action', st) \<Longrightarrow> logs (fst st) (snd st)"
  "named action (alter_user_sql d o') = Inr (action', st) \<Longrightarrow> logs (fst st) (snd st)"
  "bind_err (terminate_sql d backend cancel) (\<lambda>(a, s). Inr (a, s, s)) = Inr (action', st) \<Longrightarrow> logs (fst st) (snd st)"
  by (auto simp: named_def verbatim_def bind_err_Inr_iff dest: create_user_logs alter_user_logs)

fun is_change :: "dba_request \<Rightarrow> bool" where
  "is_change Overview_Req = False"
| "is_change (List_Req i) = False"
| "is_change _ = True"

lemma set_parameter_audited:
  assumes "dba_set_parameter env u pid param v scope con = (r, con')"
  shows "con' = con \<or> audited env u pid con [] con' \<or> audited env u pid con [reload_stmt] con'"
proof -
  obtain x con1 where run: "run_statement env u pid (\<lambda>d. named ''set_parameter'' (verbatim (set_parameter_sql d param v scope))) con = (x, con1)" by fastforce
  have first: "con1 = con \<and> (\<exists>e. x = Dba_Refused e) \<or> audited env u pid con [] con1"
    using run by (rule run_statement_audited) (rule build_logs(1))
  show ?thesis
  proof (cases "(\<exists>a s n b. x = Dba_Done a s n b) \<and> profile_dialect (ae_base env) pid = Inr Postgres")
    case False
    then have "con' = con1"
      using assms run by (cases x) (auto simp: dba_set_parameter_def reload_settings_def Let_def split: if_splits)
    then show ?thesis
      using first by blast
  next
    case True
    then obtain a s n b where x: "x = Dba_Done a s n b" by blast
    obtain y ad where y: "admin_exec env pid reload_stmt 30 (co_admin con1) = (y, ad)" by fastforce
    then have con': "con' = con1 \<lparr>co_admin := ad\<rparr>"
      using assms run True x by (simp add: dba_set_parameter_def reload_settings_def)
    obtain st where st: "dba_exec env u pid ''set_parameter'' st con = (x, con1)" "logs (fst st) (snd st)"
      using run x True by (auto simp: run_statement_def named_def verbatim_def bind_err_Inr_iff split: sum.splits)
    obtain e stmt where e: "co_audit con1 = co_audit con @ [e]" "da_profile e = pid" "da_actor e = audit_actor u"
        "logs stmt (da_sql e)" "sends env pid (co_admin con) [stmt] (co_admin con1)"
      using dba_exec_audited [OF st] x by (auto simp: audited_def)
    have "sends env pid (co_admin con) [stmt] ad \<or> sends env pid (co_admin con) [stmt, reload_stmt] ad"
      using admin_exec_sends [OF y] sends_trans [OF e(5)] by fastforce
    then show ?thesis
      using e con' by (auto simp: audited_def)
  qed
qed

definition inspection_texts :: "string set" where
  "inspection_texts = {q. \<exists>d i. q = inspection_query d i} \<union> {q. \<exists>d. q \<in> fst ` set (overview_queries d)}"

lemma overview_go_sends:
  "overview_go env pid qs ad = (vs, ad') \<Longrightarrow> \<exists>stmts. sends env pid ad stmts ad' \<and> set stmts \<subseteq> fst ` set qs"
proof (induction qs arbitrary: ad vs)
  case Nil
  then show ?case
    using sends_refl by (intro exI [of _ "[]"]) simp
next
  case (Cons q qs)
  obtain r ad1 where q: "admin_query env pid (fst q) [] ad = (r, ad1)" by fastforce
  obtain vs' where "overview_go env pid qs ad1 = (vs', ad')"
    using Cons.prems q by (cases q) (auto split: prod.splits)
  then obtain stmts where s: "sends env pid ad1 stmts ad'" "set stmts \<subseteq> fst ` set qs"
    using Cons.IH by blast
  from admin_query_sends [OF q] show ?case
    using sends_trans [OF _ s(1)] s(2) by (elim disjE) (force intro: exI [of _ "[] @ stmts"] exI [of _ "[fst q] @ stmts"])+
qed

lemma inspection_sends:
  assumes "dba_dispatch env u pid req con = (r, con')" "\<not> is_change req"
  shows "co_audit con' = co_audit con \<and>
    (\<exists>stmts. sends env pid (co_admin con) stmts (co_admin con') \<and> set stmts \<subseteq> inspection_texts)"
proof (cases req)
  case Overview_Req
  show ?thesis
  proof (cases "con' = con")
    case True
    then show ?thesis
      using sends_refl by (auto intro: exI [of _ "[]"])
  next
    case False
    then obtain d vs ad where "overview_go env pid (overview_queries d) (co_admin con) = (vs, ad)" "con' = con \<lparr>co_admin := ad\<rparr>"
      using assms(1) Overview_Req by (auto simp: dba_overview_def split: sum.splits if_splits prod.splits)
    then show ?thesis
      using overview_go_sends by (fastforce simp: inspection_texts_def)
  qed
next
  case (List_Req i)
  show ?thesis
  proof (cases "con' = con")
    case True
    then show ?thesis
      using sends_refl by (auto intro: exI [of _ "[]"])
  next
    case False
    then obtain d x ad where q: "admin_query env pid (inspection_query d i) (inspection_args d i) (co_admin con) = (x, ad)" "con' = con \<lparr>co_admin := ad\<rparr>"
      using assms(1) List_Req by (auto simp: dba_list_def split: sum.splits prod.splits)
    have "inspection_query d i \<in> inspection_texts"
      by (auto simp: inspection_texts_def)
    with admin_query_sends [OF q(1)] show ?thesis
      using q(2) by (auto intro: exI [of _ "[]"] exI [of _ "[inspection_query d i]"])
  qed
qed (use assms(2) in auto)

lemma change_audited:
  assumes "dba_dispatch env u pid req con = (r, con')" "is_change req"
  shows "con' = con \<or> audited env u pid con [] con' \<or> audited env u pid con [reload_stmt] con'"
proof -
  have run: "con' = con \<or> audited env u pid con [] con'"
    if "run_statement env u pid build con = (r, con')" "\<And>d action st. build d = Inr (action, st) \<Longrightarrow> logs (fst st) (snd st)" for build
    using run_statement_audited [OF that(1)] that(2) by blast
  show ?thesis
  proof (cases req)
    case (Set_Parameter param v scope)
    then show ?thesis
      using set_parameter_audited assms(1) by simp
  next
    case (Execute_Req sql confirm)
    then show ?thesis
      using assms(1) dba_exec_audited [of env u pid "''execute''" "(sql, sql)" con r con']
      by (auto simp: dba_execute_def split: if_splits)
  qed (use assms in \<open>auto simp: dba_create_user_def dba_alter_user_def dba_drop_user_def dba_grant_def dba_create_database_def
      dba_drop_database_def dba_terminate_session_def dba_run_maintenance_def dest!: run intro: build_logs split: if_splits\<close>)
qed


subsection \<open>Passwords stay out of the audit log\<close>

definition without_errors :: "dba_audit list \<Rightarrow> dba_audit list" where
  "without_errors = map (\<lambda>a. a \<lparr>da_error := None\<rparr>)"

lemma dba_exec_log:
  "without_errors (co_audit (snd (dba_exec env u pid action st con))) =
     without_errors (co_audit con) @ [\<lparr>da_action = action, da_profile = pid, da_actor = audit_actor u, da_sql = snd st, da_error = None\<rparr>]"
  by (simp add: dba_exec_def without_errors_def Let_def split: prod.split)

lemma run_statement_log:
  assumes "\<And>d. map_sum id (map_prod id snd) (build d) = map_sum id (map_prod id snd) (build' d)"
  shows "without_errors (co_audit (snd (run_statement env u pid build con))) =
    without_errors (co_audit (snd (run_statement env u pid build' con)))"
proof (cases "profile_dialect (ae_base env) pid")
  case (Inr d)
  have "build d = build' d \<or> (\<exists>a st st'. build d = Inr (a, st) \<and> build' d = Inr (a, st') \<and> snd st = snd st')"
    using assms [of d] by (cases "build d"; cases "build' d") auto
  then show ?thesis
    using Inr dba_exec_log by (auto simp: run_statement_def)
qed (simp add: run_statement_def)

lemma with_password_same_log:
  "p \<noteq> [] \<Longrightarrow> q \<noteq> [] \<Longrightarrow> snd (with_password base clause p) = snd (with_password base clause q)"
  by (simp add: with_password_def)

lemma user_sql_same_log:
  assumes "uo_password o' \<noteq> []" "pw \<noteq> []"
  shows "map_sum id snd (create_user_sql d o') = map_sum id snd (create_user_sql d (o' \<lparr>uo_password := pw\<rparr>))"
    and "map_sum id snd (alter_user_sql d o') = map_sum id snd (alter_user_sql d (o' \<lparr>uo_password := pw\<rparr>))"
proof -
  have same: "create_attrs (o' \<lparr>uo_password := pw\<rparr>) = create_attrs o'" "alter_clauses (o' \<lparr>uo_password := pw\<rparr>) = alter_clauses o'"
    by (simp_all add: create_attrs_def alter_clauses_def)
  show "map_sum id snd (create_user_sql d o') = map_sum id snd (create_user_sql d (o' \<lparr>uo_password := pw\<rparr>))"
    using assms with_password_same_log [OF assms]
    by (cases "quote_ident d (uo_username o')") (auto simp: create_user_sql_def same)
  show "map_sum id snd (alter_user_sql d o') = map_sum id snd (alter_user_sql d (o' \<lparr>uo_password := pw\<rparr>))"
    using assms with_password_same_log [OF assms]
    by (cases "quote_ident d (uo_username o')") (auto simp: alter_user_sql_def same Let_def)
qed


subsection \<open>Only the dba and admin roles\<close>

fun confirmed :: "dba_request \<Rightarrow> bool" where
  "confirmed (Drop_User name c) = c"
| "confirmed (Drop_Database name c) = c"
| "confirmed (Execute_Req sql c) = c"
| "confirmed _ = True"

lemma dispatch_unconfirmed: "\<not> confirmed req \<Longrightarrow> dba_dispatch env u pid req con = (Dba_Refused Needs_Confirm, con)"
  by (cases req) (simp_all add: dba_drop_user_def dba_drop_database_def dba_execute_def)

lemma sends_enabled:
  "sends env pid st stmts st' \<Longrightarrow> ad_sent st' = ad_sent st \<or> (\<exists>p. ee_get (ae_base env) pid = Inr p \<and> admin_enabled p)"
  unfolding sends_def by (metis append_Nil2 list.set_intros(1) neq_Nil_conv)

lemma dispatch_enabled:
  assumes "dba_dispatch env u pid req con = (r, con')"
  shows "ad_sent (co_admin con') = ad_sent (co_admin con) \<or> (\<exists>p. ee_get (ae_base env) pid = Inr p \<and> admin_enabled p)"
proof (cases "is_change req")
  case True
  then show ?thesis
    using change_audited [OF assms True] sends_enabled unfolding audited_def by blast
next
  case False
  then show ?thesis
    using inspection_sends [OF assms False] sends_enabled by blast
qed

lemma dba_call_dispatched:
  assumes "call = dba_route \<or> call = dba_tool_call" "call hash now admin_token cr env pid req st = (x, st')" "ds_console st' \<noteq> ds_console st"
  shows "\<exists>u c r. live_credential hash now admin_token cr (ds_accounts st) u \<and> is_dba u \<and>
    dba_dispatch env c pid req (ds_console st) = (r, ds_console st')"
proof -
  obtain y accounts where y: "resolve_request hash now admin_token cr (ds_accounts st) = (y, accounts)" by fastforce
  have "\<exists>u c r. y = Inr u \<and> is_dba u \<and> dba_dispatch env c pid req (ds_console st) = (r, ds_console st')"
    using assms by (auto simp: dba_route_def dba_tool_call_def y Let_def split: sum.splits if_splits prod.splits) blast+
  then show ?thesis
    using resolve_request_live [of hash now admin_token cr "ds_accounts st"] y by fastforce
qed


text \<open>
  The routes of the console do not put the account into the context, so their audit entries do not
  name it, whoever it was.
\<close>

lemma console_route_hides_account:
  assumes "dba_route hash now admin_token cr env pid (Execute_Req sql True) st = (Inr r, st')" "trim_space sql \<noteq> []"
  shows "\<exists>a. co_audit (ds_console st') = co_audit (ds_console st) @ [a] \<and> da_actor a = ''dba''"
  using assms
  by (auto simp: dba_route_def dba_execute_def dba_exec_def context_account_def audit_actor_def Let_def split: sum.splits if_splits prod.splits)

subsection \<open>Concrete calls\<close>

definition empty_console :: console where
  "empty_console = \<lparr>co_admin = new_admin_state, co_audit = []\<rparr>"

definition dba_demo_site :: dba_site where
  "dba_demo_site = \<lparr>ds_accounts = sample_store, ds_console = empty_console\<rparr>"

lemma demo_execute:
  obtains con' a where "dba_dispatch admin_demo_env u ''dw'' (Execute_Req ''VACUUM'' True) empty_console = (Dba_Done ''execute'' ''VACUUM'' 0 False, con')"
    "co_audit con' = [a]" "da_error a = None"
proof -
  obtain st' src where call: "admin_exec admin_demo_env ''dw'' ''VACUUM'' 0 new_admin_state = (Inr 0, st')"
    using dba_demo_call by blast
  moreover have "admin_timeout 60 = admin_timeout 0"
    by (simp add: admin_timeout_def)
  then have "admin_exec admin_demo_env ''dw'' ''VACUUM'' 60 new_admin_state = admin_exec admin_demo_env ''dw'' ''VACUUM'' 0 new_admin_state"
    unfolding admin_exec_def by (rule ssubst) (rule refl)
  moreover have "trim_space ''VACUUM'' \<noteq> []"
    by code_simp
  ultimately show thesis
    using that by (simp add: dba_execute_def dba_exec_def empty_console_def Let_def)
qed




end
