(* ===== verification/Profile_Router.thy ===== *)
theory Profile_Router
  imports Executor Table_Refs Complex_Main "HOL-Library.Multiset" "HOL-Library.Char_ord" "HOL-Library.List_Lexorder" "HOL-Library.Product_Lexorder"
begin

text \<open>
  The profile router (\<open>internal/dbconn/router.go\<close>): which profile can serve a statement. The table
  inventory of a profile is a list of pairs of schema and table, cached for ten minutes. Scores are
  64-bit floats in Go; here they are rationals with the rounding of the hardware as the parameter
  \<open>rnd\<close>, applied where Go rounds: every part of a score but the last is a small whole number.
  Every profile comes with its surroundings (\<open>exec_env\<close>) at its turn of the loop.
  Reasons, which only inform, are dropped. Extracting the tables is \<open>Table_Refs\<close> with the parsers as
  parameters.

  The lemmas show that an automatic choice is an eligible profile whose database has all the tables,
  or whose operator declared all the schemas.
\<close>

subsection \<open>Inventories\<close>

type_synonym tables = "(string \<times> string) list"

record inventory_entry =
  iv_sig :: string
  iv_fetched :: int
  iv_tables :: tables

record router =
  ro_manager :: manager
  ro_inventories :: "string \<Rightarrow> inventory_entry option"

definition inventory_ttl :: int where "inventory_ttl = 10 * 60 * 1000"

definition inventory_stmt :: string where
  "inventory_stmt = ''SELECT table_schema, table_name FROM information_schema.tables'' @ newline #
     ''WHERE table_schema NOT IN ('' @ quote # ''pg_catalog'' @ quote # '','' @ quote # ''information_schema'' @ quote # '','' @
     quote # ''mysql'' @ quote # '','' @ quote # ''performance_schema'' @ quote # '','' @ quote # ''sys'' @ quote # '')''"

fun value_text :: "sql_value \<Rightarrow> string option" where
  "value_text V_Null = None"
| "value_text (V_Text s) = Some s"
| "value_text (V_Other s) = Some s"

fun scan_tables :: "cursor_row list \<Rightarrow> db_err option \<Rightarrow> db_err + tables" where
  "scan_tables [] fin = (case fin of Some e \<Rightarrow> Inl e | None \<Rightarrow> Inr [])"
| "scan_tables (Scan_Error e # rs) fin = Inl e"
| "scan_tables (Row vs # rs) fin =
     (case map value_text vs of
        [Some s, Some t] \<Rightarrow> bind_err (scan_tables rs fin) (\<lambda>ts. Inr ((to_lower s, to_lower t) # ts))
      | _ \<Rightarrow> Inl (Db_Other ''converting NULL to string is unsupported''))"

definition inventory :: "exec_env \<Rightarrow> profile \<Rightarrow> router \<Rightarrow> (exec_error + tables) \<times> router" where
  "inventory env p ro =
     (let fetch =
        (case db_for env p (ro_manager ro) of
           (Some e, m) \<Rightarrow> (Inl e, ro \<lparr>ro_manager := m\<rparr>)
         | (None, m) \<Rightarrow>
             let ro1 = ro \<lparr>ro_manager := send (pr_id p) inventory_stmt m\<rparr> in
             (case ee_query env (pr_id p) inventory_stmt [] of
                Inl e \<Rightarrow> (Inl (Ex_Db e), ro1)
              | Inr cu \<Rightarrow>
                  (case scan_tables (cu_rows cu) (cu_end cu) of
                     Inl e \<Rightarrow> (Inl (Ex_Db e), ro1)
                   | Inr ts \<Rightarrow> (Inr ts, ro1 \<lparr>ro_inventories := (ro_inventories ro)
                       (pr_id p \<mapsto> \<lparr>iv_sig = ee_sig env p, iv_fetched = ee_end env, iv_tables = ts\<rparr>)\<rparr>)))) in
      (case ro_inventories ro (pr_id p) of
         Some e \<Rightarrow>
           if iv_sig e = ee_sig env p \<and> ee_start env - iv_fetched e < inventory_ttl then (Inr (iv_tables e), ro) else fetch
       | None \<Rightarrow> fetch))"

definition invalidate_inventory :: "string \<Rightarrow> router \<Rightarrow> router" where
  "invalidate_inventory pid ro =
     ro \<lparr>ro_inventories := (if pid = [] then Map.empty else (ro_inventories ro) (pid := None))\<rparr>"

text \<open>\<open>Manager.Invalidate\<close> and \<open>Close\<close> with their part for the inventories.\<close>

definition invalidate_profile :: "string \<Rightarrow> router \<Rightarrow> router" where
  "invalidate_profile pid ro = invalidate_inventory pid (ro \<lparr>ro_manager := invalidate pid (ro_manager ro)\<rparr>)"

definition close_router :: "router \<Rightarrow> router" where
  "close_router ro = invalidate_inventory [] (ro \<lparr>ro_manager := close_manager (ro_manager ro)\<rparr>)"

definition has_table :: "tables \<Rightarrow> table_ref \<Rightarrow> bool" where
  "has_table ts r \<longleftrightarrow>
     (if tr_schema r \<noteq> [] then (tr_schema r, tr_name r) \<in> set ts else tr_name r \<in> snd ` set ts)"

subsection \<open>Candidates\<close>

datatype coverage = Unknown | Declared | Full | Partial | None_Found

record candidate =
  rc_id :: string
  rc_type :: string
  rc_score :: rat
  rc_coverage :: coverage
  rc_default :: bool
  rc_priority :: int

definition declared_schemas :: "profile \<Rightarrow> string list" where
  "declared_schemas p = map (\<lambda>s. to_lower (trim_space s)) (rt_schemas (pr_routing p))"

definition declared_points :: "profile \<Rightarrow> table_ref list \<Rightarrow> int \<times> coverage" where
  "declared_points p refs =
     (let declared = declared_schemas p;
          hit = length (filter (\<lambda>r. tr_schema r \<noteq> [] \<and> tr_schema r \<in> set declared) refs) in
      if refs = [] \<or> declared = [] then (0, Unknown)
      else if hit = length refs then (30, Declared)
      else if hit > 0 then (10, Unknown)
      else (-20, Unknown))"

definition table_points :: "tables \<Rightarrow> table_ref list \<Rightarrow> int \<times> coverage" where
  "table_points ts refs =
     (let found = length (filter (has_table ts) refs) in
      if found = length refs then (50, Full)
      else if found > 0 then (15, Partial)
      else (-40, None_Found))"

definition clamp_priority :: "int \<Rightarrow> int" where
  "clamp_priority n = (if n < 1 \<or> n > 100 then 100 else n)"

definition preference_points :: "(rat \<Rightarrow> rat) \<Rightarrow> profile \<Rightarrow> int \<Rightarrow> rat" where
  "preference_points rnd p n =
     rnd (of_int (n + (if rt_default (pr_routing p) then 8 else 0))
       + rnd (of_int (100 - clamp_priority (rt_priority (pr_routing p))) * rnd (1 / 10)))"

text \<open>A profile that is not excluded: its candidate, and the router after its inventory was read.\<close>

definition score_profile ::
  "(rat \<Rightarrow> rat) \<Rightarrow> exec_env \<Rightarrow> table_ref list \<Rightarrow> profile \<Rightarrow> router \<Rightarrow> candidate \<times> router" where
  "score_profile rnd env refs p ro =
     (case declared_points p refs of (n1, c1) \<Rightarrow>
       let (n2, c2, ro') =
         (if refs \<noteq> [] \<and> discover_enabled (pr_routing p)
          then (case inventory env p ro of
              (Inl _, ro1) \<Rightarrow> (n1, c1, ro1)
            | (Inr ts, ro1) \<Rightarrow> (case table_points ts refs of (n, c) \<Rightarrow> (n1 + n, c, ro1)))
          else (n1, c1, ro)) in
       (\<lparr>rc_id = pr_id p, rc_type = pr_type p, rc_score = preference_points rnd p n2, rc_coverage = c2,
          rc_default = rt_default (pr_routing p), rc_priority = rt_priority (pr_routing p)\<rparr>, ro'))"

definition excluded :: "exec_env \<Rightarrow> string \<Rightarrow> profile \<Rightarrow> router \<Rightarrow> bool" where
  "excluded env dialect p ro \<longleftrightarrow>
     (dialect \<noteq> [] \<and> pr_type p \<noteq> dialect) \<or> breaker_check (ro_manager ro) (pr_id p) (ee_start env) \<noteq> None"

fun score_all ::
  "(rat \<Rightarrow> rat) \<Rightarrow> string \<Rightarrow> table_ref list \<Rightarrow> (exec_env \<times> profile) list \<Rightarrow> router \<Rightarrow> candidate list \<times> string list \<times> router" where
  "score_all rnd dialect refs [] ro = ([], [], ro)"
| "score_all rnd dialect refs ((env, p0) # ps) ro =
     (let p = with_defaults p0 in
      if excluded env dialect p ro
      then (case score_all rnd dialect refs ps ro of (cs, ex, ro') \<Rightarrow> (cs, pr_id p # ex, ro'))
      else (case score_profile rnd env refs p ro of (c, ro1) \<Rightarrow>
        (case score_all rnd dialect refs ps ro1 of (cs, ex, ro') \<Rightarrow> (c # cs, ex, ro'))))"

definition better :: "candidate \<Rightarrow> candidate \<Rightarrow> bool" where
  "better a b \<longleftrightarrow> (if rc_score a = rc_score b then rc_id a < rc_id b else rc_score a > rc_score b)"

subsection \<open>The decision\<close>

record route_decision =
  rd_selected :: "string option"
  rd_tables :: "table_ref list"
  rd_dialect :: string
  rd_candidates :: "candidate list"
  rd_excluded :: "string list"

definition strong :: "candidate \<Rightarrow> bool" where
  "strong c \<longleftrightarrow> rc_coverage c = Full \<or> rc_coverage c = Declared"

text \<open>The chosen profile of the sorted candidates, when there is a clear winner.\<close>

fun decide :: "(rat \<Rightarrow> rat) \<Rightarrow> table_ref list \<Rightarrow> candidate list \<Rightarrow> string option" where
  "decide rnd refs [] = None"
| "decide rnd refs (best # rest) =
     (if refs = [] then (if rest = [] then Some (rc_id best) else None)
      else
        let clear = (case rest of
            [] \<Rightarrow> True
          | second # _ \<Rightarrow> rnd (rc_score best - rc_score second) \<ge> 10 \<or> (strong best \<and> \<not> strong second)) in
        if strong best \<and> clear \<and> rc_score best > 0 then Some (rc_id best) else None)"

text \<open>The tables: with the given dialect, or with the first of PostgreSQL and MySQL that parses.\<close>

fun first_parse :: "(string \<Rightarrow> string \<Rightarrow> string + table_ref list) \<Rightarrow> string \<Rightarrow> string list \<Rightarrow> (string \<times> table_ref list) option" where
  "first_parse extract sql [] = None"
| "first_parse extract sql (d # ds) =
     (case extract d sql of Inr refs \<Rightarrow> Some (d, refs) | Inl _ \<Rightarrow> first_parse extract sql ds)"

definition route_profile ::
  "(rat \<Rightarrow> rat) \<Rightarrow> (string \<Rightarrow> string \<Rightarrow> string + table_ref list) \<Rightarrow> string \<Rightarrow> string \<Rightarrow> (exec_env \<times> profile) list \<Rightarrow> router \<Rightarrow>
     route_decision \<times> router" where
  "route_profile rnd extract sql dialect profiles ro =
     (let parsed = (if trim_space sql = [] then None
            else first_parse extract sql (if dialect = [] then [''postgres'', ''mysql''] else [dialect]));
          refs = (case parsed of None \<Rightarrow> [] | Some (_, rs) \<Rightarrow> rs);
          d = (case parsed of Some (d, _) \<Rightarrow> if dialect = [] then d else dialect | None \<Rightarrow> dialect) in
      case score_all rnd dialect refs profiles ro of (cs, ex, ro') \<Rightarrow>
        let ranked = sort_by better cs in
        (\<lparr>rd_selected = decide rnd refs ranked, rd_tables = refs, rd_dialect = d, rd_candidates = ranked, rd_excluded = ex\<rparr>, ro'))"


subsection \<open>Ranking\<close>

text \<open>The order of the ranking is a key order, by falling score and then by name.\<close>

definition rank_key :: "candidate \<Rightarrow> rat \<times> string" where
  "rank_key c = (- rc_score c, rc_id c)"

lemma better_key: "better a b \<longleftrightarrow> rank_key a < rank_key b"
  by (auto simp: better_def rank_key_def less_prod_def)

interpretation ranking: strict_weak better
  by unfold_locales (auto simp: better_key)

lemma ranked_best:
  assumes "sort_by better cs = best # rest" and "c \<in> set cs"
  shows "rc_score c \<le> rc_score best"
proof -
  have "c \<in> set (best # rest)" using assms set_sort_by [of better cs] by simp
  moreover have "sorted_wrt (\<lambda>a b. \<not> better b a) (best # rest)" using ranking.sorted_sort_by [of cs] assms(1) by simp
  ultimately show ?thesis by (auto simp: better_def split: if_splits)
qed

lemma ranking_order_independent:
  assumes "mset cs = mset cs'" and "distinct (map rc_id cs)"
  shows "sort_by better cs = sort_by better cs'"
proof -
  have "inj_on rank_key (set cs)"
    using assms(2) by (auto simp: inj_on_def rank_key_def distinct_map)
  then have "sort_key rank_key cs = sort_key rank_key cs'"
    by (intro sort_key_eq_sort_key assms(1))
  then show ?thesis by (simp add: sort_by_key [of better rank_key] better_key)
qed

subsection \<open>One profile's turn does not touch another's\<close>

text \<open>What the turn of a profile reads of the router.\<close>

definition same_for :: "string \<Rightarrow> router \<Rightarrow> router \<Rightarrow> bool" where
  "same_for pid a b \<longleftrightarrow> ro_inventories a pid = ro_inventories b pid \<and> mg_pools (ro_manager a) pid = mg_pools (ro_manager b) pid
     \<and> mg_brk (ro_manager a) pid = mg_brk (ro_manager b) pid"

lemma same_for_refl [simp]: "same_for pid r r"
  by (simp add: same_for_def)

lemma same_for_trans: "same_for pid a b \<Longrightarrow> same_for pid b c \<Longrightarrow> same_for pid a c"
  by (simp add: same_for_def)

lemma db_for_pools: "db_for env p m = (e, m1) \<Longrightarrow> pid \<noteq> pr_id p \<Longrightarrow> mg_pools m1 pid = mg_pools m pid"
  by (auto simp: db_for_def Let_def split: if_splits sum.splits option.splits)

lemma db_for_verdict: "mg_pools m (pr_id p) = mg_pools m' (pr_id p) \<Longrightarrow> fst (db_for env p m) = fst (db_for env p m')"
  by (auto simp: db_for_def Let_def split: sum.split option.split)

lemma send_pools [simp]: "mg_pools (send pid stmt m) = mg_pools m"
  by (simp add: send_def)

lemma inventory_verdict:
  assumes "same_for (pr_id p) r r'"
  shows "fst (inventory env p r) = fst (inventory env p r')"
proof -
  have "fst (db_for env p (ro_manager r)) = fst (db_for env p (ro_manager r'))"
    using assms by (intro db_for_verdict) (simp add: same_for_def)
  then show ?thesis using assms
    by (cases "db_for env p (ro_manager r)"; cases "db_for env p (ro_manager r')")
       (auto simp: inventory_def same_for_def Let_def split: option.split sum.split)
qed

lemma inventory_frame:
  assumes "inventory env p r = (res, r')"
  shows "mg_brk (ro_manager r') = mg_brk (ro_manager r)" and "pid \<noteq> pr_id p \<Longrightarrow> same_for pid r' r"
  using assms by (auto simp: inventory_def same_for_def Let_def split: if_splits option.splits sum.splits prod.splits
      dest: db_for_frame db_for_pools)

lemma score_profile_frame:
  assumes "score_profile rnd env refs p r = (c, r')"
  shows "mg_brk (ro_manager r') = mg_brk (ro_manager r)" and "pid \<noteq> pr_id p \<Longrightarrow> same_for pid r' r" and "rc_id c = pr_id p"
  using assms by (auto simp: score_profile_def Let_def split: if_splits sum.splits prod.splits dest: inventory_frame)

lemma score_profile_verdict:
  assumes "same_for (pr_id p) r r'"
  shows "fst (score_profile rnd env refs p r) = fst (score_profile rnd env refs p r')"
  using inventory_verdict [OF assms, of env]
  by (cases "inventory env p r"; cases "inventory env p r'")
     (auto simp: score_profile_def Let_def split: sum.split prod.split)

text \<open>The candidates of a run, each scored against the router the run began with.\<close>

definition turn_id :: "exec_env \<times> profile \<Rightarrow> string" where
  "turn_id t = pr_id (with_defaults (snd t))"

definition eligible :: "string \<Rightarrow> router \<Rightarrow> (exec_env \<times> profile) list \<Rightarrow> (exec_env \<times> profile) list" where
  "eligible dialect ro ts = filter (\<lambda>(env, p0). \<not> excluded env dialect (with_defaults p0) ro) ts"

definition scored :: "(rat \<Rightarrow> rat) \<Rightarrow> table_ref list \<Rightarrow> router \<Rightarrow> exec_env \<times> profile \<Rightarrow> candidate" where
  "scored rnd refs ro t = fst (score_profile rnd (fst t) refs (with_defaults (snd t)) ro)"

lemma scored_id [simp]: "rc_id (scored rnd refs ro t) = turn_id t"
  by (cases "score_profile rnd (fst t) refs (with_defaults (snd t)) ro")
     (simp add: scored_def turn_id_def score_profile_frame(3))

lemma excluded_same: "same_for (pr_id p) r r' \<Longrightarrow> excluded env dialect p r = excluded env dialect p r'"
  by (simp add: excluded_def same_for_def breaker_check_def)

lemma same_for_step:
  assumes "score_profile rnd env refs p r = (c, r1)" and "same_for pid r ro" and "pid \<noteq> pr_id p"
  shows "same_for pid r1 ro"
  using score_profile_frame(2) [OF assms(1,3)] assms(2) by (rule same_for_trans)

lemma score_all_closed:
  assumes "distinct (map turn_id ts)" and "\<And>t. t \<in> set ts \<Longrightarrow> same_for (turn_id t) r ro"
  shows "fst (score_all rnd dialect refs ts r) = map (scored rnd refs ro) (eligible dialect ro ts)
    \<and> fst (snd (score_all rnd dialect refs ts r)) = map turn_id (filter (\<lambda>t. t \<notin> set (eligible dialect ro ts)) ts)"
  using assms
proof (induction ts arbitrary: r)
  case (Cons t ts)
  obtain env p0 where t: "t = (env, p0)" by fastforce
  let ?p = "with_defaults p0"
  have same: "same_for (pr_id ?p) r ro" using Cons.prems(2) [of t] by (simp add: t turn_id_def)
  have fresh: "turn_id u \<noteq> pr_id ?p" if "u \<in> set ts" for u
    using Cons.prems(1) that by (auto simp: t turn_id_def image_iff)
  have t_notin: "t \<notin> set ts" using Cons.prems(1) by auto
  have out: "t \<notin> set (eligible dialect ro ts)" using t_notin by (simp add: eligible_def)
  show ?case
  proof (cases "excluded env dialect ?p r")
    case True
    then have "excluded env dialect ?p ro" using excluded_same [OF same] by simp
    moreover note Cons.IH [of r] Cons.prems
    ultimately show ?thesis using True out
      by (auto simp: t eligible_def turn_id_def case_prod_beta Let_def)
  next
    case False
    then have in_ro: "\<not> excluded env dialect ?p ro" using excluded_same [OF same] by simp
    obtain c r1 where c: "score_profile rnd env refs ?p r = (c, r1)" by fastforce
    have "same_for (turn_id u) r1 ro" if "u \<in> set ts" for u
      using same_for_step [OF c] Cons.prems(2) [of u] fresh [OF that] that by simp
    then have IH: "fst (score_all rnd dialect refs ts r1) = map (scored rnd refs ro) (eligible dialect ro ts)
        \<and> fst (snd (score_all rnd dialect refs ts r1)) = map turn_id (filter (\<lambda>t. t \<notin> set (eligible dialect ro ts)) ts)"
      using Cons.IH [of r1] Cons.prems(1) by simp
    have "c = scored rnd refs ro t"
      using score_profile_verdict [OF same, of rnd env refs] by (simp add: scored_def t c)
    moreover have "eligible dialect ro (t # ts) = t # eligible dialect ro ts" using in_ro by (simp add: eligible_def t)
    moreover have "filter (\<lambda>u. u \<notin> set (t # eligible dialect ro ts)) (t # ts) = filter (\<lambda>u. u \<notin> set (eligible dialect ro ts)) ts"
      using t_notin by (auto intro: filter_cong)
    ultimately show ?thesis using IH False by (simp add: t c case_prod_beta Let_def)
  qed
qed (simp add: eligible_def)

lemma length_filter_all: "length (filter P xs) = length xs \<longleftrightarrow> (\<forall>x\<in>set xs. P x)"
  by (metis filter_True length_filter_less less_irrefl)

text \<open>A profile covers the tables of a statement: its database shows them all, or, where nothing could be read, its operator declared every schema.\<close>

definition covers :: "exec_env \<Rightarrow> table_ref list \<Rightarrow> profile \<Rightarrow> router \<Rightarrow> bool" where
  "covers env refs p ro \<longleftrightarrow>
     (let declared = (\<forall>r\<in>set refs. tr_schema r \<noteq> [] \<and> tr_schema r \<in> set (declared_schemas p)) in
      if discover_enabled (pr_routing p)
      then (case fst (inventory env p ro) of Inr ts \<Rightarrow> (\<forall>r\<in>set refs. has_table ts r) | Inl _ \<Rightarrow> declared)
      else declared)"

lemma declared_points_strong:
  assumes "declared_points p refs = (n, c)" and "c = Full \<or> c = Declared"
  shows "\<forall>r\<in>set refs. tr_schema r \<noteq> [] \<and> tr_schema r \<in> set (declared_schemas p)"
proof -
  let ?P = "\<lambda>r. tr_schema r \<noteq> [] \<and> tr_schema r \<in> set (declared_schemas p)"
  have "length (filter ?P refs) = length refs" using assms
    by (auto simp: declared_points_def Let_def split: if_splits)
  then show ?thesis by (simp only: length_filter_all)
qed

lemma table_points_strong: "table_points ts refs = (n, c) \<Longrightarrow> c = Full \<or> c = Declared \<Longrightarrow> \<forall>r\<in>set refs. has_table ts r"
  by (auto simp: table_points_def Let_def length_filter_all split: if_splits)

lemma strong_covers:
  assumes "strong (scored rnd refs ro (env, p0))" and "refs \<noteq> []"
  shows "covers env refs (with_defaults p0) ro"
  using assms by (auto simp: scored_def score_profile_def strong_def covers_def Let_def split: prod.splits sum.splits if_splits
      dest: declared_points_strong table_points_strong)

lemma decide_spec:
  assumes "decide rnd refs cs = Some pid"
  obtains best rest where "cs = best # rest" "rc_id best = pid" "refs = [] \<longrightarrow> rest = []" "refs \<noteq> [] \<longrightarrow> strong best"
  using assms by (cases cs) (auto simp: Let_def split: if_splits)

lemma route_profile_parts:
  assumes "distinct (map turn_id ts)" and "dec = fst (route_profile rnd extract sql dialect ts ro)"
  shows "rd_candidates dec = sort_by better (map (scored rnd (rd_tables dec) ro) (eligible dialect ro ts))"
    and "rd_selected dec = decide rnd (rd_tables dec) (rd_candidates dec)"
    and "rd_excluded dec = map turn_id (filter (\<lambda>t. t \<notin> set (eligible dialect ro ts)) ts)"
  using score_all_closed [OF assms(1), of ro ro rnd dialect "rd_tables dec"]
  by (simp_all add: assms(2) route_profile_def Let_def case_prod_beta)

lemma route_profile_tables:
  "rd_tables (fst (route_profile rnd extract sql dialect ts ro)) =
     (case if trim_space sql = [] then None
           else first_parse extract sql (if dialect = [] then [''postgres'', ''mysql''] else [dialect]) of
        None \<Rightarrow> [] | Some (_, rs) \<Rightarrow> rs)"
  by (simp add: route_profile_def Let_def case_prod_beta)

text \<open>
  C21. An automatic choice is sound: the chosen profile is one of those given, of the asked dialect,
  with its breaker closed; when the statement names tables, its database shows all of them (or,
  where nothing could be read, its operator declared all their schemas) and no candidate
  scores higher; when it names none, it is the only profile in question.
\<close>

theorem route_decision_sound:
  assumes "distinct (map turn_id ts)"
    and "rd_selected (fst (route_profile rnd extract sql dialect ts ro)) = Some pid"
  shows "\<exists>env p0. (env, p0) \<in> set ts \<and> pr_id p0 = pid \<and> (dialect = [] \<or> pr_type (with_defaults p0) = dialect) \<and>
     breaker_check (ro_manager ro) pid (ee_start env) = None \<and>
     (let refs = rd_tables (fst (route_profile rnd extract sql dialect ts ro)) in
      if refs = [] then eligible dialect ro ts = [(env, p0)]
      else covers env refs (with_defaults p0) ro \<and>
        (\<forall>t\<in>set (eligible dialect ro ts). rc_score (scored rnd refs ro t) \<le> rc_score (scored rnd refs ro (env, p0))))"
proof -
  let ?dec = "fst (route_profile rnd extract sql dialect ts ro)"
  let ?refs = "rd_tables ?dec" and ?el = "eligible dialect ro ts"
  let ?cs = "map (scored rnd ?refs ro) ?el"
  note pieces = route_profile_parts [OF assms(1) refl, of rnd "extract" sql dialect ro]
  obtain best rest where b: "sort_by better ?cs = best # rest" "rc_id best = pid"
    "?refs = [] \<longrightarrow> rest = []" "?refs \<noteq> [] \<longrightarrow> strong best"
    using assms(2) unfolding pieces(1) pieces(2) by (rule decide_spec)
  have "best \<in> set ?cs" using b(1) by (metis list.set_intros(1) set_sort_by)
  then obtain env p0 where t: "(env, p0) \<in> set ?el" "best = scored rnd ?refs ro (env, p0)" by auto
  have single: "?el = [(env, p0)]" if "?refs = []"
  proof -
    have "length ?el = length (best # rest)" using length_sort_by [of better ?cs] unfolding b(1) by simp
    with t(1) b(3) that show ?thesis by (cases ?el) auto
  qed
  have "rc_id best = pr_id p0" by (simp add: t(2) turn_id_def)
  moreover have "rc_score c \<le> rc_score best" if "c \<in> set ?cs" for c by (rule ranked_best [OF b(1) that])
  ultimately show ?thesis
    using t b(2,4) single strong_covers [of rnd ?refs ro env p0]
    by (intro exI [of _ env] exI [of _ p0]) (auto simp: eligible_def excluded_def Let_def)
qed

text \<open>
  The order in which the profiles are listed is immaterial: ids being distinct, any permutation
  of the profiles gives the same choice, the same ranking of the same candidates and the same
  tables, though each turn changes the shared pools and inventories.
\<close>

theorem route_order_independent:
  assumes "distinct (map turn_id ts)" and "mset ts = mset us"
  shows "let a = fst (route_profile rnd extract sql dialect ts ro); b = fst (route_profile rnd extract sql dialect us ro) in
     rd_selected a = rd_selected b \<and> rd_candidates a = rd_candidates b \<and> rd_tables a = rd_tables b \<and>
     set (rd_excluded a) = set (rd_excluded b)"
proof -
  let ?a = "fst (route_profile rnd extract sql dialect ts ro)" and ?b = "fst (route_profile rnd extract sql dialect us ro)"
  let ?cs = "\<lambda>ts. map (scored rnd (rd_tables ?a) ro) (eligible dialect ro ts)"
  have du: "distinct (map turn_id us)" 
    using assms(1) mset_eq_imp_distinct_iff [of "map turn_id ts" "map turn_id us"] assms(2) by simp
  have tables: "rd_tables ?b = rd_tables ?a" by (simp add: route_profile_tables)
  have el: "mset (eligible dialect ro ts) = mset (eligible dialect ro us)" using assms(2) by (simp add: eligible_def)
  have ids: "map rc_id (?cs ts) = map turn_id (eligible dialect ro ts)" by simp
  have "distinct (map turn_id (eligible dialect ro ts))"
    using assms(1) by (auto simp: eligible_def intro: distinct_map_filter)
  then have "sort_by better (?cs ts) = sort_by better (?cs us)"
    using el by (intro ranking_order_independent) (simp_all only: ids mset_map)
  moreover have "set ts = set us" "set (eligible dialect ro ts) = set (eligible dialect ro us)"
    using assms(2) el by (metis set_mset_mset)+
  ultimately show ?thesis
    using route_profile_parts [OF assms(1) refl, of rnd "extract" sql dialect ro] route_profile_parts [OF du refl, of rnd "extract" sql dialect ro]
    by (simp add: tables Let_def)
qed

subsection \<open>Examples\<close>

text \<open>
  Three databases: \<open>a\<close>, the default, has both tables of the statement; \<open>b\<close>, which declares their
  schema, has one of them; \<open>c\<close> has both.
\<close>

definition routing_env :: "(string \<times> string) list \<Rightarrow> exec_env" where
  "routing_env ts = (demo_env 1) \<lparr>ee_query := (\<lambda>pid stmt binds. Inr \<lparr>cu_columns = Inr [(''table_schema'', ''name''), (''table_name'', ''name'')],
     cu_rows = map (\<lambda>(s, t). Row [V_Text s, V_Text t]) ts, cu_end = None\<rparr>)\<rparr>"

definition routing_turn :: "string \<Rightarrow> bool \<Rightarrow> string list \<Rightarrow> (string \<times> string) list \<Rightarrow> exec_env \<times> profile" where
  "routing_turn pid dflt schemas ts = (routing_env ts, demo_profile \<lparr>pr_id := pid,
     pr_routing := \<lparr>rt_schemas = schemas, rt_tags = [], rt_priority = 1, rt_default = dflt, rt_discover = None\<rparr>\<rparr>)"

definition turn_a :: "exec_env \<times> profile" where
  "turn_a = routing_turn ''a'' True [] [(''S'', ''T''), (''S'', ''U'')]"
definition turn_b :: "exec_env \<times> profile" where
  "turn_b = routing_turn ''b'' True [''S''] [(''S'', ''T'')]"
definition turn_c :: "exec_env \<times> profile" where
  "turn_c = routing_turn ''c'' False [] [(''S'', ''U''), (''S'', ''T'')]"

definition routing_extract :: "string \<Rightarrow> string \<Rightarrow> string + table_ref list" where
  "routing_extract = extract_tables (\<lambda>sql. Inr (J_Arr
     [J_Obj [(''RangeVar'', J_Obj [(''schemaname'', J_Str ''s''), (''relname'', J_Str ''t'')])],
      J_Obj [(''RangeVar'', J_Obj [(''schemaname'', J_Str ''s''), (''relname'', J_Str ''u'')])]])) (\<lambda>b sql. Inl ''no parser'')"

definition idle_router :: router where
  "idle_router = \<lparr>ro_manager = new_manager, ro_inventories = Map.empty\<rparr>"

lemma routing_choice:
  "rd_selected (fst (route_profile id routing_extract ''q'' [] [turn_b, turn_c, turn_a] idle_router)) = Some ''a''"
  by code_simp

theorem route_decision_sound_witness:
  "\<exists>env p0. (env, p0) \<in> set [turn_b, turn_c, turn_a] \<and> pr_id p0 = ''a'' \<and>
     covers env (rd_tables (fst (route_profile id routing_extract ''q'' [] [turn_b, turn_c, turn_a] idle_router))) (with_defaults p0) idle_router"
proof -
  have "distinct (map turn_id [turn_b, turn_c, turn_a])" by code_simp
  moreover have "rd_tables (fst (route_profile id routing_extract ''q'' [] [turn_b, turn_c, turn_a] idle_router)) \<noteq> []" by code_simp
  ultimately show ?thesis
    using route_decision_sound [OF _ routing_choice] by (auto simp: Let_def simp del: set_simps)
qed

theorem route_order_independent_witness:
  "rd_selected (fst (route_profile id routing_extract ''q'' [] [turn_a, turn_b, turn_c] idle_router)) = Some ''a''"
proof -
  have "distinct (map turn_id [turn_b, turn_c, turn_a])" by code_simp
  moreover have "mset [turn_b, turn_c, turn_a] = mset [turn_a, turn_b, turn_c]" by simp
  ultimately show ?thesis
    using route_order_independent [of "[turn_b, turn_c, turn_a]" "[turn_a, turn_b, turn_c]" id routing_extract "''q''" "[]" idle_router]
    by (simp only: Let_def routing_choice)
qed

text \<open>
  \<open>a\<close> and \<open>c\<close> both have all the tables and are less than ten points apart, so between the two there is
  no clear winner; the presence of \<open>b\<close>, which cannot serve the statement, makes the choice
  automatic, since only the second place is compared with the first.
\<close>

lemma unfit_profile_makes_a_winner:
  "rd_selected (fst (route_profile id routing_extract ''q'' [] [turn_a, turn_c] idle_router)) = None"
  "map rc_coverage (rd_candidates (fst (route_profile id routing_extract ''q'' [] [turn_b, turn_c, turn_a] idle_router)))
     = [Full, Partial, Full]"
  by code_simp+

subsection \<open>What routing sends\<close>

lemma inventory_sent:
  assumes "inventory env p r = (res, r')"
  shows "mg_sent (ro_manager r') = mg_sent (ro_manager r) \<or>
    mg_sent (ro_manager r') = mg_sent (ro_manager r) @ [(pr_id p, inventory_stmt)]"
  using assms by (auto simp: inventory_def Let_def split: if_splits option.splits sum.splits prod.splits dest: db_for_frame)

text \<open>After a change of the profile its tables are read from the database, not from the inventory.\<close>

lemma changed_profile_is_read_again:
  assumes "inventory env p (invalidate_profile (pr_id p) r) = (Inr ts, r')"
  shows "mg_sent (ro_manager r') = mg_sent (ro_manager r) @ [(pr_id p, inventory_stmt)]"
  using assms by (auto simp: inventory_def invalidate_profile_def invalidate_inventory_def invalidate_def Let_def
      split: if_splits option.splits sum.splits prod.splits dest!: db_for_frame)

lemma score_profile_sent:
  assumes "score_profile rnd env refs p r = (c, r')"
  shows "mg_sent (ro_manager r') = mg_sent (ro_manager r) \<or>
    mg_sent (ro_manager r') = mg_sent (ro_manager r) @ [(pr_id p, inventory_stmt)]"
  using assms by (auto simp: score_profile_def Let_def split: if_splits sum.splits prod.splits dest: inventory_sent)

text \<open>Routing never sends the statement it routes: only the inventory query, to profiles of the list.\<close>

lemma routing_sends_inventory_only:
  "\<exists>sent. mg_sent (ro_manager (snd (route_profile rnd extract sql dialect ts ro))) = mg_sent (ro_manager ro) @ sent \<and>
     set sent \<subseteq> (\<lambda>t. (turn_id t, inventory_stmt)) ` set ts"
proof -
  have "\<exists>sent. mg_sent (ro_manager (snd (snd (score_all rnd dialect refs ts r)))) = mg_sent (ro_manager r) @ sent \<and>
     set sent \<subseteq> (\<lambda>t. (turn_id t, inventory_stmt)) ` set ts" for refs r
  proof (induction ts arbitrary: r)
    case (Cons t ts)
    obtain env p0 where t: "t = (env, p0)" by fastforce
    let ?p = "with_defaults p0"
    show ?case
    proof (cases "excluded env dialect ?p r")
      case True
      then show ?thesis using Cons.IH [of r] by (auto simp: t Let_def case_prod_beta)
    next
      case False
      obtain c r1 where c: "score_profile rnd env refs ?p r = (c, r1)" by fastforce
      obtain s1 where s1: "mg_sent (ro_manager r1) = mg_sent (ro_manager r) @ s1" "set s1 \<subseteq> {(turn_id t, inventory_stmt)}"
        using score_profile_sent [OF c] by (auto simp: t turn_id_def)
      obtain s2 where s2: "mg_sent (ro_manager (snd (snd (score_all rnd dialect refs ts r1)))) = mg_sent (ro_manager r1) @ s2"
        "set s2 \<subseteq> (\<lambda>t. (turn_id t, inventory_stmt)) ` set ts" using Cons.IH [of r1] by blast
      have "set (s1 @ s2) \<subseteq> (\<lambda>t. (turn_id t, inventory_stmt)) ` set (t # ts)" using s1(2) s2(2) by auto
      then show ?thesis using False s1(1) s2(1) by (auto simp: t c Let_def case_prod_beta)
    qed
  qed simp
  then show ?thesis by (simp add: route_profile_def Let_def case_prod_beta)
qed

end
