(* ===== verification/Mcp_Query.thy ===== *)
theory Mcp_Query
  imports Profile_Access Profile_Router "HOL-Library.AList"
begin

text \<open>
  The query tools of the MCP endpoint in the mode with accounts: the session's open questions
  (\<open>trackPendingClarifications\<close> and \<open>handleDelete\<close> in \<open>internal/mcp/server.go\<close>), the choice of a
  profile by the router among those the account may use (\<open>usableProfiles\<close>, \<open>routeProfile\<close> in
  \<open>authapi.go\<close>), and the two tools that execute, \<open>run_sql_safely\<close> (\<open>server.go\<close>) and
  \<open>execute_with_repair\<close> (\<open>repair.go\<close>). The validation of the catalog is the parameter \<open>valid\<close>; hints,
  lint and diagnoses, which only inform, are dropped from the answers.

  The lemmas show that no tool touches a database the account may not use, that nothing is executed
  while a question is open, and that the second tool differs from the first in its words only.
\<close>

subsection \<open>State\<close>

record mcp =
  mc_site :: site
  mc_inventories :: "string \<Rightarrow> inventory_entry option"
  mc_pending :: "(string \<times> string list) list"

definition router_of :: "mcp \<Rightarrow> router" where
  "router_of st = \<lparr>ro_manager = sv_manager (si_server (mc_site st)), ro_inventories = mc_inventories st\<rparr>"

definition with_server :: "server \<Rightarrow> mcp \<Rightarrow> mcp" where
  "with_server sv st = st \<lparr>mc_site := (mc_site st) \<lparr>si_server := sv\<rparr>\<rparr>"

definition with_router :: "router \<Rightarrow> mcp \<Rightarrow> mcp" where
  "with_router ro st = (with_server ((si_server (mc_site st)) \<lparr>sv_manager := ro_manager ro\<rparr>) st) \<lparr>mc_inventories := ro_inventories ro\<rparr>"

definition sent_by :: "mcp \<Rightarrow> (string \<times> string) list" where
  "sent_by st = mg_sent (sv_manager (si_server (mc_site st)))"

subsection \<open>Open questions\<close>

definition pending_limit :: nat where "pending_limit = 1000"

text \<open>\<open>asked\<close> has the ids of the questions when the bundle's status is \<open>needs_clarification\<close>.\<close>

definition track_pending :: "string \<Rightarrow> string list option \<Rightarrow> mcp \<Rightarrow> mcp" where
  "track_pending sid asked st =
     (if sid = [] then st
      else (case asked of
          Some ids \<Rightarrow> st \<lparr>mc_pending := AList.update sid ids
            (if length (mc_pending st) > pending_limit then [] else mc_pending st)\<rparr>
        | None \<Rightarrow> st \<lparr>mc_pending := AList.delete sid (mc_pending st)\<rparr>))"

definition pending_clarifications :: "string \<Rightarrow> mcp \<Rightarrow> string list" where
  "pending_clarifications sid st =
     (if sid = [] then [] else case map_of (mc_pending st) sid of Some ids \<Rightarrow> ids | None \<Rightarrow> [])"

definition end_session :: "bool \<Rightarrow> string \<Rightarrow> mcp \<Rightarrow> mcp" where
  "end_session stateful sid st = (if \<not> stateful \<or> sid = [] then st else st \<lparr>mc_pending := AList.delete sid (mc_pending st)\<rparr>)"

subsection \<open>Routing among the usable profiles\<close>

definition usable_profiles :: "account option \<Rightarrow> access_store \<Rightarrow> profile list" where
  "usable_profiles actor s =
     (case actor of
        None \<Rightarrow> []
      | Some u \<Rightarrow> map (\<lambda>r. with_defaults ((rec_def r) \<lparr>pr_id := rec_id r\<rparr>))
          (filter (\<lambda>r. can_use_profile u r (list_grants s (rec_id r)))
            (sort_by (\<lambda>a b. rec_id a < rec_id b) (as_profiles s))))"

text \<open>What a tool call meets outside: the surroundings of every profile's turn and of the execution.\<close>

record tool_env =
  te_round :: "rat \<Rightarrow> rat"
  te_extract :: "string \<Rightarrow> string \<Rightarrow> string + table_ref list"
  te_turn :: "string \<Rightarrow> exec_env"
  te_exec :: exec_env
  te_pii :: "string list"
  te_valid :: "string \<Rightarrow> string \<Rightarrow> int \<Rightarrow> bool"

definition route_for :: "tool_env \<Rightarrow> account option \<Rightarrow> string \<Rightarrow> mcp \<Rightarrow> route_decision \<times> mcp" where
  "route_for env actor sql st =
     (case route_profile (te_round env) (te_extract env) sql []
         (map (\<lambda>p. (te_turn env (pr_id p), p)) (usable_profiles actor (si_access (mc_site st)))) (router_of st) of
        (dec, ro) \<Rightarrow> (dec, with_router ro st))"

subsection \<open>The tools\<close>

record query_args =
  qa_sql :: string
  qa_limit :: int
  qa_profile :: string
  qa_timeout :: int
  qa_fresh :: bool
  qa_approve :: bool

definition wants_routing :: "query_args \<Rightarrow> bool" where
  "wants_routing a \<longleftrightarrow> equal_fold (trim_space (qa_profile a)) ''auto''"

definition tool_options :: "account option \<Rightarrow> query_args \<Rightarrow> exec_options" where
  "tool_options actor a =
     \<lparr>eo_max_rows = qa_limit a, eo_timeout = qa_timeout a, eo_preview = False, eo_binds = [],
      eo_user = (case actor of Some u \<Rightarrow> ac_username u | None \<Rightarrow> ''mcp''), eo_trace = [], eo_approve = qa_approve a\<rparr>"

definition run_guarded :: "tool_env \<Rightarrow> account option \<Rightarrow> string \<Rightarrow> query_args \<Rightarrow> mcp \<Rightarrow> (exec_error + served) \<times> mcp" where
  "run_guarded env actor pid a st =
     (case execute_guarded ((te_exec env) \<lparr>ee_get := meta_get (si_access (mc_site st))\<rparr>) (te_pii env) pid (qa_sql a)
         (tool_options actor a) (qa_fresh a) (si_server (mc_site st)) of
        (r, sv) \<Rightarrow> (r, with_server sv st))"

datatype safe_reply =
    Profile_Choice_Required route_decision
  | Clarification_Required "string list"
  | Forbidden access_error
  | Dry_Run_Only
  | Blocked
  | Blocked_Cost_Ceiling cost_error
  | Plan_Approval_Required string string
  | Execution_Failed exec_error
  | Executed served

definition failure_reply :: "exec_error \<Rightarrow> safe_reply" where
  "failure_reply e =
     (case e of Ex_Cost c \<Rightarrow> Blocked_Cost_Ceiling c | Ex_Gate r t \<Rightarrow> Plan_Approval_Required r t | _ \<Rightarrow> Execution_Failed e)"

text \<open>\<open>run_sql_safely\<close> after the choice of the profile.\<close>

definition safely_on :: "tool_env \<Rightarrow> account option \<Rightarrow> string \<Rightarrow> string \<Rightarrow> query_args \<Rightarrow> mcp \<Rightarrow> safe_reply \<times> mcp" where
  "safely_on env actor sid pid a st =
     (if pending_clarifications sid st \<noteq> [] \<and> pid \<noteq> [] then (Clarification_Required (pending_clarifications sid st), st)
      else (case (if pid = [] then None else can_use_profile_id actor pid (si_access (mc_site st))) of
          Some e \<Rightarrow> (Forbidden e, st)
        | None \<Rightarrow>
            if pid = [] then (Dry_Run_Only, st)
            else if \<not> te_valid env pid (qa_sql a) (qa_limit a) then (Blocked, st)
            else (case run_guarded env actor pid a st of
                (Inl e, st') \<Rightarrow> (failure_reply e, st')
              | (Inr r, st') \<Rightarrow> (Executed r, st'))))"

definition run_sql_safely :: "tool_env \<Rightarrow> account option \<Rightarrow> string \<Rightarrow> query_args \<Rightarrow> mcp \<Rightarrow> safe_reply \<times> mcp" where
  "run_sql_safely env actor sid a st =
     (if wants_routing a
      then (case route_for env actor (qa_sql a) st of (dec, st1) \<Rightarrow>
          (case rd_selected dec of
             None \<Rightarrow> (Profile_Choice_Required dec, st1)
           | Some pid \<Rightarrow> safely_on env actor sid pid a st1))
      else safely_on env actor sid (qa_profile a) a st)"

datatype fix_phase = Fix_Validation | Fix_Cost cost_error | Fix_Plan string string | Fix_Execution exec_error

datatype repair_reply =
    Sql_Required
  | R_Choice_Required route_decision
  | R_Clarification_Required "string list"
  | R_Forbidden access_error
  | R_Dry_Run bool
  | Needs_Fix fix_phase
  | R_Executed_Empty served
  | R_Executed served

definition failure_phase :: "exec_error \<Rightarrow> fix_phase" where
  "failure_phase e = (case e of Ex_Cost c \<Rightarrow> Fix_Cost c | Ex_Gate r t \<Rightarrow> Fix_Plan r t | _ \<Rightarrow> Fix_Execution e)"

definition repair_on :: "tool_env \<Rightarrow> account option \<Rightarrow> string \<Rightarrow> string \<Rightarrow> query_args \<Rightarrow> mcp \<Rightarrow> repair_reply \<times> mcp" where
  "repair_on env actor sid pid a st =
     (if pending_clarifications sid st \<noteq> [] \<and> pid \<noteq> [] then (R_Clarification_Required (pending_clarifications sid st), st)
      else (case (if pid = [] then None else can_use_profile_id actor pid (si_access (mc_site st))) of
          Some e \<Rightarrow> (R_Forbidden e, st)
        | None \<Rightarrow>
            let ok = te_valid env pid (qa_sql a) (qa_limit a) in
            if pid = [] then (R_Dry_Run ok, st)
            else if \<not> ok then (Needs_Fix Fix_Validation, st)
            else (case run_guarded env actor pid a st of
                (Inl e, st') \<Rightarrow> (Needs_Fix (failure_phase e), st')
              | (Inr r, st') \<Rightarrow> (if qr_row_count (sr_result r) = 0 then R_Executed_Empty r else R_Executed r, st'))))"

definition execute_with_repair :: "tool_env \<Rightarrow> account option \<Rightarrow> string \<Rightarrow> query_args \<Rightarrow> mcp \<Rightarrow> repair_reply \<times> mcp" where
  "execute_with_repair env actor sid a st =
     (if trim_space (qa_sql a) = [] then (Sql_Required, st)
      else if wants_routing a
      then (case route_for env actor (qa_sql a) st of (dec, st1) \<Rightarrow>
          (case rd_selected dec of
             None \<Rightarrow> (R_Choice_Required dec, st1)
           | Some pid \<Rightarrow> repair_on env actor sid pid a st1))
      else repair_on env actor sid (qa_profile a) a st)"

text \<open>A call over HTTP: \<open>handleMCP\<close> resolves the account first.\<close>

definition mcp_call ::
  "(string \<Rightarrow> string) \<Rightarrow> int \<Rightarrow> string \<Rightarrow> credentials \<Rightarrow> (account option \<Rightarrow> mcp \<Rightarrow> 'r \<times> mcp) \<Rightarrow> mcp \<Rightarrow> (auth_error + 'r) \<times> mcp" where
  "mcp_call hash now admin_token cr tool st =
     (case resolve_request hash now admin_token cr (si_accounts (mc_site st)) of (x, accounts) \<Rightarrow>
       let st1 = st \<lparr>mc_site := (mc_site st) \<lparr>si_accounts := accounts\<rparr>\<rparr> in
       (case x of
          Inl e \<Rightarrow> (Inl e, st1)
        | Inr u \<Rightarrow> (case tool (Some u) st1 of (r, st2) \<Rightarrow> (Inr r, st2))))"


text \<open>
  \<open>POST /api/query/route\<close>: the request is resolved, but the router is called with the request's
  context, which has no account outside the MCP endpoint.
\<close>

definition handle_route ::
  "(string \<Rightarrow> string) \<Rightarrow> int \<Rightarrow> string \<Rightarrow> credentials \<Rightarrow> tool_env \<Rightarrow> string \<Rightarrow> mcp \<Rightarrow> (auth_error + route_decision) \<times> mcp" where
  "handle_route hash now admin_token cr env sql =
     mcp_call hash now admin_token cr (\<lambda>actor. route_for env context_account sql)"

text \<open>So the route never has a candidate, whoever asks.\<close>

lemma route_without_account:
  "rd_candidates (fst (route_for env context_account sql st)) = []" "rd_selected (fst (route_for env context_account sql st)) = None"
  by (simp_all add: route_for_def context_account_def usable_profiles_def route_profile_def Let_def sort_by_def case_prod_beta)

subsection \<open>The two tools\<close>

text \<open>How \<open>execute_with_repair\<close> words an answer of \<open>run_sql_safely\<close>.\<close>

fun repair_words :: "tool_env \<Rightarrow> query_args \<Rightarrow> safe_reply \<Rightarrow> repair_reply" where
  "repair_words env a (Profile_Choice_Required dec) = R_Choice_Required dec"
| "repair_words env a (Clarification_Required ids) = R_Clarification_Required ids"
| "repair_words env a (Forbidden e) = R_Forbidden e"
| "repair_words env a Dry_Run_Only = R_Dry_Run (te_valid env [] (qa_sql a) (qa_limit a))"
| "repair_words env a Blocked = Needs_Fix Fix_Validation"
| "repair_words env a (Blocked_Cost_Ceiling c) = Needs_Fix (Fix_Cost c)"
| "repair_words env a (Plan_Approval_Required r t) = Needs_Fix (Fix_Plan r t)"
| "repair_words env a (Execution_Failed e) = Needs_Fix (Fix_Execution e)"
| "repair_words env a (Executed r) = (if qr_row_count (sr_result r) = 0 then R_Executed_Empty r else R_Executed r)"

lemma failure_words: "repair_words env a (failure_reply e) = Needs_Fix (failure_phase e)"
  by (cases e) (simp_all add: failure_reply_def failure_phase_def)

lemma repair_on_words: "repair_on env actor sid pid a st = map_prod (repair_words env a) id (safely_on env actor sid pid a st)"
  by (simp add: repair_on_def safely_on_def failure_words Let_def split: option.split prod.split sum.split)

text \<open>
  C22. The repairing tool is the safe tool in other words: on a text that is not blank it reaches the
  same state, with the same statements sent, cached and recorded, and its answer is a function of
  the other tool's answer; no gate is weaker and no result differs.
\<close>

theorem repair_tool_equivalent:
  "execute_with_repair env actor sid a st =
     (if trim_space (qa_sql a) = [] then (Sql_Required, st)
      else map_prod (repair_words env a) id (run_sql_safely env actor sid a st))"
  by (simp add: execute_with_repair_def run_sql_safely_def repair_on_words split: option.split prod.split)

subsection \<open>What a tool call may send\<close>

definition may_use :: "account \<Rightarrow> string \<Rightarrow> access_store \<Rightarrow> bool" where
  "may_use u pid s \<longleftrightarrow> is_admin u \<or> (\<exists>r \<in> set (as_profiles s). rec_id r = pid \<and> can_use_profile u r (list_grants s pid))"

lemma can_use_may_use: "can_use_profile_id (Some u) pid s = None \<Longrightarrow> may_use u pid s"
  by (drule can_use_profile_id_None) (auto simp: may_use_def get_record_def find_Some_iff)

lemma usable_may_use: "p \<in> set (usable_profiles (Some u) s) \<Longrightarrow> may_use u (pr_id p) s"
  by (auto simp: usable_profiles_def may_use_def)

lemma mcp_frame [simp]:
  "si_access (mc_site (with_server sv st)) = si_access (mc_site st)" "si_server (mc_site (with_server sv st)) = sv"
  "si_access (mc_site (with_router ro st)) = si_access (mc_site st)"
  "sent_by (with_router ro st) = mg_sent (ro_manager ro)" "mg_sent (ro_manager (router_of st)) = sent_by st"
  "pending_clarifications sid (with_router ro st) = pending_clarifications sid st"
  by (simp_all add: with_server_def with_router_def sent_by_def router_of_def pending_clarifications_def)

lemma route_for_frame:
  assumes "route_for env actor sql st = (dec, st1)"
  shows "si_access (mc_site st1) = si_access (mc_site st)" and "pending_clarifications sid st1 = pending_clarifications sid st"
  using assms by (auto simp: route_for_def split: prod.splits)

lemma route_for_sent:
  assumes "route_for env (Some u) sql st = (dec, st1)"
  shows "\<exists>looked. sent_by st1 = sent_by st @ looked \<and>
    (\<forall>q \<in> set looked. snd q = inventory_stmt \<and> may_use u (fst q) (si_access (mc_site st)))"
proof -
  let ?ts = "map (\<lambda>p. (te_turn env (pr_id p), p)) (usable_profiles (Some u) (si_access (mc_site st)))"
  obtain ro where ro: "route_profile (te_round env) (te_extract env) sql [] ?ts (router_of st) = (dec, ro)" "st1 = with_router ro st"
    using assms by (auto simp: route_for_def split: prod.splits)
  obtain looked where l: "mg_sent (ro_manager ro) = sent_by st @ looked" "set looked \<subseteq> (\<lambda>t. (turn_id t, inventory_stmt)) ` set ?ts"
    using routing_sends_inventory_only [of "te_round env" "te_extract env" sql "[]" ?ts "router_of st"] ro(1) by auto
  have "snd q = inventory_stmt \<and> may_use u (fst q) (si_access (mc_site st))" if "q \<in> set looked" for q
  proof -
    have "q \<in> (\<lambda>t. (turn_id t, inventory_stmt)) ` set ?ts" using l(2) that by blast
    then show ?thesis by (auto simp: turn_id_def intro: usable_may_use)
  qed
  then show ?thesis using l(1) ro(2) by auto
qed

lemma execute_guarded_sent:
  assumes "\<And>p. ee_get env pid = Inr p \<Longrightarrow> pr_id p = pid"
  shows "\<exists>ran. mg_sent (sv_manager (snd (execute_guarded env pii pid sql opts fresh s))) = mg_sent (sv_manager s) @ ran \<and>
    (\<forall>q \<in> set ran. fst q = pid)"
proof -
  have ex: "\<exists>ran. mg_sent (snd (execute env pid sql opts m)) = mg_sent m @ ran \<and> (\<forall>q \<in> set ran. fst q = pid)" for m
    using execute_sent [of env pid sql opts m] assms
    by (fastforce simp: passes_guards_def resolve_def split: sum.splits option.splits)
  have "\<exists>ran. mg_sent (sv_manager (snd (execute_fresh env pii pid sql opts s'))) = mg_sent (sv_manager s') @ ran \<and>
      (\<forall>q \<in> set ran. fst q = pid)" for s'
    using ex [of "sv_manager s'"] by (cases "execute env pid sql opts (sv_manager s')")
      (simp add: execute_fresh_def split: prod.split sum.split)
  from this [of s] this [of "s \<lparr>sv_cache := snd (cache_get (ee_start env) (cache_key pid sql (eo_max_rows opts)) (sv_cache s))\<rparr>"]
  show ?thesis
    by (auto simp: execute_guarded_def split: prod.split option.split)
qed

lemma run_guarded_sent:
  assumes "run_guarded env actor pid a st = (r, st')"
  shows "\<exists>ran. sent_by st' = sent_by st @ ran \<and> (\<forall>q \<in> set ran. fst q = pid)"
  using assms execute_guarded_sent [of "(te_exec env) \<lparr>ee_get := meta_get (si_access (mc_site st))\<rparr>" pid "te_pii env" "qa_sql a"
      "tool_options actor a" "qa_fresh a" "si_server (mc_site st)"]
  by (auto simp: run_guarded_def sent_by_def with_server_def meta_source.get_id split: prod.splits)


text \<open>The conditions under which a query may run on the profile \<open>pid\<close>.\<close>

definition query_gate :: "tool_env \<Rightarrow> account \<Rightarrow> string \<Rightarrow> string \<Rightarrow> query_args \<Rightarrow> mcp \<Rightarrow> bool" where
  "query_gate env u sid pid a st \<longleftrightarrow>
     pid \<noteq> [] \<and> pending_clarifications sid st = [] \<and> may_use u pid (si_access (mc_site st)) \<and>
     te_valid env pid (qa_sql a) (qa_limit a) \<and>
     (if wants_routing a then rd_selected (fst (route_for env (Some u) (qa_sql a) st)) = Some pid else pid = qa_profile a)"

lemma safely_on_gated:
  assumes "safely_on env (Some u) sid pid a st = (r, st')"
  shows "\<exists>ran. sent_by st' = sent_by st @ ran \<and> (\<forall>q \<in> set ran. fst q = pid) \<and>
    (ran \<noteq> [] \<or> (\<exists>x. r = Executed x) \<longrightarrow>
      pid \<noteq> [] \<and> pending_clarifications sid st = [] \<and> may_use u pid (si_access (mc_site st)) \<and> te_valid env pid (qa_sql a) (qa_limit a))"
proof (cases "pid \<noteq> [] \<and> pending_clarifications sid st = [] \<and> can_use_profile_id (Some u) pid (si_access (mc_site st)) = None \<and>
    te_valid env pid (qa_sql a) (qa_limit a)")
  case True
  obtain x st1 where x: "run_guarded env (Some u) pid a st = (x, st1)" by fastforce
  then have "st' = st1" using assms True by (auto simp: safely_on_def split: sum.splits)
  moreover obtain ran where "sent_by st1 = sent_by st @ ran" "\<forall>q \<in> set ran. fst q = pid" using run_guarded_sent [OF x] by blast
  moreover have "may_use u pid (si_access (mc_site st))" using True by (intro can_use_may_use) simp
  ultimately show ?thesis using True by (intro exI [of _ ran]) simp
next
  case False
  then have "st' = st \<and> (\<forall>x. r \<noteq> Executed x)"
    using assms by (auto simp: safely_on_def split: if_splits option.splits)
  then show ?thesis by auto
qed

lemma run_sql_safely_gated:
  assumes "run_sql_safely env (Some u) sid a st = (r, st')"
  shows "\<exists>looked ran. sent_by st' = sent_by st @ looked @ ran \<and>
    (\<forall>q \<in> set looked. snd q = inventory_stmt \<and> may_use u (fst q) (si_access (mc_site st))) \<and>
    (ran \<noteq> [] \<or> (\<exists>x. r = Executed x) \<longrightarrow> (\<exists>pid. query_gate env u sid pid a st \<and> (\<forall>q \<in> set ran. fst q = pid)))"
proof (cases "wants_routing a")
  case True
  obtain dec st1 where route: "route_for env (Some u) (qa_sql a) st = (dec, st1)" by fastforce
  obtain looked where l: "sent_by st1 = sent_by st @ looked"
    "\<forall>q \<in> set looked. snd q = inventory_stmt \<and> may_use u (fst q) (si_access (mc_site st))"
    using route_for_sent [OF route] by blast
  show ?thesis
  proof (cases "rd_selected dec")
    case None
    then have "st' = st1" "\<forall>x. r \<noteq> Executed x" using assms True route by (auto simp: run_sql_safely_def)
    then show ?thesis using l by (intro exI [of _ looked] exI [of _ "[]"]) auto
  next
    case (Some pid)
    then have "safely_on env (Some u) sid pid a st1 = (r, st')" using assms True route by (simp add: run_sql_safely_def)
    from safely_on_gated [OF this] obtain ran where ran: "sent_by st' = sent_by st1 @ ran" "\<forall>q \<in> set ran. fst q = pid"
      "ran \<noteq> [] \<or> (\<exists>x. r = Executed x) \<longrightarrow> query_gate env u sid pid a st"
      using route_for_frame [OF route] route Some True by (auto simp: query_gate_def)
    then show ?thesis using l by (intro exI [of _ looked] exI [of _ ran]) auto
  qed
next
  case False
  then have "safely_on env (Some u) sid (qa_profile a) a st = (r, st')" using assms by (simp add: run_sql_safely_def)
  from safely_on_gated [OF this] obtain ran where "sent_by st' = sent_by st @ ran" "\<forall>q \<in> set ran. fst q = qa_profile a"
    "ran \<noteq> [] \<or> (\<exists>x. r = Executed x) \<longrightarrow> query_gate env u sid (qa_profile a) a st"
    using False by (auto simp: query_gate_def)
  then show ?thesis by (intro exI [of _ "[]"] exI [of _ ran]) auto
qed

lemma mcp_call_resolved:
  assumes "mcp_call hash now admin_token cr tool st = (x, st')"
  shows "(\<exists>e. x = Inl e) \<and> sent_by st' = sent_by st \<or>
    (\<exists>u r accounts. x = Inr r \<and> live_credential hash now admin_token cr (si_accounts (mc_site st)) u \<and>
      tool (Some u) (st \<lparr>mc_site := (mc_site st) \<lparr>si_accounts := accounts\<rparr>\<rparr>) = (r, st'))"
proof -
  obtain y accounts where y: "resolve_request hash now admin_token cr (si_accounts (mc_site st)) = (y, accounts)" by fastforce
  show ?thesis
  proof (cases y)
    case (Inl e)
    then show ?thesis using assms by (auto simp: mcp_call_def y sent_by_def Let_def)
  next
    case (Inr u)
    then have "live_credential hash now admin_token cr (si_accounts (mc_site st)) u"
      using resolve_request_live [of hash now admin_token cr "si_accounts (mc_site st)" u] y by simp
    then show ?thesis using assms Inr by (auto simp: mcp_call_def y Let_def split: prod.splits)
  qed
qed

lemma accounts_irrelevant [simp]:
  "sent_by (st \<lparr>mc_site := (mc_site st) \<lparr>si_accounts := accounts\<rparr>\<rparr>) = sent_by st"
  "query_gate env u sid pid a (st \<lparr>mc_site := (mc_site st) \<lparr>si_accounts := accounts\<rparr>\<rparr>) = query_gate env u sid pid a st"
  by (simp_all add: sent_by_def query_gate_def pending_clarifications_def route_for_def router_of_def case_prod_beta)

text \<open>
  C5. A query over MCP passes every gate: whatever a call of the executing tool sends, it sends for an
  account with a live credential; before the choice of a profile only the inventory query goes
  out, and only to profiles that account may use; and when anything else is sent, or rows are
  answered, from a database or from the cache, then to one profile, which the account may use,
  which the caller named or the router chose without a rival, with no question of the session open
  and the text valid for that profile's catalog.
\<close>

theorem mcp_query_gated:
  assumes "mcp_call hash now admin_token cr (\<lambda>actor. run_sql_safely env actor sid a) st = (x, st')"
  shows "(\<exists>e. x = Inl e) \<and> sent_by st' = sent_by st \<or>
    (\<exists>u looked ran. live_credential hash now admin_token cr (si_accounts (mc_site st)) u \<and>
      sent_by st' = sent_by st @ looked @ ran \<and>
      (\<forall>q \<in> set looked. snd q = inventory_stmt \<and> may_use u (fst q) (si_access (mc_site st))) \<and>
      (ran \<noteq> [] \<or> (\<exists>rows. x = Inr (Executed rows)) \<longrightarrow>
        (\<exists>pid. query_gate env u sid pid a st \<and> (\<forall>q \<in> set ran. fst q = pid))))"
  using mcp_call_resolved [OF assms]
proof (elim disjE exE conjE)
  fix u r accounts
  assume x: "x = Inr r" and live: "live_credential hash now admin_token cr (si_accounts (mc_site st)) u"
    and run: "run_sql_safely env (Some u) sid a (st \<lparr>mc_site := (mc_site st) \<lparr>si_accounts := accounts\<rparr>\<rparr>) = (r, st')"
  from run_sql_safely_gated [OF run] show ?thesis
    by (intro disjI2 exI [of _ u]) (simp add: x live)
qed auto

subsection \<open>The gate of open questions\<close>

lemma track_pending_effect:
  assumes "sid \<noteq> []"
  shows "pending_clarifications sid (track_pending sid (Some ids) st) = ids"
    and "pending_clarifications sid (track_pending sid None st) = []" and "pending_clarifications sid (end_session True sid st) = []"
    and "length (mc_pending st) \<le> pending_limit \<Longrightarrow> other \<noteq> sid \<Longrightarrow>
      pending_clarifications sid (track_pending other (Some ids) st) = pending_clarifications sid st"
  using assms by (simp_all add: pending_clarifications_def track_pending_def end_session_def update_conv' delete_conv' split: option.split)

text \<open>But the limit is a common one: a question of any session beyond it closes the gates of all others.\<close>

lemma flood_opens_the_gate:
  assumes "length (mc_pending st) > pending_limit" and "other \<noteq> sid" and "other \<noteq> []"
  shows "pending_clarifications sid (track_pending other (Some ids) st) = []"
  using assms by (simp add: pending_clarifications_def track_pending_def update_conv')

subsection \<open>A concrete call\<close>

definition sample_mcp :: mcp where
  "sample_mcp = \<lparr>mc_site = sample_site, mc_inventories = Map.empty, mc_pending = []\<rparr>"

definition sample_tools :: tool_env where
  "sample_tools = \<lparr>te_round = id, te_extract = routing_extract, te_turn = (\<lambda>_. table_env 0), te_exec = table_env 0,
     te_pii = [''A''], te_valid = (\<lambda>pid sql limit. True)\<rparr>"

definition sample_query :: query_args where
  "sample_query = \<lparr>qa_sql = ''SELECT a'', qa_limit = 0, qa_profile = ''dw'', qa_timeout = 0, qa_fresh = True, qa_approve = True\<rparr>"

theorem mcp_query_gated_witness:
  "\<exists>rows st' ran. mcp_call ((@) ''#'') 9 [] cookie_request (\<lambda>actor. run_sql_safely sample_tools actor ''s'' sample_query) sample_mcp
      = (Inr (Executed rows), st') \<and> sent_by st' = ran \<and> (\<forall>q \<in> set ran. snd q = inventory_stmt \<or> fst q = ''dw'')"
proof -
  let ?call = "mcp_call ((@) ''#'') 9 [] cookie_request (\<lambda>actor. run_sql_safely sample_tools actor ''s'' sample_query) sample_mcp"
  obtain acc where acc: "resolve_request ((@) ''#'') 9 [] cookie_request sample_store = (Inr sample_admin, acc)"
    using sample_request by (metis prod.collapse)
  obtain r m where r: "execute ((table_env 0)\<lparr>ee_get := meta_get sample_access\<rparr>) ''dw'' ''SELECT a'' (demo_options\<lparr>eo_user := ''root''\<rparr>) new_manager = (Inr r, m)"
    using table_run_for [of "meta_get sample_access", OF sample_meta_get] by blast
  obtain ms r' where mr: "mask_pii_result [''A''] r = (ms, r')" by fastforce
  have "can_use_profile_id (Some sample_admin) ''dw'' sample_access = None" "\<not> wants_routing sample_query"
    "tool_options (Some sample_admin) sample_query = demo_options\<lparr>eo_user := ''root''\<rparr>"
    by (code_simp, code_simp, simp add: tool_options_def sample_query_def demo_options_def sample_admin_def)
  then obtain rows st' where a: "?call = (Inr (Executed rows), st')"
    using r mr by (simp add: mcp_call_def sample_mcp_def sample_site_def acc run_sql_safely_def safely_on_def sample_query_def
        pending_clarifications_def sample_tools_def run_guarded_def execute_guarded_def execute_fresh_def new_server_def)
  have start: "sent_by sample_mcp = []"
    by (simp add: sent_by_def sample_mcp_def sample_site_def new_server_def new_manager_def)
  have named: "pid = ''dw''" if "query_gate sample_tools u ''s'' pid sample_query sample_mcp" for u pid
    using that \<open>\<not> wants_routing sample_query\<close> by (simp add: query_gate_def) (simp add: sample_query_def)
  from mcp_query_gated [OF a] start named a show ?thesis by (fastforce dest: bspec)
qed

end
