(* ===== verification/Predicate_Core.thy ===== *)
theory Predicate_Core
  imports Prelude "HOL-Library.Multiset" "HOL-Library.Char_ord" "HOL-Library.List_Lexorder"
begin

text \<open>
  Row predicates, the part the dialects share (\<open>internal/dbconn/predicate_policy.go\<close>): syntax trees,
  policies with their compiled conditions, the tables of a query block, and the test that the
  required conditions are among those of a query.

  A syntax tree is what the source sees of a parser's: for PostgreSQL the protobuf message of
  pg_query through its reflection interface, for MySQL and MariaDB the tree of TiDB's parser through
  its visitor. A node has the name of its type and the fields that are set, by name, in the order
  in which they are visited.
\<close>

subsection \<open>Syntax trees\<close>

datatype syn = Syn string "(string \<times> syn_val) list"
  and syn_val = Sub syn | Subs "syn list" | Text string

fun node_type :: "syn \<Rightarrow> string" where "node_type (Syn ty fs) = ty"

fun node_fields :: "syn \<Rightarrow> (string \<times> syn_val) list" where "node_fields (Syn ty fs) = fs"

definition sub_field :: "string \<Rightarrow> syn \<Rightarrow> syn option" where
  "sub_field k m = (case map_of (node_fields m) k of Some (Sub x) \<Rightarrow> Some x | _ \<Rightarrow> None)"

definition subs_field :: "string \<Rightarrow> syn \<Rightarrow> syn list" where
  "subs_field k m = (case map_of (node_fields m) k of Some (Subs xs) \<Rightarrow> xs | _ \<Rightarrow> [])"

definition text_field :: "string \<Rightarrow> syn \<Rightarrow> string" where
  "text_field k m = (case map_of (node_fields m) k of Some (Text s) \<Rightarrow> s | _ \<Rightarrow> [])"

text \<open>A Go type assertion on an interface field: the node when it has that type.\<close>

definition sub_as :: "string \<Rightarrow> string \<Rightarrow> syn \<Rightarrow> syn option" where
  "sub_as ty k m = (case sub_field k m of Some x \<Rightarrow> if node_type x = ty then Some x else None | None \<Rightarrow> None)"

definition set_field :: "string \<Rightarrow> syn_val \<Rightarrow> (string \<times> syn_val) list \<Rightarrow> (string \<times> syn_val) list" where
  "set_field k v fs = map (\<lambda>(k', x). if k' = k then (k', v) else (k', x)) fs"

lemma field_size: "map_of (node_fields m) k = Some v \<Longrightarrow> size v < size m"
proof (cases m)
  case (Syn ty fs)
  assume "map_of (node_fields m) k = Some v"
  then have "(k, v) \<in> set fs" by (simp add: Syn map_of_SomeD)
  then have "size v < size_list (size_prod (\<lambda>_. 0) size) fs"
    by (induction fs) auto
  then show ?thesis by (simp add: Syn)
qed

lemma sub_field_size [termination_simp]: "sub_field k m = Some x \<Longrightarrow> size x < size m"
  by (auto simp: sub_field_def dest!: field_size split: option.splits syn_val.splits)

lemma subs_field_size [termination_simp]:
  assumes "x \<in> set (subs_field k m)"
  shows "size x < size m"
proof (cases "map_of (node_fields m) k")
  case (Some v)
  with assms obtain xs where xs: "v = Subs xs" "x \<in> set xs"
    by (auto simp: subs_field_def split: syn_val.splits)
  have "size x \<le> size_list size xs" using xs(2) by (simp add: size_list_estimation')
  then show ?thesis using field_size [OF Some] xs(1) by simp
qed (use assms in \<open>simp add: subs_field_def\<close>)

subsection \<open>Errors\<close>

datatype policy_error =
    Parse_Error string
  | Not_One_Select
  | Where_Missing
  | Subquery_In_Condition
  | Bad_Column_Reference
  | Foreign_Column "string list"
  | Empty_Condition
  | No_Allowed_Columns
  | No_Column_Used
  | Wrong_Dialect string
  | Empty_Table
  | Restore_Failed
  | Executable_Comment
  | Empty_Alias
  | No_Where_Printed

subsection \<open>Policies\<close>

text \<open>A compiled condition, with the tree that was parsed.\<close>

record policy_condition =
  pc_dialect :: string
  pc_raw :: string
  pc_allowed :: "string list"
  pc_columns :: "string list"
  pc_atoms :: "string list"
  pc_tree :: syn

record predicate_policy =
  pp_id :: string
  pp_schema :: string
  pp_table :: string
  pp_condition :: string
  pp_columns :: "string list"

record compiled_policy =
  cp_id :: string
  cp_schema :: string
  cp_table :: string
  cp_condition :: policy_condition

definition allowed_columns :: "string list \<Rightarrow> string list" where
  "allowed_columns cols = map to_lower (filter (\<lambda>c. c \<noteq> []) (map trim_space cols))"

definition trim_chars :: "char list \<Rightarrow> string \<Rightarrow> string" where
  "trim_chars cs s = rev (dropWhile (\<lambda>c. c \<in> set cs) (rev (dropWhile (\<lambda>c. c \<in> set cs) s)))"

definition normalize_policy_table :: "string \<Rightarrow> string \<Rightarrow> string \<times> string" where
  "normalize_policy_table schema table =
     (let s = trim_space schema; t = trim_space table; parts = split_on (CHR ''.'') t;
          (s', t') = (if s = [] \<and> length parts > 1 then (parts ! (length parts - 2), last parts) else (s, t)) in
      (to_lower (trim_chars [dquote, backtick] s'), to_lower (trim_chars [dquote, backtick] t')))"

subsection \<open>Tables of a query block\<close>

record occurrence =
  oc_schema :: string
  oc_table :: string
  oc_alias :: string

definition policy_applies :: "compiled_policy \<Rightarrow> occurrence \<Rightarrow> bool" where
  "policy_applies p oc \<longleftrightarrow> equal_fold (cp_table p) (oc_table oc) \<and>
     (cp_schema p = [] \<or> oc_schema oc = [] \<or> equal_fold (cp_schema p) (oc_schema oc))"

text \<open>A table in a FROM clause, unless it is the name of a common table expression in scope.\<close>

definition table_occurrence :: "string list \<Rightarrow> string \<Rightarrow> string \<Rightarrow> string \<Rightarrow> occurrence list" where
  "table_occurrence ctes schema name alias =
     (if schema = [] \<and> to_lower name \<in> set ctes then []
      else [\<lparr>oc_schema = schema, oc_table = name, oc_alias = (if alias = [] then name else alias)\<rparr>])"

text \<open>
  The query blocks of a tree with the names of the common table expressions in scope: a node adds
  the names it declares to those of its surroundings for itself and everything below it.
\<close>

fun query_blocks :: "(syn \<Rightarrow> string list) \<Rightarrow> string list \<Rightarrow> syn \<Rightarrow> (syn \<times> string list) list" and
  blocks_fields :: "(syn \<Rightarrow> string list) \<Rightarrow> string list \<Rightarrow> (string \<times> syn_val) list \<Rightarrow> (syn \<times> string list) list" and
  blocks_val :: "(syn \<Rightarrow> string list) \<Rightarrow> string list \<Rightarrow> syn_val \<Rightarrow> (syn \<times> string list) list" and
  blocks_list :: "(syn \<Rightarrow> string list) \<Rightarrow> string list \<Rightarrow> syn list \<Rightarrow> (syn \<times> string list) list" where
  "query_blocks names ctes (Syn ty fs) =
     (let inner = names (Syn ty fs) @ ctes in
      (if ty = ''SelectStmt'' then [(Syn ty fs, inner)] else []) @ blocks_fields names inner fs)"
| "blocks_fields names ctes [] = []"
| "blocks_fields names ctes ((k, v) # fs) = blocks_val names ctes v @ blocks_fields names ctes fs"
| "blocks_val names ctes (Sub m) = query_blocks names ctes m"
| "blocks_val names ctes (Subs ms) = blocks_list names ctes ms"
| "blocks_val names ctes (Text s) = []"
| "blocks_list names ctes [] = []"
| "blocks_list names ctes (m # ms) = query_blocks names ctes m @ blocks_list names ctes ms"

subsection \<open>Required atoms\<close>

fun take_atoms :: "(string \<Rightarrow> nat) \<Rightarrow> string list \<Rightarrow> bool" where
  "take_atoms counts [] = True"
| "take_atoms counts (a # as) = (counts a \<noteq> 0 \<and> take_atoms (counts (a := counts a - 1)) as)"

definition contains_all_atoms :: "string list \<Rightarrow> string list \<Rightarrow> bool" where
  "contains_all_atoms have want = take_atoms (count_list have) want"

lemma take_atoms_mset: "take_atoms counts want \<longleftrightarrow> (\<forall>a. count (mset want) a \<le> counts a)"
proof (induction want arbitrary: counts)
  case (Cons a as)
  have "(counts a \<noteq> 0 \<and> (\<forall>b. count (mset as) b \<le> (counts (a := counts a - 1)) b)) \<longleftrightarrow>
      (\<forall>b. count (mset (a # as)) b \<le> counts b)"
    by (force simp: Suc_le_eq split: if_splits)
  then show ?case using Cons.IH by simp
qed simp

text \<open>The counting loop decides containment of multisets.\<close>

lemma contains_all_atoms_mset: "contains_all_atoms have want \<longleftrightarrow> mset want \<subseteq># mset have"
  by (simp add: contains_all_atoms_def take_atoms_mset subseteq_mset_def count_mset)

lemma contained_atoms_hold:
  "contains_all_atoms have want \<Longrightarrow> (\<And>k. k \<in> set have \<Longrightarrow> P k) \<Longrightarrow> k \<in> set want \<Longrightarrow> P k"
  by (metis contains_all_atoms_mset in_multiset_in_set mset_subset_eqD)

subsection \<open>Reports\<close>

record predicate_match =
  pm_policy :: string
  pm_block :: nat
  pm_schema :: string
  pm_table :: string
  pm_alias :: string
  pm_condition :: string
  pm_matched :: bool

record predicate_report =
  rp_matches :: "predicate_match list"
  rp_missing :: "predicate_match list"

text \<open>The decisions of one block; \<open>atoms\<close> gives the conditions of its WHERE clause, if it has one.\<close>

definition match_occurrence :: "nat \<Rightarrow> (occurrence \<Rightarrow> string list) option \<Rightarrow> occurrence \<Rightarrow> compiled_policy \<Rightarrow> predicate_match" where
  "match_occurrence block atoms oc p =
     \<lparr>pm_policy = cp_id p, pm_block = block, pm_schema = oc_schema oc, pm_table = oc_table oc, pm_alias = oc_alias oc,
      pm_condition = pc_raw (cp_condition p),
      pm_matched = (case atoms of None \<Rightarrow> False | Some f \<Rightarrow> contains_all_atoms (f oc) (pc_atoms (cp_condition p)))\<rparr>"

definition match_block :: "compiled_policy list \<Rightarrow> nat \<Rightarrow> (occurrence \<Rightarrow> string list) option \<Rightarrow> occurrence list \<Rightarrow> predicate_match list" where
  "match_block ps block atoms ocs =
     concat (map (\<lambda>oc. map (match_occurrence block atoms oc) (filter (\<lambda>p. policy_applies p oc) ps)) ocs)"

lemma match_block_all:
  assumes "\<forall>x \<in> set (match_block ps block atoms ocs). pm_matched x" "p \<in> set ps" "oc \<in> set ocs" "policy_applies p oc"
  shows "\<exists>f. atoms = Some f \<and> contains_all_atoms (f oc) (pc_atoms (cp_condition p))"
proof -
  have "match_occurrence block atoms oc p \<in> set (match_block ps block atoms ocs)"
    using assms(2-4) by (auto simp: match_block_def)
  then have "pm_matched (match_occurrence block atoms oc p)" using assms(1) by blast
  then show ?thesis by (auto simp: match_occurrence_def split: option.splits)
qed

text \<open>What holds of all the decisions of a query holds of those of each block.\<close>

lemma enumerated_block:
  assumes "\<forall>x \<in> set (concat (map (\<lambda>(n, b). f n b) (enumerate k bs))). P x" "b \<in> set bs"
  shows "\<exists>n. \<forall>x \<in> set (f n b). P x"
proof -
  obtain i where "i < length bs" "bs ! i = b" using assms(2) by (metis in_set_conv_nth)
  then have "(k + i, b) \<in> set (enumerate k bs)" by (force simp: in_set_enumerate_eq)
  then show ?thesis using assms(1) by fastforce
qed

end
