(* ===== verification/Predicate_Pg.thy ===== *)
theory Predicate_Pg
  imports Predicate_Core
begin

text \<open>
  Row predicates for PostgreSQL (\<open>internal/dbconn/predicate_policy_pg.go\<close>). The parser, the printer
  (\<open>pgquery.Deparse\<close>) and the deterministic encoding of messages are parameters.
\<close>

subsection \<open>Conjunctions and columns\<close>

function flatten_and :: "syn \<Rightarrow> syn list" where
  "flatten_and node =
     (case sub_field ''bool_expr'' node of
        None \<Rightarrow> [node]
      | Some b \<Rightarrow> if text_field ''boolop'' b = ''AND_EXPR'' then concat (map flatten_and (subs_field ''args'' b)) else [node])"
  by pat_completeness auto
termination
  by (relation "measure size") (auto dest!: sub_field_size subs_field_size intro: less_trans)

declare flatten_and.simps [simp del]

definition string_node :: "string \<Rightarrow> syn" where
  "string_node s = Syn ''Node'' [(''string'', Sub (Syn ''String'' [(''sval'', Text s)]))]"

definition node_text :: "syn \<Rightarrow> string option" where
  "node_text n =
     (case sub_field ''string'' n of None \<Rightarrow> None | Some s \<Rightarrow> if text_field ''sval'' s = [] then None else Some (text_field ''sval'' s))"

definition column_parts :: "syn \<Rightarrow> string list option" where
  "column_parts cr =
     (let ts = map node_text (subs_field ''fields'' cr) in if ts = [] \<or> None \<in> set ts then None else Some (map the ts))"

text \<open>
  \<open>normalizePostgresNode\<close>: every column reference becomes the one that \<open>bind\<close> gives for it; also the
  list of the columns so bound. A rebuilt reference holds text nodes only, in which the walk has
  nothing more to do.
\<close>

fun normalize :: "bool \<Rightarrow> (string list \<Rightarrow> string list option) \<Rightarrow> syn \<Rightarrow> policy_error + string list \<times> syn" and
  normalize_fields :: "bool \<Rightarrow> (string list \<Rightarrow> string list option) \<Rightarrow> (string \<times> syn_val) list \<Rightarrow> policy_error + string list \<times> (string \<times> syn_val) list" and
  normalize_val :: "bool \<Rightarrow> (string list \<Rightarrow> string list option) \<Rightarrow> syn_val \<Rightarrow> policy_error + string list \<times> syn_val" and
  normalize_list :: "bool \<Rightarrow> (string list \<Rightarrow> string list option) \<Rightarrow> syn list \<Rightarrow> policy_error + string list \<times> syn list" where
  "normalize rej bind (Syn ty fs) =
     (if rej \<and> ty = ''SubLink'' then Inl Subquery_In_Condition
      else if ty = ''ColumnRef'' then
        (case column_parts (Syn ty fs) of
           None \<Rightarrow> Inl Bad_Column_Reference
         | Some parts \<Rightarrow> (case bind parts of
             None \<Rightarrow> Inl (Foreign_Column parts)
           | Some cs \<Rightarrow> Inr ([last cs], Syn ty (set_field ''fields'' (Subs (map string_node cs)) fs))))
      else bind_err (normalize_fields rej bind fs) (\<lambda>(cs, fs'). Inr (cs, Syn ty fs')))"
| "normalize_fields rej bind [] = Inr ([], [])"
| "normalize_fields rej bind ((k, v) # fs) =
     bind_err (normalize_val rej bind v) (\<lambda>(cs, v').
     bind_err (normalize_fields rej bind fs) (\<lambda>(ds, fs'). Inr (cs @ ds, (k, v') # fs')))"
| "normalize_val rej bind (Sub m) = bind_err (normalize rej bind m) (\<lambda>(cs, m'). Inr (cs, Sub m'))"
| "normalize_val rej bind (Subs ms) = bind_err (normalize_list rej bind ms) (\<lambda>(cs, ms'). Inr (cs, Subs ms'))"
| "normalize_val rej bind (Text s) = Inr ([], Text s)"
| "normalize_list rej bind [] = Inr ([], [])"
| "normalize_list rej bind (m # ms) =
     bind_err (normalize rej bind m) (\<lambda>(cs, m').
     bind_err (normalize_list rej bind ms) (\<lambda>(ds, ms'). Inr (cs @ ds, m' # ms')))"

definition location_names :: "string list" where
  "location_names = [''location'', ''stmt_location'', ''stmt_len'']"

fun clear_locations :: "syn \<Rightarrow> syn" and
  clear_fields :: "(string \<times> syn_val) list \<Rightarrow> (string \<times> syn_val) list" and
  clear_val :: "syn_val \<Rightarrow> syn_val" and
  clear_list :: "syn list \<Rightarrow> syn list" where
  "clear_locations (Syn ty fs) = Syn ty (clear_fields fs)"
| "clear_fields [] = []"
| "clear_fields ((k, v) # fs) = (if k \<in> set location_names then clear_fields fs else (k, clear_val v) # clear_fields fs)"
| "clear_val (Sub m) = Sub (clear_locations m)"
| "clear_val (Subs ms) = Subs (clear_list ms)"
| "clear_val (Text s) = Text s"
| "clear_list [] = []"
| "clear_list (m # ms) = clear_locations m # clear_list ms"

definition canonical :: "(syn \<Rightarrow> string) \<Rightarrow> syn \<Rightarrow> string" where
  "canonical marshal m = marshal (clear_locations m)"

subsection \<open>Conditions\<close>

definition bind_allowed :: "string list \<Rightarrow> string list \<Rightarrow> string list option" where
  "bind_allowed allowed parts = (let c = to_lower (last parts) in if c \<in> set allowed then Some [c] else None)"

definition condition_atom :: "(syn \<Rightarrow> string) \<Rightarrow> string list \<Rightarrow> syn \<Rightarrow> policy_error + string list \<times> string" where
  "condition_atom marshal allowed node =
     bind_err (normalize True (bind_allowed allowed) node) (\<lambda>(cs, m). Inr (cs, canonical marshal m))"

definition single_select :: "syn \<Rightarrow> policy_error + syn" where
  "single_select tree =
     (case subs_field ''stmts'' tree of
        [raw] \<Rightarrow> (case Option.bind (sub_field ''stmt'' raw) (sub_field ''select_stmt'') of None \<Rightarrow> Inl Not_One_Select | Some sel \<Rightarrow> Inr sel)
      | _ \<Rightarrow> Inl Not_One_Select)"

definition pg_where :: "syn \<Rightarrow> syn option" where
  "pg_where sel = sub_field ''where_clause'' sel"

text \<open>The columns, the atoms and the tree of a condition.\<close>

definition parse_pg_condition ::
  "(string \<Rightarrow> string + syn) \<Rightarrow> (syn \<Rightarrow> string) \<Rightarrow> string \<Rightarrow> string list \<Rightarrow> policy_error + string list \<times> string list \<times> syn" where
  "parse_pg_condition parse marshal condition allowed =
     (case parse (''SELECT 1 WHERE ('' @ condition @ '')'') of
        Inl e \<Rightarrow> Inl (Parse_Error e)
      | Inr tree \<Rightarrow>
          bind_err (single_select tree) (\<lambda>sel.
          (case pg_where sel of
             None \<Rightarrow> Inl Where_Missing
           | Some w \<Rightarrow>
               bind_err (mapM_err (condition_atom marshal allowed) (flatten_and w)) (\<lambda>rs.
                 let cs = concat (map fst rs) in if cs = [] then Inl No_Column_Used else Inr (remdups cs, map snd rs, tree)))))"

text \<open>\<open>renderPostgresPolicyCondition\<close>; the text after \<open>WHERE\<close> in the printed query.\<close>

fun after_where :: "string \<Rightarrow> string option" where
  "after_where [] = None"
| "after_where (c # s) =
     (if to_upper (take 7 (c # s)) = '' WHERE '' then Some (drop 7 (c # s)) else after_where s)"

definition bind_alias :: "string \<Rightarrow> string list \<Rightarrow> string list option" where
  "bind_alias alias parts = Some [alias, last parts]"

definition render_pg_condition :: "(syn \<Rightarrow> string + string) \<Rightarrow> syn \<Rightarrow> string \<Rightarrow> policy_error + string" where
  "render_pg_condition deparse tree alias =
     bind_err (normalize False (bind_alias alias) tree) (\<lambda>(_, t).
       case deparse t of
         Inl e \<Rightarrow> Inl (Parse_Error e)
       | Inr out \<Rightarrow> (case after_where out of None \<Rightarrow> Inl No_Where_Printed | Some s \<Rightarrow> Inr (trim_space s)))"

subsection \<open>Query blocks and the tables they read\<close>

definition pg_cte_names :: "syn \<Rightarrow> string list" where
  "pg_cte_names m =
     (if node_type m \<noteq> ''SelectStmt'' then []
      else (case sub_field ''with_clause'' m of
          None \<Rightarrow> []
        | Some w \<Rightarrow> map (\<lambda>c. to_lower (text_field ''ctename'' c)) (List.map_filter (sub_field ''common_table_expr'') (subs_field ''ctes'' w))))"

definition range_occurrence :: "string list \<Rightarrow> syn \<Rightarrow> occurrence list" where
  "range_occurrence ctes rv =
     table_occurrence ctes (text_field ''schemaname'' rv) (text_field ''relname'' rv)
       (case sub_field ''alias'' rv of None \<Rightarrow> [] | Some x \<Rightarrow> text_field ''aliasname'' x)"

definition join_arms :: "syn \<Rightarrow> syn list" where
  "join_arms j = List.map_filter (\<lambda>k. sub_field k j) [''larg'', ''rarg'']"

lemma join_arms_size [termination_simp]: "x \<in> set (join_arms j) \<Longrightarrow> size x < size j"
  by (auto simp: join_arms_def List.map_filter_def split: if_splits dest: sub_field_size)

text \<open>The tables a FROM item names, and the number of its sources.\<close>

function collect :: "string list \<Rightarrow> syn \<Rightarrow> occurrence list \<times> nat" where
  "collect ctes node =
     (case sub_field ''range_var'' node of
        Some rv \<Rightarrow> (range_occurrence ctes rv, 1)
      | None \<Rightarrow>
     (case sub_field ''join_expr'' node of
        Some j \<Rightarrow> (let rs = map (collect ctes) (join_arms j) in (concat (map fst rs), sum_list (map snd rs)))
      | None \<Rightarrow>
     (case sub_field ''range_table_sample'' node of
        Some s \<Rightarrow> (case sub_field ''relation'' s of Some r \<Rightarrow> collect ctes r | None \<Rightarrow> ([], 0))
      | None \<Rightarrow>
          if sub_field ''range_subselect'' node \<noteq> None \<or> sub_field ''range_function'' node \<noteq> None \<or>
             sub_field ''range_table_func'' node \<noteq> None
          then ([], 1) else ([], 0))))"
  by pat_completeness auto
termination
  by (relation "measure (size \<circ> snd)") (auto dest!: sub_field_size join_arms_size intro: less_trans)

declare collect.simps [simp del]

definition pg_occurrences :: "syn \<Rightarrow> string list \<Rightarrow> occurrence list \<times> nat" where
  "pg_occurrences sel ctes =
     (let rs = map (collect ctes) (subs_field ''from_clause'' sel) in (concat (map fst rs), sum_list (map snd rs)))"

subsection \<open>Matching\<close>

definition qualifier_matches :: "string list \<Rightarrow> occurrence \<Rightarrow> bool" where
  "qualifier_matches q oc \<longleftrightarrow>
     (case rev q of
        [] \<Rightarrow> False
      | [a] \<Rightarrow> equal_fold a (oc_alias oc) \<or> equal_fold a (oc_table oc)
      | t # s # _ \<Rightarrow> equal_fold s (oc_schema oc) \<and> equal_fold t (oc_table oc))"

definition bind_occurrence :: "occurrence \<Rightarrow> nat \<Rightarrow> string list \<Rightarrow> string list option" where
  "bind_occurrence oc sources parts =
     (let c = to_lower (last parts) in
      if length parts = 1 then (if sources = 1 then Some [c] else None)
      else if qualifier_matches (butlast parts) oc then Some [c] else None)"

definition pg_atom :: "(syn \<Rightarrow> string) \<Rightarrow> nat \<Rightarrow> occurrence \<Rightarrow> syn \<Rightarrow> string option" where
  "pg_atom marshal sources oc a =
     (case normalize False (bind_occurrence oc sources) a of Inl _ \<Rightarrow> None | Inr (_, m) \<Rightarrow> Some (canonical marshal m))"

definition pg_query_atoms :: "(syn \<Rightarrow> string) \<Rightarrow> syn \<Rightarrow> nat \<Rightarrow> occurrence \<Rightarrow> string list" where
  "pg_query_atoms marshal w sources oc = List.map_filter (pg_atom marshal sources oc) (flatten_and w)"

definition pg_block :: "(syn \<Rightarrow> string) \<Rightarrow> compiled_policy list \<Rightarrow> nat \<Rightarrow> syn \<times> string list \<Rightarrow> predicate_match list" where
  "pg_block marshal ps n b =
     (case b of (sel, ctes) \<Rightarrow> case pg_occurrences sel ctes of (ocs, sources) \<Rightarrow>
       match_block ps n (map_option (\<lambda>w. pg_query_atoms marshal w sources) (pg_where sel)) ocs)"

definition match_pg ::
  "(string \<Rightarrow> string + syn) \<Rightarrow> (syn \<Rightarrow> string) \<Rightarrow> string \<Rightarrow> compiled_policy list \<Rightarrow> policy_error + predicate_match list" where
  "match_pg parse marshal sql ps =
     (case parse sql of
        Inl e \<Rightarrow> Inl (Parse_Error e)
      | Inr tree \<Rightarrow> bind_err (single_select tree) (\<lambda>_.
          Inr (concat (map (\<lambda>(n, b). pg_block marshal ps n b) (enumerate 1 (query_blocks pg_cte_names [] tree))))))"

end
