(* ===== verification/Predicate_My.thy ===== *)
theory Predicate_My
  imports Predicate_Core
begin

text \<open>
  Row predicates for MySQL and MariaDB (\<open>internal/dbconn/predicate_policy_mysql.go\<close>). A node's fields
  are the ones of TiDB's tree that the source reads, under their Go names, and its other children,
  in visiting order. The parser, with the flag for MariaDB, and \<open>Restore\<close>, with the flag that drops
  the qualifiers of names, are parameters.
\<close>

subsection \<open>Conjunctions and columns\<close>

function flatten_my :: "syn \<Rightarrow> syn list" where
  "flatten_my e =
     (if node_type e = ''ParenthesesExpr'' then (case sub_field ''Expr'' e of None \<Rightarrow> [] | Some x \<Rightarrow> flatten_my x)
      else if node_type e = ''BinaryOperationExpr'' \<and> text_field ''Op'' e = ''LogicAnd''
      then (case sub_field ''L'' e of None \<Rightarrow> [] | Some x \<Rightarrow> flatten_my x) @ (case sub_field ''R'' e of None \<Rightarrow> [] | Some x \<Rightarrow> flatten_my x)
      else [e])"
  by pat_completeness auto
termination
  by (relation "measure size") (auto dest: sub_field_size)

declare flatten_my.simps [simp del]

text \<open>\<open>mysqlColumnVisitor\<close>, which rejects subqueries in both of its uses; \<open>bind\<close> is its test of a column.\<close>

fun my_columns :: "(string \<Rightarrow> string \<Rightarrow> string \<Rightarrow> policy_error + string) \<Rightarrow> syn \<Rightarrow> policy_error + string list" and
  my_columns_fields :: "(string \<Rightarrow> string \<Rightarrow> string \<Rightarrow> policy_error + string) \<Rightarrow> (string \<times> syn_val) list \<Rightarrow> policy_error + string list" and
  my_columns_val :: "(string \<Rightarrow> string \<Rightarrow> string \<Rightarrow> policy_error + string) \<Rightarrow> syn_val \<Rightarrow> policy_error + string list" and
  my_columns_list :: "(string \<Rightarrow> string \<Rightarrow> string \<Rightarrow> policy_error + string) \<Rightarrow> syn list \<Rightarrow> policy_error + string list" where
  "my_columns bind (Syn ty fs) =
     (if ty = ''SubqueryExpr'' then Inl Subquery_In_Condition
      else if ty = ''ColumnNameExpr'' then
        (case sub_field ''Name'' (Syn ty fs) of
           None \<Rightarrow> Inl Bad_Column_Reference
         | Some n \<Rightarrow> bind_err (bind (text_field ''Schema'' n) (text_field ''Table'' n) (text_field ''Name'' n)) (\<lambda>c. Inr [c]))
      else my_columns_fields bind fs)"
| "my_columns_fields bind [] = Inr []"
| "my_columns_fields bind ((k, v) # fs) =
     bind_err (my_columns_val bind v) (\<lambda>cs. bind_err (my_columns_fields bind fs) (\<lambda>ds. Inr (cs @ ds)))"
| "my_columns_val bind (Sub m) = my_columns bind m"
| "my_columns_val bind (Subs ms) = my_columns_list bind ms"
| "my_columns_val bind (Text s) = Inr []"
| "my_columns_list bind [] = Inr []"
| "my_columns_list bind (m # ms) =
     bind_err (my_columns bind m) (\<lambda>cs. bind_err (my_columns_list bind ms) (\<lambda>ds. Inr (cs @ ds)))"

subsection \<open>Conditions\<close>

definition my_bind_allowed :: "string list \<Rightarrow> string \<Rightarrow> string \<Rightarrow> string \<Rightarrow> policy_error + string" where
  "my_bind_allowed allowed s t c = (if to_lower c \<in> set allowed then Inr (to_lower c) else Inl (Foreign_Column [c]))"

definition my_where :: "syn \<Rightarrow> syn option" where
  "my_where sel = sub_field ''Where'' sel"

definition my_condition_select :: "(bool \<Rightarrow> string \<Rightarrow> string + syn list) \<Rightarrow> string \<Rightarrow> bool \<Rightarrow> policy_error + syn" where
  "my_condition_select parse condition mariadb =
     (case parse mariadb (''SELECT 1 WHERE ('' @ condition @ '')'') of
        Inl e \<Rightarrow> Inl (Parse_Error e)
      | Inr stmts \<Rightarrow> (case stmts of
            [sel] \<Rightarrow> (case my_where sel of
                Some w \<Rightarrow> if node_type sel = ''SelectStmt'' then Inr w else Inl Where_Missing
              | None \<Rightarrow> Inl Where_Missing)
          | _ \<Rightarrow> Inl Not_One_Select))"

definition my_condition_atom ::
  "(bool \<Rightarrow> syn \<Rightarrow> string option) \<Rightarrow> string list \<Rightarrow> syn \<Rightarrow> policy_error + string list \<times> string" where
  "my_condition_atom restore allowed e =
     bind_err (my_columns (my_bind_allowed allowed) e) (\<lambda>cs.
       case restore True e of None \<Rightarrow> Inl Restore_Failed | Some k \<Rightarrow> Inr (cs, k))"

definition parse_my_condition ::
  "(bool \<Rightarrow> string \<Rightarrow> string + syn list) \<Rightarrow> (bool \<Rightarrow> syn \<Rightarrow> string option) \<Rightarrow> string \<Rightarrow> string list \<Rightarrow> bool \<Rightarrow>
     policy_error + string list \<times> string list \<times> syn" where
  "parse_my_condition parse restore condition allowed mariadb =
     bind_err (my_condition_select parse condition mariadb) (\<lambda>w.
     bind_err (mapM_err (my_condition_atom restore allowed) (flatten_my w)) (\<lambda>rs.
       let cs = concat (map fst rs) in if cs = [] then Inl No_Column_Used else Inr (remdups cs, map snd rs, w)))"

text \<open>\<open>mysqlAliasRenderVisitor\<close>: every column gets the alias and loses its schema.\<close>

fun my_alias :: "string \<Rightarrow> syn \<Rightarrow> syn" and
  my_alias_fields :: "string \<Rightarrow> (string \<times> syn_val) list \<Rightarrow> (string \<times> syn_val) list" and
  my_alias_val :: "string \<Rightarrow> syn_val \<Rightarrow> syn_val" and
  my_alias_list :: "string \<Rightarrow> syn list \<Rightarrow> syn list" where
  "my_alias alias (Syn ty fs) =
     (if ty = ''ColumnNameExpr'' then
        (case sub_field ''Name'' (Syn ty fs) of
           None \<Rightarrow> Syn ty fs
         | Some n \<Rightarrow> Syn ty (set_field ''Name'' (Sub (Syn (node_type n)
             [(''Schema'', Text []), (''Table'', Text alias), (''Name'', Text (text_field ''Name'' n))])) fs))
      else Syn ty (my_alias_fields alias fs))"
| "my_alias_fields alias [] = []"
| "my_alias_fields alias ((k, v) # fs) = (k, my_alias_val alias v) # my_alias_fields alias fs"
| "my_alias_val alias (Sub m) = Sub (my_alias alias m)"
| "my_alias_val alias (Subs ms) = Subs (my_alias_list alias ms)"
| "my_alias_val alias (Text s) = Text s"
| "my_alias_list alias [] = []"
| "my_alias_list alias (m # ms) = my_alias alias m # my_alias_list alias ms"

definition render_my_condition ::
  "(bool \<Rightarrow> string \<Rightarrow> string + syn list) \<Rightarrow> (bool \<Rightarrow> syn \<Rightarrow> string option) \<Rightarrow> string \<Rightarrow> string \<Rightarrow> bool \<Rightarrow> policy_error + string" where
  "render_my_condition parse restore raw alias mariadb =
     bind_err (my_condition_select parse raw mariadb) (\<lambda>w.
       case restore False (my_alias alias w) of None \<Rightarrow> Inl Restore_Failed | Some s \<Rightarrow> Inr s)"

subsection \<open>Query blocks and the tables they read\<close>

definition my_cte_names :: "syn \<Rightarrow> string list" where
  "my_cte_names m =
     (if node_type m \<notin> {''SetOprStmt'', ''SetOprSelectList'', ''SelectStmt''} then []
      else (case sub_field ''With'' m of
          None \<Rightarrow> []
        | Some w \<Rightarrow> map (\<lambda>c. to_lower (text_field ''Name'' c)) (subs_field ''CTEs'' w)))"

function collect_my :: "string list \<Rightarrow> syn \<Rightarrow> occurrence list \<times> nat" where
  "collect_my ctes node =
     (if node_type node = ''Join'' then
        (let rs = map (collect_my ctes) (List.map_filter (\<lambda>k. sub_field k node) [''Left'', ''Right'']) in
         (concat (map fst rs), sum_list (map snd rs)))
      else if node_type node = ''TableSource'' then
        ((case sub_as ''TableName'' ''Source'' node of
            None \<Rightarrow> []
          | Some t \<Rightarrow> table_occurrence ctes (text_field ''Schema'' t) (text_field ''Name'' t) (text_field ''AsName'' node)), 1)
      else if node_type node = ''TableName'' then
        (table_occurrence ctes (text_field ''Schema'' node) (text_field ''Name'' node) [], 1)
      else ([], 0))"
  by pat_completeness auto
termination
  by (relation "measure (size \<circ> snd)") (auto simp: List.map_filter_def split: if_splits dest: sub_field_size)

declare collect_my.simps [simp del]

definition my_occurrences :: "syn \<Rightarrow> string list \<Rightarrow> occurrence list \<times> nat" where
  "my_occurrences sel ctes =
     (case Option.bind (sub_field ''From'' sel) (sub_field ''TableRefs'') of None \<Rightarrow> ([], 0) | Some t \<Rightarrow> collect_my ctes t)"

subsection \<open>Matching\<close>

definition my_column_matches :: "string \<Rightarrow> string \<Rightarrow> occurrence \<Rightarrow> bool" where
  "my_column_matches s t oc \<longleftrightarrow>
     (if equal_fold t (oc_alias oc) then s = []
      else equal_fold t (oc_table oc) \<and> (s = [] \<or> equal_fold s (oc_schema oc)))"

definition my_bind_occurrence :: "occurrence \<Rightarrow> nat \<Rightarrow> string \<Rightarrow> string \<Rightarrow> string \<Rightarrow> policy_error + string" where
  "my_bind_occurrence oc sources s t c =
     (if t = [] then (if sources \<noteq> 1 then Inl (Foreign_Column [c]) else Inr (to_lower c))
      else if my_column_matches s t oc then Inr (to_lower c) else Inl (Foreign_Column [s, t, c]))"

definition my_atom :: "(bool \<Rightarrow> syn \<Rightarrow> string option) \<Rightarrow> nat \<Rightarrow> occurrence \<Rightarrow> syn \<Rightarrow> string option" where
  "my_atom restore sources oc e =
     (case my_columns (my_bind_occurrence oc sources) e of Inl _ \<Rightarrow> None | Inr _ \<Rightarrow> restore True e)"

definition my_query_atoms :: "(bool \<Rightarrow> syn \<Rightarrow> string option) \<Rightarrow> syn \<Rightarrow> nat \<Rightarrow> occurrence \<Rightarrow> string list" where
  "my_query_atoms restore w sources oc = List.map_filter (my_atom restore sources oc) (flatten_my w)"

definition my_block :: "(bool \<Rightarrow> syn \<Rightarrow> string option) \<Rightarrow> compiled_policy list \<Rightarrow> nat \<Rightarrow> syn \<times> string list \<Rightarrow> predicate_match list" where
  "my_block restore ps n b =
     (case b of (sel, ctes) \<Rightarrow> case my_occurrences sel ctes of (ocs, sources) \<Rightarrow>
       match_block ps n (map_option (\<lambda>w. my_query_atoms restore w sources) (my_where sel)) ocs)"

definition match_my ::
  "(bool \<Rightarrow> string \<Rightarrow> string + syn list) \<Rightarrow> (bool \<Rightarrow> syn \<Rightarrow> string option) \<Rightarrow> string \<Rightarrow> compiled_policy list \<Rightarrow> bool \<Rightarrow>
     policy_error + predicate_match list" where
  "match_my parse restore sql ps mariadb =
     (if contains_sub (to_upper sql) ''/*!'' \<or> contains_sub (to_upper sql) ''/*M!'' then Inl Executable_Comment
      else (case parse mariadb sql of
          Inl e \<Rightarrow> Inl (Parse_Error e)
        | Inr stmts \<Rightarrow> (case stmts of
              [st] \<Rightarrow> if node_type st \<notin> {''SelectStmt'', ''SetOprStmt''} then Inl Not_One_Select
                else Inr (concat (map (\<lambda>(n, b). my_block restore ps n b) (enumerate 1 (query_blocks my_cte_names [] st))))
            | _ \<Rightarrow> Inl Not_One_Select)))"

end
