(* ===== verification/Predicate_Policy.thy ===== *)
theory Predicate_Policy
  imports Predicate_Pg Predicate_My
begin

text \<open>
  Row predicates as the callers see them (\<open>internal/dbconn/predicate_policy.go\<close>): compiling a policy,
  matching a query against the compiled policies, printing a condition for an alias.

  The lemmas show what a PostgreSQL query without a missing predicate guarantees: every row that a
  block takes from the table satisfies the condition, as long as the names in the block mean what
  the matcher takes them to mean. Two examples show where they do not.
\<close>

subsection \<open>Entry points\<close>

text \<open>The parsers and printers of the two grammars.\<close>

record predicate_env =
  pe_pg_parse :: "string \<Rightarrow> string + syn"
  pe_marshal :: "syn \<Rightarrow> string"
  pe_deparse :: "syn \<Rightarrow> string + string"
  pe_my_parse :: "bool \<Rightarrow> string \<Rightarrow> string + syn list"
  pe_restore :: "bool \<Rightarrow> syn \<Rightarrow> string option"

definition parse_predicate_condition ::
  "predicate_env \<Rightarrow> string \<Rightarrow> string \<Rightarrow> string list \<Rightarrow> policy_error + policy_condition" where
  "parse_predicate_condition env dialect condition cols =
     (let d = to_lower (trim_space dialect); c = trim_space condition; allowed = allowed_columns cols in
      if c = [] then Inl Empty_Condition
      else if allowed = [] then Inl No_Allowed_Columns
      else bind_err
        (if d = ''postgres'' then parse_pg_condition (pe_pg_parse env) (pe_marshal env) c allowed
         else if d = ''mysql'' then parse_my_condition (pe_my_parse env) (pe_restore env) c allowed False
         else if d = ''mariadb'' then parse_my_condition (pe_my_parse env) (pe_restore env) c allowed True
         else Inl (Wrong_Dialect d))
        (\<lambda>(cs, atoms, tree). Inr \<lparr>pc_dialect = d, pc_raw = c, pc_allowed = allowed, pc_columns = sort cs,
           pc_atoms = sort atoms, pc_tree = tree\<rparr>))"

definition validate_predicate_condition :: "predicate_env \<Rightarrow> string \<Rightarrow> string \<Rightarrow> string list \<Rightarrow> policy_error option" where
  "validate_predicate_condition env dialect condition cols =
     (case parse_predicate_condition env dialect condition cols of Inl e \<Rightarrow> Some e | Inr _ \<Rightarrow> None)"

definition render_for_alias :: "predicate_env \<Rightarrow> policy_condition \<Rightarrow> string \<Rightarrow> policy_error + string" where
  "render_for_alias env c alias0 =
     (let alias = trim_space alias0; d = pc_dialect c in
      if alias = [] then Inl Empty_Alias
      else if d = ''postgres'' then render_pg_condition (pe_deparse env) (pc_tree c) alias
      else if d = ''mysql'' \<or> d = ''mariadb''
      then render_my_condition (pe_my_parse env) (pe_restore env) (pc_raw c) alias (d = ''mariadb'')
      else Inl (Wrong_Dialect d))"

definition render_condition_for_alias ::
  "predicate_env \<Rightarrow> string \<Rightarrow> string \<Rightarrow> string \<Rightarrow> string list \<Rightarrow> policy_error + string" where
  "render_condition_for_alias env dialect condition alias cols =
     bind_err (parse_predicate_condition env dialect condition cols) (\<lambda>c. render_for_alias env c alias)"

definition compile_policy :: "predicate_env \<Rightarrow> string \<Rightarrow> predicate_policy \<Rightarrow> policy_error + compiled_policy" where
  "compile_policy env dialect p =
     (case normalize_policy_table (pp_schema p) (pp_table p) of (schema, table) \<Rightarrow>
       if table = [] then Inl Empty_Table
       else bind_err (parse_predicate_condition env dialect (pp_condition p) (pp_columns p)) (\<lambda>c.
         Inr \<lparr>cp_id = pp_id p, cp_schema = schema, cp_table = table, cp_condition = c\<rparr>))"

definition match_required ::
  "predicate_env \<Rightarrow> string \<Rightarrow> string \<Rightarrow> compiled_policy list \<Rightarrow> policy_error + predicate_report" where
  "match_required env dialect sql ps =
     (let d = to_lower (trim_space dialect) in
      if \<exists>p \<in> set ps. pc_dialect (cp_condition p) \<noteq> d then Inl (Wrong_Dialect d)
      else bind_err
        (if d = ''postgres'' then match_pg (pe_pg_parse env) (pe_marshal env) sql ps
         else if d = ''mysql'' then match_my (pe_my_parse env) (pe_restore env) sql ps False
         else if d = ''mariadb'' then match_my (pe_my_parse env) (pe_restore env) sql ps True
         else Inl (Wrong_Dialect d))
        (\<lambda>ms. Inr \<lparr>rp_matches = ms, rp_missing = filter (\<lambda>x. \<not> pm_matched x) ms\<rparr>))"

definition validate_required ::
  "predicate_env \<Rightarrow> string \<Rightarrow> string \<Rightarrow> predicate_policy list \<Rightarrow> policy_error + predicate_report" where
  "validate_required env dialect sql ps =
     bind_err (mapM_err (compile_policy env dialect) ps) (match_required env dialect sql)"

subsection \<open>The meaning of a condition\<close>

text \<open>
  A database evaluates a condition with the values of the columns in the place of the references and
  without regard to the places in the text. \<open>plug\<close> puts the values in; what an expression without
  references is worth is left to a parameter.
\<close>

fun plug :: "(string list \<Rightarrow> string) \<Rightarrow> syn \<Rightarrow> syn" and
  plug_fields :: "(string list \<Rightarrow> string) \<Rightarrow> (string \<times> syn_val) list \<Rightarrow> (string \<times> syn_val) list" and
  plug_val :: "(string list \<Rightarrow> string) \<Rightarrow> syn_val \<Rightarrow> syn_val" and
  plug_list :: "(string list \<Rightarrow> string) \<Rightarrow> syn list \<Rightarrow> syn list" where
  "plug \<rho> (Syn ty fs) =
     (if ty = ''ColumnRef'' then
        (case column_parts (Syn ty fs) of None \<Rightarrow> Syn ty [] | Some parts \<Rightarrow> Syn ''Value'' [(''value'', Text (\<rho> parts))])
      else Syn ty (plug_fields \<rho> fs))"
| "plug_fields \<rho> [] = []"
| "plug_fields \<rho> ((k, v) # fs) = (if k \<in> set location_names then plug_fields \<rho> fs else (k, plug_val \<rho> v) # plug_fields \<rho> fs)"
| "plug_val \<rho> (Sub m) = Sub (plug \<rho> m)"
| "plug_val \<rho> (Subs ms) = Subs (plug_list \<rho> ms)"
| "plug_val \<rho> (Text s) = Text s"
| "plug_list \<rho> [] = []"
| "plug_list \<rho> (m # ms) = plug \<rho> m # plug_list \<rho> ms"

text \<open>Expressions without a subquery, for which this is the whole story.\<close>

fun plain_expr :: "syn \<Rightarrow> bool" and plain_fields :: "(string \<times> syn_val) list \<Rightarrow> bool" and
  plain_val :: "syn_val \<Rightarrow> bool" and plain_list :: "syn list \<Rightarrow> bool" where
  "plain_expr (Syn ty fs) \<longleftrightarrow> ty \<noteq> ''SubLink'' \<and> (ty \<noteq> ''ColumnRef'' \<longrightarrow> plain_fields fs)"
| "plain_fields [] \<longleftrightarrow> True"
| "plain_fields ((k, v) # fs) \<longleftrightarrow> (k \<notin> set location_names \<longrightarrow> plain_val v) \<and> plain_fields fs"
| "plain_val (Sub m) \<longleftrightarrow> plain_expr m"
| "plain_val (Subs ms) \<longleftrightarrow> plain_list ms"
| "plain_val (Text s) \<longleftrightarrow> True"
| "plain_list [] \<longleftrightarrow> True"
| "plain_list (m # ms) \<longleftrightarrow> plain_expr m \<and> plain_list ms"

text \<open>A conjunction is true when all its parts are.\<close>

definition where_true :: "(syn \<Rightarrow> bool) \<Rightarrow> (string list \<Rightarrow> string) \<Rightarrow> syn \<Rightarrow> bool" where
  "where_true sem \<rho> w \<longleftrightarrow> (\<forall>e \<in> set (flatten_and w). plain_expr e \<longrightarrow> sem (plug \<rho> e))"

definition bare :: "(string \<Rightarrow> string) \<Rightarrow> string list \<Rightarrow> string" where
  "bare row parts = row (to_lower (last parts))"

definition condition_true :: "(syn \<Rightarrow> bool) \<Rightarrow> (string \<Rightarrow> string) \<Rightarrow> policy_condition \<Rightarrow> bool" where
  "condition_true sem row c \<longleftrightarrow>
     (\<exists>sel w. single_select (pc_tree c) = Inr sel \<and> pg_where sel = Some w \<and>
       (\<forall>a \<in> set (flatten_and w). sem (plug (bare row) a)))"

text \<open>The names of the block mean the row of the table wherever the matcher takes them to.\<close>

definition names_row :: "occurrence \<Rightarrow> nat \<Rightarrow> (string list \<Rightarrow> string) \<Rightarrow> (string \<Rightarrow> string) \<Rightarrow> bool" where
  "names_row oc sources \<rho> row \<longleftrightarrow> (\<forall>parts. bind_occurrence oc sources parts \<noteq> None \<longrightarrow> \<rho> parts = row (to_lower (last parts)))"

lemma node_text_string [simp]: "s \<noteq> [] \<Longrightarrow> node_text (string_node s) = Some s"
  by (simp add: node_text_def string_node_def sub_field_def text_field_def)

lemma map_of_set_field: "map_of (set_field k v fs) k = (if map_of fs k = None then None else Some v)"
  by (induction fs) (auto simp: set_field_def)

lemma column_parts_iff: "column_parts cr = Some parts \<longleftrightarrow> parts \<noteq> [] \<and> map node_text (subs_field ''fields'' cr) = map Some parts"
proof -
  have "ts = map Some (map the ts)" if "None \<notin> set ts" for ts :: "string option list"
    using that by (induction ts) auto
  then have "None \<notin> set ts \<and> map the ts = ps \<longleftrightarrow> ts = map Some ps" for ts and ps :: "string list"
    by (auto simp: o_def)
  from this [of "map node_text (subs_field ''fields'' cr)" parts] show ?thesis
    by (auto simp: column_parts_def Let_def simp del: map_map)
qed

lemma column_parts_nonempty:
  assumes "column_parts cr = Some parts"
  shows "parts \<noteq> [] \<and> [] \<notin> set parts"
proof -
  have eq: "map node_text (subs_field ''fields'' cr) = map Some parts" "parts \<noteq> []" using assms by (simp_all add: column_parts_iff)
  have "Some [] \<notin> set (map node_text (subs_field ''fields'' cr))" by (auto simp: node_text_def split: option.splits if_splits)
  then show ?thesis using eq by auto
qed

lemma column_parts_bound:
  assumes "column_parts (Syn ty fs) = Some parts" "cs \<noteq> []" "[] \<notin> set cs"
  shows "column_parts (Syn ty (set_field ''fields'' (Subs (map string_node cs)) fs)) = Some cs"
proof -
  have "map_of fs ''fields'' \<noteq> None"
  proof
    assume "map_of fs ''fields'' = None"
    then have "subs_field ''fields'' (Syn ty fs) = []" by (simp add: subs_field_def)
    then show False using assms(1) by (simp add: column_parts_iff)
  qed
  then have "subs_field ''fields'' (Syn ty (set_field ''fields'' (Subs (map string_node cs)) fs)) = map string_node cs"
    by (auto simp: subs_field_def map_of_set_field)
  moreover have "map (node_text \<circ> string_node) cs = map Some cs"
    using assms(3) by (induction cs) auto
  ultimately show ?thesis using assms(2) by (simp add: column_parts_iff)
qed

lemma to_lower_Nil_iff [simp]: "to_lower s = [] \<longleftrightarrow> s = []" "[] = to_lower s \<longleftrightarrow> s = []"
  by (auto simp: to_lower_def)

text \<open>Rewriting the references does not change the values that are put in.\<close>

lemma plug_normalize:
  assumes "\<And>parts cs. bind parts = Some cs \<Longrightarrow> [] \<notin> set parts \<Longrightarrow> parts \<noteq> [] \<Longrightarrow> cs \<noteq> [] \<and> [] \<notin> set cs \<and> \<rho> parts = \<rho>' cs"
  shows "normalize rej bind m = Inr (ds, m') \<Longrightarrow> plug \<rho> m = plug \<rho>' m'"
    and "normalize_fields rej bind fs = Inr (ds, fs') \<Longrightarrow> plug_fields \<rho> fs = plug_fields \<rho>' fs'"
    and "normalize_val rej bind v = Inr (ds, v') \<Longrightarrow> plug_val \<rho> v = plug_val \<rho>' v'"
    and "normalize_list rej bind ms = Inr (ds, ms') \<Longrightarrow> plug_list \<rho> ms = plug_list \<rho>' ms'"
proof (induction m and fs and v and ms arbitrary: ds m' and ds fs' and ds v' and ds ms'
    rule: plain_expr_plain_fields_plain_val_plain_list.induct)
  case (1 ty fs)
  show ?case
  proof (cases "ty = ''ColumnRef''")
    case True
    obtain parts cs where b: "column_parts (Syn ty fs) = Some parts" "bind parts = Some cs"
      "m' = Syn ty (set_field ''fields'' (Subs (map string_node cs)) fs)"
      using 1(2) True by (auto split: if_splits option.splits)
    then have "cs \<noteq> [] \<and> [] \<notin> set cs \<and> \<rho> parts = \<rho>' cs"
      using assms column_parts_nonempty by blast
    then show ?thesis using b True column_parts_bound [OF b(1)] by simp
  next
    case False
    then show ?thesis using 1 by (auto simp: err_simps split: if_splits prod.splits)
  qed
qed (auto simp: err_simps split: prod.splits if_splits)

lemma plain_normalize:
  shows "normalize rej bind m = Inr (ds, m') \<Longrightarrow> plain_expr m' = plain_expr m \<and> (rej \<longrightarrow> plain_expr m)"
    and "normalize_fields rej bind fs = Inr (ds, fs') \<Longrightarrow> plain_fields fs' = plain_fields fs \<and> (rej \<longrightarrow> plain_fields fs)"
    and "normalize_val rej bind v = Inr (ds, v') \<Longrightarrow> plain_val v' = plain_val v \<and> (rej \<longrightarrow> plain_val v)"
    and "normalize_list rej bind ms = Inr (ds, ms') \<Longrightarrow> plain_list ms' = plain_list ms \<and> (rej \<longrightarrow> plain_list ms)"
proof (induction m and fs and v and ms arbitrary: ds m' and ds fs' and ds v' and ds ms'
    rule: plain_expr_plain_fields_plain_val_plain_list.induct)
  case (1 ty fs)
  then show ?case
    by (cases "ty = ''ColumnRef''") (auto simp: err_simps split: if_splits prod.splits option.splits)
qed (fastforce simp: err_simps split: prod.splits if_splits)+

text \<open>Dropping the locations changes neither.\<close>

lemma clear_fields_lookup: "k \<notin> set location_names \<Longrightarrow> map_of (clear_fields fs) k = map_option clear_val (map_of fs k)"
proof (induction fs)
  case (Cons kv fs)
  then show ?case by (cases kv) auto
qed simp

lemma clear_list_map: "clear_list ms = map clear_locations ms"
  by (induction ms) auto

lemma clear_lookups:
  assumes "k \<notin> set location_names"
  shows "sub_field k (clear_locations m) = map_option clear_locations (sub_field k m)"
    and "subs_field k (clear_locations m) = map clear_locations (subs_field k m)"
    and "text_field k (clear_locations m) = text_field k m"
  by (cases m; cases "map_of (node_fields m) k";
      auto simp: sub_field_def subs_field_def text_field_def clear_fields_lookup [OF assms] clear_list_map split: syn_val.splits)+

lemma column_parts_clear [simp]: "column_parts (clear_locations m) = column_parts m"
proof -
  have "node_text (clear_locations n) = node_text n" for n
    by (simp add: node_text_def clear_lookups location_names_def split: option.split)
  then show ?thesis by (simp add: column_parts_def clear_lookups location_names_def o_def)
qed

lemma clear_keeps:
  shows "plug \<rho> (clear_locations m) = plug \<rho> m \<and> plain_expr (clear_locations m) = plain_expr m"
    and "plug_fields \<rho> (clear_fields fs) = plug_fields \<rho> fs \<and> plain_fields (clear_fields fs) = plain_fields fs"
    and "plug_val \<rho> (clear_val v) = plug_val \<rho> v \<and> plain_val (clear_val v) = plain_val v"
    and "plug_list \<rho> (clear_list ms) = plug_list \<rho> ms \<and> plain_list (clear_list ms) = plain_list ms"
proof (induction m and fs and v and ms rule: plain_expr_plain_fields_plain_val_plain_list.induct)
  case (1 ty fs)
  have "column_parts (Syn t (clear_fields fs)) = column_parts (Syn t fs)" for t
    using column_parts_clear [of "Syn t fs"] by simp
  then show ?case using 1 by simp
qed auto

text \<open>A query's atom with the key of a condition's atom has no subquery and means the same for the row.\<close>

lemma same_key_same_meaning:
  assumes "inj marshal" and "names_row oc sources \<rho> row"
    and "pg_atom marshal sources oc e = Some k" and "condition_atom marshal allowed a = Inr (cs, k)"
  shows "plain_expr e \<and> plug \<rho> e = plug (bare row) a"
proof -
  obtain ds m where m: "normalize False (bind_occurrence oc sources) e = Inr (ds, m)" "k = canonical marshal m"
    using assms(3) by (auto simp: pg_atom_def split: sum.splits)
  obtain m' where m': "normalize True (bind_allowed allowed) a = Inr (cs, m')" "k = canonical marshal m'"
    using assms(4) by (auto simp: condition_atom_def err_simps split: prod.splits)
  have clear: "clear_locations m = clear_locations m'"
    using m(2) m'(2) assms(1) by (auto simp: canonical_def dest: injD)
  have lower: "to_lower (last parts) \<noteq> []" if "parts \<noteq> []" "[] \<notin> set parts" for parts
    using that last_in_set [of parts] by (metis to_lower_Nil_iff(1))
  have "plug \<rho> e = plug (bare row) m"
    by (rule plug_normalize(1) [OF _ m(1)])
       (use assms(2) lower in \<open>auto simp: names_row_def bare_def bind_occurrence_def Let_def split: if_splits\<close>)
  moreover have "plug (bare row) a = plug (bare row) m'"
    by (rule plug_normalize(1) [OF _ m'(1)])
       (use lower in \<open>auto simp: bare_def bind_allowed_def Let_def split: if_splits\<close>)
  moreover have "plug (bare row) m = plug (bare row) m'" "plain_expr m = plain_expr m'"
    using clear clear_keeps(1) by metis+
  ultimately show ?thesis
    using plain_normalize(1) [OF m(1)] plain_normalize(1) [OF m'(1)] by simp
qed

text \<open>The atoms of a compiled condition are the keys of the parts of its WHERE clause.\<close>

lemma mapM_err_mem: "mapM_err f xs = Inr ys \<Longrightarrow> x \<in> set xs \<Longrightarrow> \<exists>y \<in> set ys. f x = Inr y"
  by (induction xs arbitrary: ys) (auto simp: err_simps)

lemma compiled_atoms:
  assumes "compile_policy env ''postgres'' pol = Inr p"
  shows "pc_dialect (cp_condition p) = ''postgres'' \<and>
    (\<exists>sel w allowed. single_select (pc_tree (cp_condition p)) = Inr sel \<and> pg_where sel = Some w \<and>
      (\<forall>a \<in> set (flatten_and w). \<exists>cs k. condition_atom (pe_marshal env) allowed a = Inr (cs, k) \<and> k \<in> set (pc_atoms (cp_condition p))))"
proof -
  have d: "to_lower (trim_space ''postgres'') = ''postgres''" by code_simp
  let ?c = "cp_condition p" and ?allowed = "allowed_columns (pp_columns pol)"
  obtain cs atoms tree where c: "parse_pg_condition (pe_pg_parse env) (pe_marshal env) (trim_space (pp_condition pol)) ?allowed = Inr (cs, atoms, tree)"
    "pc_dialect ?c = ''postgres''" "pc_atoms ?c = sort atoms" "pc_tree ?c = tree"
    using assms by (auto simp: compile_policy_def parse_predicate_condition_def d err_simps Let_def split: prod.splits if_splits)
  from c(1) obtain sel w rs where w: "single_select tree = Inr sel" "pg_where sel = Some w"
    "mapM_err (condition_atom (pe_marshal env) ?allowed) (flatten_and w) = Inr rs" "atoms = map snd rs"
    by (auto simp: parse_pg_condition_def err_simps Let_def split: sum.splits option.splits if_splits)
  have "\<exists>cs k. condition_atom (pe_marshal env) ?allowed a = Inr (cs, k) \<and> k \<in> set (pc_atoms ?c)" if "a \<in> set (flatten_and w)" for a
    using mapM_err_mem [OF w(3) that] w(4) c(3) by force
  then show ?thesis using w(1,2) c(2,4) by blast
qed

lemma enforced_block:
  assumes "match_required env ''postgres'' sql ps = Inr rep" "rp_missing rep = []"
    and "pe_pg_parse env sql = Inr tree" "(sel, ctes) \<in> set (query_blocks pg_cte_names [] tree)"
    and "pg_occurrences sel ctes = (ocs, sources)" "oc \<in> set ocs" "p \<in> set ps" "policy_applies p oc"
  shows "\<exists>w. pg_where sel = Some w \<and> contains_all_atoms (pg_query_atoms (pe_marshal env) w sources oc) (pc_atoms (cp_condition p))"
proof -
  have d: "to_lower (trim_space ''postgres'') = ''postgres''" by code_simp
  let ?bs = "query_blocks pg_cte_names [] tree"
  have ms: "\<forall>x \<in> set (concat (map (\<lambda>(n, b). pg_block (pe_marshal env) ps n b) (enumerate 1 ?bs))). pm_matched x"
    using assms(1-3) by (auto simp: match_required_def match_pg_def d err_simps Let_def filter_empty_conv split: if_splits)
  obtain n where "\<forall>x \<in> set (pg_block (pe_marshal env) ps n (sel, ctes)). pm_matched x"
    using enumerated_block [OF ms assms(4)] by blast
  then have "\<exists>f. map_option (\<lambda>w. pg_query_atoms (pe_marshal env) w sources) (pg_where sel) = Some f \<and>
      contains_all_atoms (f oc) (pc_atoms (cp_condition p))"
    using assms(5-8) by (intro match_block_all) (auto simp: pg_block_def)
  then show ?thesis by auto
qed

text \<open>
  For MySQL and MariaDB likewise: every condition of the policy is printed the same as some conjunct of
  the block whose columns all belong to the occurrence.
\<close>

lemma enforced_my_block:
  assumes "match_my parse restore sql ps mariadb = Inr ms" "\<forall>x \<in> set ms. pm_matched x"
    and "parse mariadb sql = Inr [st]" "(sel, ctes) \<in> set (query_blocks my_cte_names [] st)"
    and "my_occurrences sel ctes = (ocs, sources)" "oc \<in> set ocs" "p \<in> set ps" "policy_applies p oc"
    and "k \<in> set (pc_atoms (cp_condition p))"
  shows "\<exists>w e cs. my_where sel = Some w \<and> e \<in> set (flatten_my w) \<and> my_columns (my_bind_occurrence oc sources) e = Inr cs \<and>
    restore True e = Some k"
proof -
  have "\<forall>x \<in> set (concat (map (\<lambda>(n, b). my_block restore ps n b) (enumerate 1 (query_blocks my_cte_names [] st)))). pm_matched x"
    using assms(1-3) by (auto simp: match_my_def split: if_splits)
  from enumerated_block [OF this assms(4)] obtain n where "\<forall>x \<in> set (my_block restore ps n (sel, ctes)). pm_matched x" by blast
  then have "\<exists>f. map_option (\<lambda>w. my_query_atoms restore w sources) (my_where sel) = Some f \<and>
      contains_all_atoms (f oc) (pc_atoms (cp_condition p))"
    using assms(5-8) by (intro match_block_all) (auto simp: my_block_def)
  then obtain w where w: "my_where sel = Some w" "contains_all_atoms (my_query_atoms restore w sources oc) (pc_atoms (cp_condition p))"
    by auto
  have "k \<in> set (my_query_atoms restore w sources oc)" by (rule contained_atoms_hold [OF w(2) _ assms(9)])
  then show ?thesis using w(1) by (auto simp: my_query_atoms_def List.map_filter_def my_atom_def split: sum.splits)
qed


subsection \<open>Examples\<close>

text \<open>An unambiguous encoding: texts carry their length, lists say whether they go on.\<close>

definition frame :: "string \<Rightarrow> string" where
  "frame s = replicate (length s) (CHR ''1'') @ CHR ''0'' # s"

fun encode :: "syn \<Rightarrow> string" and encode_fields :: "(string \<times> syn_val) list \<Rightarrow> string" and
  encode_val :: "syn_val \<Rightarrow> string" and encode_list :: "syn list \<Rightarrow> string" where
  "encode (Syn ty fs) = frame ty @ encode_fields fs"
| "encode_fields [] = ''0''"
| "encode_fields ((k, v) # fs) = CHR ''1'' # frame k @ encode_val v @ encode_fields fs"
| "encode_val (Sub m) = CHR ''m'' # encode m"
| "encode_val (Subs ms) = CHR ''l'' # encode_list ms"
| "encode_val (Text s) = CHR ''t'' # frame s"
| "encode_list [] = ''0''"
| "encode_list (m # ms) = CHR ''1'' # encode m @ encode_list ms"

lemma frame_unique: "frame s @ r = frame s' @ r' \<longleftrightarrow> s = s' \<and> r = r'"
proof -
  have "replicate n (CHR ''1'') @ CHR ''0'' # x = replicate m (CHR ''1'') @ CHR ''0'' # y \<Longrightarrow> n = m \<and> x = y" for n m x y
  proof (induction n arbitrary: m)
    case 0
    then show ?case by (cases m) auto
  next
    case (Suc n)
    then show ?case by (cases m) auto
  qed
  from this [of "length s" "s @ r" "length s'" "s' @ r'"] show ?thesis by (auto simp: frame_def)
qed

lemma encode_unique:
  shows "encode m @ r = encode m' @ r' \<Longrightarrow> m = m' \<and> r = r'"
    and "encode_fields fs @ r = encode_fields fs' @ r' \<Longrightarrow> fs = fs' \<and> r = r'"
    and "encode_val v @ r = encode_val v' @ r' \<Longrightarrow> v = v' \<and> r = r'"
    and "encode_list ms @ r = encode_list ms' @ r' \<Longrightarrow> ms = ms' \<and> r = r'"
proof (induction m and fs and v and ms arbitrary: m' r r' and fs' r r' and v' r r' and ms' r r'
    rule: encode_encode_fields_encode_val_encode_list.induct)
  case (1 ty fs)
  obtain ty' fs' where m': "m' = Syn ty' fs'" by (cases m')
  have "ty = ty'" "encode_fields fs @ r = encode_fields fs' @ r'" using 1(2) by (simp_all add: m' frame_unique)
  then show ?case using 1(1) m' by blast
next
  case 2
  then show ?case by (cases fs') auto
next
  case (3 k v fs)
  obtain k' v' gs where fs': "fs' = (k', v') # gs" using 3(3) by (cases fs') auto
  have "k = k'" and v: "encode_val v @ (encode_fields fs @ r) = encode_val v' @ (encode_fields gs @ r')"
    using 3(3) by (simp_all add: fs' frame_unique)
  then show ?case using 3(1) [OF v] 3(2) fs' by blast
next
  case (4 m)
  then obtain n where "v' = Sub n" by (cases v') auto
  then show ?case using 4(1) [of r n r'] 4(2) by simp
next
  case (5 ms)
  then obtain ns where "v' = Subs ns" by (cases v') auto
  then show ?case using 5(1) [of r ns r'] 5(2) by simp
next
  case (6 s)
  then show ?case by (cases v') (auto simp: frame_unique)
next
  case 7
  then show ?case by (cases ms') auto
next
  case (8 m ms)
  obtain n ns where ms': "ms' = n # ns" using 8(3) by (cases ms') auto
  have m: "encode m @ (encode_list ms @ r) = encode n @ (encode_list ns @ r')" using 8(3) by (simp add: ms')
  then show ?case using 8(1) [OF m] 8(2) ms' by blast
qed

lemma encode_inj: "inj encode"
  using encode_unique(1) [of _ "[]" _ "[]"] by (auto intro: injI)

text \<open>Columns, comparisons with a number, and queries, as the parser builds them.\<close>

definition column_node :: "string list \<Rightarrow> string \<Rightarrow> syn" where
  "column_node parts loc = Syn ''Node'' [(''column_ref'', Sub (Syn ''ColumnRef'' [(''fields'', Subs (map string_node parts)), (''location'', Text loc)]))]"

definition equals_one :: "syn \<Rightarrow> string \<Rightarrow> syn" where
  "equals_one l loc = Syn ''Node'' [(''a_expr'', Sub (Syn ''A_Expr''
     [(''name'', Subs [string_node ''='']), (''lexpr'', Sub l), (''rexpr'', Sub (Syn ''Node'' [(''a_const'', Sub (Syn ''A_Const'' [(''ival'', Text ''1'')]))])),
      (''location'', Text loc)]))]"

definition table_node :: "string \<Rightarrow> string \<Rightarrow> syn" where
  "table_node name alias = Syn ''Node'' [(''range_var'', Sub (Syn ''RangeVar''
     ((''relname'', Text name) # (if alias = [] then [] else [(''alias'', Sub (Syn ''Alias'' [(''aliasname'', Text alias)]))]))))]"

definition select_node :: "(string \<times> syn_val) list \<Rightarrow> syn" where
  "select_node fs = Syn ''Node'' [(''select_stmt'', Sub (Syn ''SelectStmt'' fs))]"

definition parse_tree :: "syn \<Rightarrow> syn" where
  "parse_tree sel = Syn ''ParseResult'' [(''stmts'', Subs [Syn ''RawStmt'' [(''stmt'', Sub sel)]])]"

definition secret_policy :: predicate_policy where
  "secret_policy = \<lparr>pp_id = ''p'', pp_schema = [], pp_table = ''secret'', pp_condition = ''tenant = 1'', pp_columns = [''tenant'']\<rparr>"

text \<open>An environment that reads the condition of the policy, and one query.\<close>

definition query_env :: "syn \<Rightarrow> predicate_env" where
  "query_env q = \<lparr>pe_pg_parse = (\<lambda>sql. Inr (parse_tree (if sql = ''SELECT 1 WHERE (tenant = 1)''
       then select_node [(''where_clause'', Sub (equals_one (column_node [''tenant''] ''16'') ''23''))] else q))),
     pe_marshal = encode, pe_deparse = (\<lambda>_. Inl []), pe_my_parse = (\<lambda>_ _. Inl []), pe_restore = (\<lambda>_ _. None)\<rparr>"

definition missing_in :: "syn \<Rightarrow> predicate_match list option" where
  "missing_in q = (case validate_required (query_env q) ''postgres'' ''q'' [secret_policy] of Inl _ \<Rightarrow> None | Inr r \<Rightarrow> Some (rp_missing r))"

definition compiled_secret :: compiled_policy where
  "compiled_secret = (case compile_policy (query_env (select_node [])) ''postgres'' secret_policy of Inr p \<Rightarrow> p)"

definition is_one :: "syn \<Rightarrow> bool" where
  "is_one e \<longleftrightarrow> e = plug (\<lambda>_. ''1'') (equals_one (column_node [''tenant''] []) [])"

text \<open>\<open>SELECT FROM secret t WHERE t.tenant = 1\<close>\<close>

definition scoped_query :: syn where
  "scoped_query = select_node [(''from_clause'', Subs [table_node ''secret'' ''t'']),
     (''where_clause'', Sub (equals_one (column_node [''t'', ''tenant''] ''27'') ''36''))]"

text \<open>\<open>SELECT FROM secret t, visitors secret WHERE secret.tenant = 1\<close>\<close>

definition shadowing_query :: syn where
  "shadowing_query = select_node [(''from_clause'', Subs [table_node ''secret'' ''t'', table_node ''visitors'' ''secret'']),
     (''where_clause'', Sub (equals_one (column_node [''secret'', ''tenant''] ''47'') ''61''))]"

text \<open>\<open>WITH secret AS (SELECT FROM secret) SELECT FROM secret\<close>\<close>

definition cte_query :: syn where
  "cte_query = select_node
     [(''from_clause'', Subs [table_node ''secret'' []]),
      (''with_clause'', Sub (Syn ''WithClause'' [(''ctes'', Subs [Syn ''Node'' [(''common_table_expr'', Sub (Syn ''CommonTableExpr''
         [(''ctename'', Text ''secret''), (''ctequery'', Sub (select_node [(''from_clause'', Subs [table_node ''secret'' []])]))]))]])]))]"

lemma policy_examples:
  "missing_in scoped_query = Some []"
  "map_option length (missing_in (select_node [(''from_clause'', Subs [table_node ''secret'' []])])) = Some 1"
  by code_simp+

lemma secret_condition:
  "condition_true sem row (cp_condition compiled_secret) \<longleftrightarrow> sem (plug (bare row) (equals_one (column_node [''tenant''] ''16'') ''23''))"
proof -
  let ?w = "equals_one (column_node [''tenant''] ''16'') ''23''"
  have "single_select (pc_tree (cp_condition compiled_secret)) = Inr (Syn ''SelectStmt'' [(''where_clause'', Sub ?w)])"
    "pg_where (Syn ''SelectStmt'' [(''where_clause'', Sub ?w)]) = Some ?w" "flatten_and ?w = [?w]"
    by code_simp+
  then show ?thesis by (simp add: condition_true_def)
qed

text \<open>
  Beside a source that is called like the table, a condition on that other source is taken for one on
  the table: nothing is missing, the WHERE clause is true for two rows, and the row of the table is
  another tenant's.
\<close>

lemma alias_named_like_table_counts:
  "missing_in shadowing_query = Some []"
  "where_true is_one (\<lambda>parts. if parts = [''secret'', ''tenant''] then ''1'' else ''2'')
     (equals_one (column_node [''secret'', ''tenant''] ''47'') ''61'')"
  "\<not> condition_true is_one (\<lambda>_. ''2'') (cp_condition compiled_secret)"
  by (code_simp, code_simp, unfold secret_condition, code_simp)

text \<open>A common table expression that is called like the table hides the table inside itself.\<close>

lemma cte_hides_policy_table: "missing_in cte_query = Some []"
  by code_simp

text \<open>The columns \<open>"Tenant"\<close> and \<open>tenant\<close>, which PostgreSQL tells apart, count as one.\<close>

lemma quoted_column_counts:
  "missing_in (select_node [(''from_clause'', Subs [table_node ''secret'' []]),
     (''where_clause'', Sub (equals_one (column_node [''Tenant''] []) []))]) = Some []"
  by code_simp


end
