(* ===== verification/Admin_Settings.thy ===== *)
theory Admin_Settings
  imports Profile_Access "HOL-Library.Multiset"
begin

text \<open>
  The settings an administrator changes while the server runs (\<open>internal/meta/settings.go\<close>, and of
  \<open>internal/mcp/authapi.go\<close> the routes \<open>/api/settings\<close>, \<open>EnableMeta\<close> and \<open>ApplySettings\<close>). A map of
  settings is a partial function, reading a missing key gives the empty string as in Go. The labels,
  groups and help texts of the settings and the fixed notes of the answers are left out. A request to
  change settings is the list of its keys and values in the order in which the runtime iterates over
  the decoded map (no key twice); a null is None.

  The lemmas show what an accepted change stores and puts in effect, whatever the order, that only an
  administrator's live credential changes anything, that deleting the stored settings brings the
  flags' values back, and that the answers show of a secret only whether it is set.
\<close>

subsection \<open>The settings\<close>

type_synonym settings = "string \<Rightarrow> string option"

definition set_admin_token :: string where "set_admin_token = ''admin_token''"
definition set_allow_origins :: string where "set_allow_origins = ''allow_origins''"
definition set_oidc_issuer :: string where "set_oidc_issuer = ''oidc_issuer''"
definition set_oidc_client :: string where "set_oidc_client = ''oidc_client_id''"
definition set_oidc_secret :: string where "set_oidc_secret = ''oidc_client_secret''"
definition set_oidc_redirect :: string where "set_oidc_redirect = ''oidc_redirect_url''"
definition set_cache_ttl :: string where "set_cache_ttl = ''cache_ttl_seconds''"

lemmas setting_names = set_admin_token_def set_allow_origins_def set_oidc_issuer_def set_oidc_client_def
  set_oidc_secret_def set_oidc_redirect_def set_cache_ttl_def

text \<open>Key and secrecy, in display order.\<close>

definition setting_defs :: "(string \<times> bool) list" where
  "setting_defs =
     [(set_admin_token, True), (set_allow_origins, False), (set_oidc_issuer, False), (set_oidc_client, False),
      (set_oidc_secret, True), (set_oidc_redirect, False), (set_cache_ttl, False)]"

definition is_known_setting :: "string \<Rightarrow> bool" where
  "is_known_setting k \<longleftrightarrow> list_ex (\<lambda>(d, _). d = k) setting_defs"

definition is_secret_setting :: "string \<Rightarrow> bool" where
  "is_secret_setting k = (case find (\<lambda>(d, _). d = k) setting_defs of None \<Rightarrow> False | Some (_, secret) \<Rightarrow> secret)"

text \<open>Six bullets in UTF-8 and \<open>(set)\<close>.\<close>

definition secret_mask :: string where
  "secret_mask = concat (replicate 6 [CHR 0xE2, CHR 0x80, CHR 0xA2]) @ ''(set)''"

definition mask_setting_value :: "string \<Rightarrow> string \<Rightarrow> string" where
  "mask_setting_value k v = (if v = [] then [] else if is_secret_setting k then secret_mask else v)"

definition sorted_setting_keys :: "string list" where
  "sorted_setting_keys = map fst setting_defs"

definition setting :: "settings \<Rightarrow> string \<Rightarrow> string" where
  "setting m k = (case m k of None \<Rightarrow> [] | Some v \<Rightarrow> v)"

definition blank :: "string \<Rightarrow> bool" where
  "blank v \<longleftrightarrow> trim_space v = []"

definition set_setting :: "string \<Rightarrow> string \<Rightarrow> settings \<Rightarrow> settings" where
  "set_setting k v m = m (k \<mapsto> v)"

definition delete_setting :: "string \<Rightarrow> settings \<Rightarrow> settings" where
  "delete_setting k m = m (k := None)"

text \<open>\<open>EffectiveSettings\<close>: a stored value that is not blank goes before the default.\<close>

definition effective_settings :: "settings \<Rightarrow> settings \<Rightarrow> settings" where
  "effective_settings defaults stored =
     defaults ++ (\<lambda>k. case stored k of None \<Rightarrow> None | Some v \<Rightarrow> if blank v then None else Some v)"

text \<open>Key, secrecy, shown value and whether one is set.\<close>

definition settings_view :: "settings \<Rightarrow> (string \<times> bool \<times> string \<times> bool) list" where
  "settings_view stored =
     map (\<lambda>(k, secret). (k, secret, mask_setting_value k (setting stored k), setting stored k \<noteq> [])) setting_defs"

datatype setting_error = Setting_Login auth_error | Setting_Admin_Only | Unknown_Setting string

definition apply_setting :: "string \<Rightarrow> string \<Rightarrow> settings \<Rightarrow> setting_error option \<times> settings" where
  "apply_setting k v m = (if is_known_setting k then (None, set_setting k v m) else (Some (Unknown_Setting k), m))"

subsection \<open>The running server\<close>

text \<open>The endpoints a provider publishes, once asked for, and the provider.\<close>

record discovery =
  di_authorization :: string
  di_token :: string
  di_userinfo :: string

record oidc_provider =
  oi_issuer :: string
  oi_client :: string
  oi_secret :: string
  oi_redirect :: string
  oi_found :: "discovery option"

text \<open>The tunable options, the provider and the cache of the server.\<close>

record running =
  rn_token :: string
  rn_origins :: "string list"
  rn_oidc :: "oidc_provider option"
  rn_cache :: result_cache

text \<open>
  The audit entries: the action and its subject; of a change of settings the set of its keys. The record \<open>control\<close> is what the administrators' routes work on.
\<close>

datatype api_event = Settings_Updated "string set" | Key_Event string string

record control =
  cs_accounts :: store
  cs_settings :: settings
  cs_boot :: settings
  cs_running :: running
  cs_audit :: "api_event list"

text \<open>\<open>strconv.Atoi\<close> on 64 bits.\<close>

definition atoi :: "string \<Rightarrow> int option" where
  "atoi s =
     (let neg = (case s of [] \<Rightarrow> False | c # _ \<Rightarrow> c = CHR ''-'');
          ds = (case s of [] \<Rightarrow> [] | c # r \<Rightarrow> if c = CHR ''-'' \<or> c = CHR ''+'' then r else s) in
      if ds = [] \<or> \<not> list_all is_digit ds then None
      else
        let n = foldl (\<lambda>a c. a * 10 + (int (of_char c) - 48)) 0 ds;
            v = (if neg then - n else n) in
        if - (2 ^ 63) \<le> v \<and> v < 2 ^ 63 then Some v else None)"

definition boot_defaults :: "string \<Rightarrow> string list \<Rightarrow> oidc_provider option \<Rightarrow> settings" where
  "boot_defaults token origins oidc =
     [set_admin_token \<mapsto> token, set_cache_ttl \<mapsto> show_int default_cache_ttl]
     ++ (if origins = [] then Map.empty else [set_allow_origins \<mapsto> join_with '','' origins])
     ++ (case oidc of
           None \<Rightarrow> Map.empty
         | Some p \<Rightarrow> [set_oidc_issuer \<mapsto> oi_issuer p, set_oidc_client \<mapsto> oi_client p,
               set_oidc_secret \<mapsto> oi_secret p, set_oidc_redirect \<mapsto> oi_redirect p])"

definition applied_origins :: "string \<Rightarrow> string list" where
  "applied_origins raw =
     (let v = trim_space raw in
      if v = [] then [] else filter (\<lambda>p. p \<noteq> []) (map trim_space (split_on CHR '','' v)))"

definition applied_oidc :: "settings \<Rightarrow> oidc_provider option" where
  "applied_oidc eff =
     (let iss = setting eff set_oidc_issuer; cid = setting eff set_oidc_client;
          sec = setting eff set_oidc_secret; red = setting eff set_oidc_redirect in
      if iss \<noteq> [] \<and> cid \<noteq> [] \<and> sec \<noteq> [] \<and> red \<noteq> []
      then Some \<lparr>oi_issuer = iss, oi_client = cid, oi_secret = sec, oi_redirect = red, oi_found = None\<rparr>
      else None)"

definition applied_cache :: "string \<Rightarrow> result_cache \<Rightarrow> result_cache" where
  "applied_cache raw rc =
     (let v = trim_space raw in
      if v = [] then set_ttl default_cache_ttl rc
      else (case atoi v of Some n \<Rightarrow> set_ttl n rc | None \<Rightarrow> rc))"

definition apply_settings :: "settings \<Rightarrow> settings \<Rightarrow> running \<Rightarrow> running" where
  "apply_settings boot stored r =
     (let eff = effective_settings boot stored in
      \<lparr>rn_token = setting eff set_admin_token,
       rn_origins = applied_origins (setting eff set_allow_origins),
       rn_oidc = applied_oidc eff,
       rn_cache = applied_cache (setting eff set_cache_ttl) (rn_cache r)\<rparr>)"

text \<open>A start with the flags' options: \<open>EnableMeta\<close>, then \<open>ApplySettings\<close>.\<close>

definition enable_meta :: "string \<Rightarrow> string list \<Rightarrow> oidc_provider option \<Rightarrow> store \<Rightarrow> settings \<Rightarrow> control" where
  "enable_meta token origins oidc accounts stored =
     \<lparr>cs_accounts = accounts, cs_settings = stored, cs_boot = boot_defaults token origins oidc,
      cs_running = \<lparr>rn_token = token, rn_origins = origins, rn_oidc = oidc, rn_cache = new_result_cache\<rparr>,
      cs_audit = []\<rparr>"

definition start_control :: "string \<Rightarrow> string list \<Rightarrow> oidc_provider option \<Rightarrow> store \<Rightarrow> settings \<Rightarrow> control" where
  "start_control token origins oidc accounts stored =
     (let c = enable_meta token origins oidc accounts stored in
      c \<lparr>cs_running := apply_settings (cs_boot c) (cs_settings c) (cs_running c)\<rparr>)"

subsection \<open>The routes\<close>

text \<open>Resolving a request in the running server, with the master token in effect.\<close>

definition control_actor :: "(string \<Rightarrow> string) \<Rightarrow> int \<Rightarrow> credentials \<Rightarrow> control \<Rightarrow> (auth_error + account) \<times> control" where
  "control_actor hash now cr c =
     (case resolve_request hash now (rn_token (cs_running c)) cr (cs_accounts c) of
        (x, accounts) \<Rightarrow> (x, c \<lparr>cs_accounts := accounts\<rparr>))"

definition require_admin :: "(string \<Rightarrow> string) \<Rightarrow> int \<Rightarrow> credentials \<Rightarrow> control \<Rightarrow> setting_error option \<times> control" where
  "require_admin hash now cr c =
     (case control_actor hash now cr c of
        (Inl e, c') \<Rightarrow> (Some (Setting_Login e), c')
      | (Inr u, c') \<Rightarrow> (if is_admin u then None else Some Setting_Admin_Only, c'))"

type_synonym settings_answer = "(string \<times> bool \<times> string \<times> bool) list \<times> bool"

definition shown :: "control \<Rightarrow> settings_answer" where
  "shown c = (settings_view (cs_settings c), rn_oidc (cs_running c) \<noteq> None)"

definition get_settings :: "(string \<Rightarrow> string) \<Rightarrow> int \<Rightarrow> credentials \<Rightarrow> control \<Rightarrow> (setting_error + settings_answer) \<times> control" where
  "get_settings hash now cr c =
     (case require_admin hash now cr c of
        (Some e, c') \<Rightarrow> (Inl e, c')
      | (None, c') \<Rightarrow> (Inr (shown c'), c'))"

text \<open>The loop over the request; an unknown key ends it, what was stored before stays.\<close>

fun store_settings :: "(string \<times> string option) list \<Rightarrow> settings \<Rightarrow> setting_error option \<times> settings" where
  "store_settings [] m = (None, m)"
| "store_settings ((k, None) # req) m = store_settings req (delete_setting k m)"
| "store_settings ((k, Some v) # req) m =
     (case apply_setting k v m of
        (Some e, m') \<Rightarrow> (Some e, m')
      | (None, m') \<Rightarrow> store_settings req m')"

text \<open>The handler resolves the request a second time for the name that is stored with a setting.\<close>

definition put_settings :: "(string \<Rightarrow> string) \<Rightarrow> int \<Rightarrow> credentials \<Rightarrow> (string \<times> string option) list \<Rightarrow> control \<Rightarrow>
    (setting_error + settings_answer) \<times> control" where
  "put_settings hash now cr req c =
     (case require_admin hash now cr c of
        (Some e, c1) \<Rightarrow> (Inl e, c1)
      | (None, c1) \<Rightarrow>
          let c2 = snd (control_actor hash now cr c1) in
          (case store_settings req (cs_settings c2) of
             (Some e, m) \<Rightarrow> (Inl e, c2 \<lparr>cs_settings := m\<rparr>)
           | (None, m) \<Rightarrow>
               let c3 = c2 \<lparr>cs_settings := m, cs_running := apply_settings (cs_boot c2) m (cs_running c2),
                     cs_audit := cs_audit c2 @ [Settings_Updated (set (map fst req))]\<rparr> in
               (Inr (shown c3), c3)))"

subsection \<open>What a change stores\<close>

definition all_known :: "(string \<times> string option) list \<Rightarrow> bool" where
  "all_known req \<longleftrightarrow> (\<forall>(k, v) \<in> set req. v = None \<or> is_known_setting k)"

definition requested :: "(string \<times> string option) list \<Rightarrow> settings \<Rightarrow> settings" where
  "requested req m = (\<lambda>k. case map_of req k of None \<Rightarrow> m k | Some v \<Rightarrow> v)"

lemma requested_Cons: "map_of req k = None \<Longrightarrow> requested ((k, v) # req) m = requested req (m(k := v))"
  by (auto simp: requested_def fun_eq_iff split: option.split)

lemma all_known_Cons: "all_known ((k, v) # req) \<longleftrightarrow> (v = None \<or> is_known_setting k) \<and> all_known req"
  by (simp add: all_known_def)

lemma store_settings_known:
  "all_known req \<Longrightarrow> distinct (map fst req) \<Longrightarrow> store_settings req m = (None, requested req m)"
proof (induction req m rule: store_settings.induct)
  case (1 m)
  then show ?case by (simp add: requested_def)
next
  case (2 k req m)
  then have "map_of req k = None" "store_settings req (delete_setting k m) = (None, requested req (delete_setting k m))"
    by (simp_all add: map_of_eq_None_iff all_known_Cons del: fun_upd_apply)
  then show ?case
    by (simp add: requested_Cons flip: delete_setting_def)
next
  case (3 k v req m)
  then have "map_of req k = None" "apply_setting k v m = (None, set_setting k v m)"
    by (simp_all add: map_of_eq_None_iff all_known_Cons apply_setting_def)
  moreover from this 3 have "store_settings req (set_setting k v m) = (None, requested req (set_setting k v m))"
    by (simp add: all_known_Cons)
  ultimately show ?case
    by (simp add: requested_Cons flip: set_setting_def)
qed

lemma store_settings_unknown_same:
  "\<not> all_known req \<Longrightarrow> \<exists>k. \<forall>m. \<exists>m'. store_settings req m = (Some (Unknown_Setting k), m')"
proof (induction req)
  case (Cons kv req)
  obtain k v where kv: "kv = (k, v)" by fastforce
  show ?case
  proof (cases "v = None \<or> is_known_setting k")
    case True
    then show ?thesis
      using Cons by (cases v) (auto simp: kv all_known_Cons apply_setting_def)
  next
    case False
    then show ?thesis
      by (auto simp: kv apply_setting_def)
  qed
qed (simp add: all_known_def)

lemma store_settings_None:
  assumes "store_settings req m = (None, m')" "distinct (map fst req)"
  shows "all_known req" "m' = requested req m"
proof -
  show "all_known req"
    using store_settings_unknown_same [of req] assms(1) by (metis option.distinct(1) prod.inject)
  then show "m' = requested req m"
    using store_settings_known [of req m] assms by simp
qed

lemma permuted_request:
  assumes "mset req' = mset req" "distinct (map fst req)"
  shows "distinct (map fst req')" "all_known req' = all_known req" "requested req' m = requested req m"
    and "set (map fst req') = set (map fst req)"
proof -
  have s: "set req' = set req"
    using assms(1) by (rule mset_eq_setD)
  have "mset (map fst req') = mset (map fst req)"
    using assms(1) by simp
  then show d: "distinct (map fst req')"
    using assms(2) mset_eq_imp_distinct_iff by blast
  have "map_of req' = map_of req"
    using d assms(2) s by (intro map_of_inject_set [THEN iffD2])
  then show "requested req' m = requested req m"
    by (simp add: requested_def)
  show "all_known req' = all_known req" "set (map fst req') = set (map fst req)"
    by (simp_all add: all_known_def s)
qed

subsection \<open>What is in effect\<close>

text \<open>The documented precedence: a stored value that is not blank, then the flag's.\<close>

definition in_effect :: "settings \<Rightarrow> settings \<Rightarrow> string \<Rightarrow> string" where
  "in_effect boot stored k = (if blank (setting stored k) then setting boot k else setting stored k)"

lemma blank_Nil [simp]: "blank []"
  by (simp add: blank_def)

lemma effective_in_effect: "setting (effective_settings boot stored) k = in_effect boot stored k"
  by (auto simp: in_effect_def effective_settings_def setting_def map_add_def split: option.splits)

lemma control_actor_frame:
  assumes "control_actor hash now cr c = (x, c')"
  shows "cs_settings c' = cs_settings c" "cs_boot c' = cs_boot c" "cs_running c' = cs_running c" "cs_audit c' = cs_audit c"
  using assms by (auto simp: control_actor_def split: prod.splits)

lemma require_admin_frame:
  assumes "require_admin hash now cr c = (e, c')"
  shows "cs_settings c' = cs_settings c" "cs_boot c' = cs_boot c" "cs_running c' = cs_running c" "cs_audit c' = cs_audit c"
  using assms by (auto simp: require_admin_def dest: control_actor_frame split: prod.splits sum.splits)

definition live_actor :: "(string \<Rightarrow> string) \<Rightarrow> int \<Rightarrow> credentials \<Rightarrow> control \<Rightarrow> account \<Rightarrow> bool" where
  "live_actor hash now cr c u = live_credential hash now (rn_token (cs_running c)) cr (cs_accounts c) u"

lemma control_actor_live: "control_actor hash now cr c = (Inr u, c') \<Longrightarrow> live_actor hash now cr c u"
  using resolve_request_live [of hash now "rn_token (cs_running c)" cr "cs_accounts c" u]
  by (auto simp: control_actor_def live_actor_def split: prod.splits)

lemma require_admin_live:
  "require_admin hash now cr c = (None, c') \<Longrightarrow> \<exists>u. live_actor hash now cr c u \<and> is_admin u"
  by (auto simp: require_admin_def dest: control_actor_live split: prod.splits sum.splits if_splits)

text \<open>The three ways a request to change settings ends.\<close>

lemma put_settings_cases:
  assumes "put_settings hash now cr req c = (x, c')"
  obtains (refused) e where "require_admin hash now cr c = (Some e, c')" "x = Inl e"
  | (unknown) e c1 c2 m where "require_admin hash now cr c = (None, c1)" "c2 = snd (control_actor hash now cr c1)"
      "store_settings req (cs_settings c) = (Some e, m)" "x = Inl e" "c' = c2 \<lparr>cs_settings := m\<rparr>"
  | (accepted) c1 c2 m where "require_admin hash now cr c = (None, c1)" "c2 = snd (control_actor hash now cr c1)"
      "store_settings req (cs_settings c) = (None, m)" "x = Inr (shown c')"
      "c' = c2 \<lparr>cs_settings := m, cs_running := apply_settings (cs_boot c) m (cs_running c),
         cs_audit := cs_audit c @ [Settings_Updated (set (map fst req))]\<rparr>"
proof -
  obtain e c1 where r: "require_admin hash now cr c = (e, c1)" by fastforce
  obtain y c2 where a: "control_actor hash now cr c1 = (y, c2)" by fastforce
  obtain e' m where s: "store_settings req (cs_settings c) = (e', m)" by fastforce
  note frame = require_admin_frame [OF r] control_actor_frame [OF a]
  have c': "c' = (case e of Some _ \<Rightarrow> c1 | None \<Rightarrow> (case e' of Some _ \<Rightarrow> c2 \<lparr>cs_settings := m\<rparr>
      | None \<Rightarrow> c2 \<lparr>cs_settings := m, cs_running := apply_settings (cs_boot c) m (cs_running c),
         cs_audit := cs_audit c @ [Settings_Updated (set (map fst req))]\<rparr>))"
    and x: "x = (case e of Some e1 \<Rightarrow> Inl e1 | None \<Rightarrow> (case e' of Some e1 \<Rightarrow> Inl e1 | None \<Rightarrow> Inr (shown c')))"
    using assms frame by (auto simp: put_settings_def r a s Let_def split: option.splits)
  show ?thesis
  proof (cases e)
    case (Some e1)
    then show ?thesis
      using refused r c' x by simp
  next
    case e: None
    show ?thesis
    proof (cases e')
      case None
      show ?thesis
        by (rule accepted [of c1 c2 m]) (use r a s c' x e None in simp_all)
    next
      case (Some e1)
      show ?thesis
        by (rule unknown [of c1 c2 e1 m]) (use r a s c' x e Some in simp_all)
    qed
  qed
qed


subsection \<open>Back to the flags\<close>

text \<open>Steps of the server: requests for the settings, and whatever happens to the accounts and the cache.\<close>

inductive control_step :: "(string \<Rightarrow> string) \<Rightarrow> control \<Rightarrow> control \<Rightarrow> bool" for hash where
  Show_Settings: "control_step hash c (snd (get_settings hash now cr c))"
| Change_Settings: "control_step hash c (snd (put_settings hash now cr req c))"
| Other_Accounts: "control_step hash c (c \<lparr>cs_accounts := accounts\<rparr>)"
| Other_Cache: "control_step hash c (c \<lparr>cs_running := cs_running c \<lparr>rn_cache := rc\<rparr>\<rparr>)"

lemma control_step_boot: "control_step hash c c' \<Longrightarrow> cs_boot c' = cs_boot c"
proof (induction rule: control_step.cases)
  case (Show_Settings c now cr)
  then show ?case
    by (auto simp: get_settings_def dest: require_admin_frame split: prod.splits option.splits)
next
  case (Change_Settings c now cr req)
  obtain x c1 where p: "put_settings hash now cr req c = (x, c1)" by fastforce
  have "cs_boot (snd (control_actor hash now cr d)) = cs_boot d" for d
    using control_actor_frame [of hash now cr d] by (metis prod.collapse)
  then show ?case
    using Change_Settings p by (cases rule: put_settings_cases [OF p]) (auto dest: require_admin_frame)
qed simp_all

lemma control_run_boot: "(control_step hash)\<^sup>*\<^sup>* c c' \<Longrightarrow> cs_boot c' = cs_boot c"
  by (induction rule: rtranclp_induct) (simp_all add: control_step_boot)

text \<open>The origins of \<open>splitCSV\<close>: trimmed, not empty and without commas. They survive joining and applying.\<close>

definition flag_origins :: "string list \<Rightarrow> bool" where
  "flag_origins os \<longleftrightarrow> (\<forall>w \<in> set os. w \<noteq> [] \<and> trim_space w = w \<and> CHR '','' \<notin> set w)"

lemma applied_flag_origins:
  assumes "flag_origins os"
  shows "applied_origins (join_with '','' os) = os"
proof (cases "os = []")
  case False
  then have trim: "trim_space (join_with '','' os) = join_with '','' os"
    using assms by (intro trim_space_join) (simp_all add: flag_origins_def space_runes_def)
  have split: "split_on CHR '','' (join_with '','' os) = os"
    using assms False by (intro split_join_parts) (auto simp: flag_origins_def)
  then have "join_with '','' os \<noteq> []"
    using assms False by (cases os) (auto simp: flag_origins_def)
  moreover have "map trim_space os = os" "filter (\<lambda>p. p \<noteq> []) os = os"
    using assms by (auto simp: flag_origins_def intro!: map_idI filter_True)
  ultimately show ?thesis
    by (simp add: applied_origins_def trim split)
qed (simp add: applied_origins_def)

definition complete_provider :: "oidc_provider \<Rightarrow> bool" where
  "complete_provider p \<longleftrightarrow> oi_issuer p \<noteq> [] \<and> oi_client p \<noteq> [] \<and> oi_secret p \<noteq> [] \<and> oi_redirect p \<noteq> [] \<and> oi_found p = None"

lemma setting_names_distinct: "distinct (map fst setting_defs)"
  by code_simp

lemma atoi_default: "atoi (trim_space (show_int default_cache_ttl)) = Some default_cache_ttl" "trim_space (show_int default_cache_ttl) \<noteq> []"
  by code_simp+

lemma boot_values:
  "setting (boot_defaults t os oidc) set_admin_token = t"
  "setting (boot_defaults t os oidc) set_cache_ttl = show_int default_cache_ttl"
  "setting (boot_defaults t os oidc) set_allow_origins = join_with '','' os"
  "setting (boot_defaults t os oidc) set_oidc_issuer = (case oidc of None \<Rightarrow> [] | Some p \<Rightarrow> oi_issuer p)"
  "setting (boot_defaults t os oidc) set_oidc_client = (case oidc of None \<Rightarrow> [] | Some p \<Rightarrow> oi_client p)"
  "setting (boot_defaults t os oidc) set_oidc_secret = (case oidc of None \<Rightarrow> [] | Some p \<Rightarrow> oi_secret p)"
  "setting (boot_defaults t os oidc) set_oidc_redirect = (case oidc of None \<Rightarrow> [] | Some p \<Rightarrow> oi_redirect p)"
  by (simp_all add: boot_defaults_def setting_def setting_names map_add_def split: option.split)

lemma apply_to_nothing_stored:
  assumes "flag_origins os" "\<And>p. oidc = Some p \<Longrightarrow> complete_provider p"
  shows "apply_settings (boot_defaults t os oidc) Map.empty r =
    \<lparr>rn_token = t, rn_origins = os, rn_oidc = oidc, rn_cache = rn_cache r \<lparr>rc_ttl := default_cache_ttl\<rparr>\<rparr>"
proof -
  have flags: "in_effect b Map.empty k = setting b k" for b k
    by (simp add: in_effect_def setting_def)
  have "applied_cache (show_int default_cache_ttl) (rn_cache r) = set_ttl default_cache_ttl (rn_cache r)"
    by (simp add: applied_cache_def atoi_default)
  then show ?thesis
    using assms(2)
    by (cases oidc) (simp_all add: apply_settings_def effective_in_effect flags boot_values applied_flag_origins [OF assms(1)]
        applied_oidc_def complete_provider_def set_ttl_def default_cache_ttl_def)
qed

text \<open>
  C26. Whatever administrators changed since the start, also with requests that failed halfway, an
  accepted request that deletes every stored setting leaves nothing stored and brings the master
  token, the allowed origins, the provider and the cache's lifetime back to those of the flags.
\<close>

theorem deleted_settings_restore_flags:
  assumes "flag_origins os" "\<And>p. oidc = Some p \<Longrightarrow> complete_provider p"
    and "(control_step hash)\<^sup>*\<^sup>* (start_control token os oidc accounts stored) c"
    and "put_settings hash now cr req c = (Inr a, c')" "distinct (map fst req)"
    and "\<forall>(k, v) \<in> set req. v = None" "dom (cs_settings c) \<subseteq> fst ` set req"
  shows "cs_settings c' = Map.empty \<and>
    cs_running c' = \<lparr>rn_token = token, rn_origins = os, rn_oidc = oidc, rn_cache = rn_cache (cs_running c) \<lparr>rc_ttl := 60\<rparr>\<rparr>"
  using assms(4)
proof (cases rule: put_settings_cases)
  case (accepted c1 c2 m)
  have "requested req (cs_settings c) k = None" for k
  proof (cases "map_of req k")
    case None
    then have "k \<notin> dom (cs_settings c)"
      using assms(7) by (auto simp: map_of_eq_None_iff)
    with None show ?thesis
      by (simp add: requested_def domIff)
  next
    case (Some v)
    then show ?thesis
      using assms(6) map_of_SomeD [OF Some] by (auto simp: requested_def)
  qed
  then have "m = Map.empty"
    using store_settings_None [OF accepted(3) assms(5)] by auto
  moreover have "cs_boot c = boot_defaults token os oidc"
    using control_run_boot [OF assms(3)] by (simp add: start_control_def enable_meta_def Let_def)
  ultimately show ?thesis
    using accepted apply_to_nothing_stored [OF assms(1,2)] by (simp add: default_cache_ttl_def)
qed simp_all

subsection \<open>What the answers show of a secret\<close>

definition same_shape :: "string \<Rightarrow> string \<Rightarrow> bool" where
  "same_shape v w \<longleftrightarrow> (v = [] \<longleftrightarrow> w = []) \<and> (blank v \<longleftrightarrow> blank w)"

text \<open>Two stores of settings that differ in secret values only, not in which are set or blank.\<close>

definition secrets_alike :: "settings \<Rightarrow> settings \<Rightarrow> bool" where
  "secrets_alike m m' \<longleftrightarrow>
     (\<forall>k. if is_secret_setting k then same_shape (setting m k) (setting m' k) else setting m k = setting m' k)"

lemma same_shape_refl [simp]: "same_shape v v"
  by (simp add: same_shape_def)

lemma secrets_alike_view:
  assumes "secrets_alike m m'"
  shows "settings_view m = settings_view m'"
proof -
  have "mask_setting_value k (setting m k) = mask_setting_value k (setting m' k) \<and> (setting m k = [] \<longleftrightarrow> setting m' k = [])" for k
    using assms [unfolded secrets_alike_def, rule_format, of k]
    by (auto simp: mask_setting_value_def same_shape_def split: if_splits)
  then show ?thesis
    by (simp add: settings_view_def)
qed

lemma setting_requested:
  "setting (requested req m) k = (case map_of req k of None \<Rightarrow> setting m k | Some v \<Rightarrow> (case v of None \<Rightarrow> [] | Some w \<Rightarrow> w))"
  by (simp add: setting_def requested_def split: option.split)

lemma secrets_alike_requested: "secrets_alike m m' \<Longrightarrow> secrets_alike (requested req m) (requested req m')"
  by (simp add: secrets_alike_def setting_requested split: option.split)

lemma in_effect_alike: "secrets_alike m m' \<Longrightarrow> in_effect b m k = [] \<longleftrightarrow> in_effect b m' k = []"
  by (drule secrets_alike_def [THEN iffD1, THEN spec [of _ k]])
     (auto simp: in_effect_def same_shape_def split: if_splits)

lemma applied_oidc_alike:
  assumes "secrets_alike m m'"
  shows "applied_oidc (effective_settings b m) = None \<longleftrightarrow> applied_oidc (effective_settings b m') = None"
  using in_effect_alike [OF assms, of b]
  by (simp add: applied_oidc_def effective_in_effect Let_def)

text \<open>Consoles that a request without the master token cannot tell apart but by the secrets.\<close>

definition controls_alike :: "credentials \<Rightarrow> control \<Rightarrow> control \<Rightarrow> bool" where
  "controls_alike cr c d \<longleftrightarrow>
     secrets_alike (cs_settings c) (cs_settings d) \<and> cs_accounts c = cs_accounts d \<and> cs_boot c = cs_boot d \<and>
     \<not> master_token_given (rn_token (cs_running c)) cr \<and> \<not> master_token_given (rn_token (cs_running d)) cr \<and>
     (rn_oidc (cs_running c) = None \<longleftrightarrow> rn_oidc (cs_running d) = None)"

lemma control_actor_alike:
  assumes "controls_alike cr c d"
  shows "fst (control_actor hash now cr c) = fst (control_actor hash now cr d)"
    and "controls_alike cr (snd (control_actor hash now cr c)) (snd (control_actor hash now cr d))"
  using assms by (auto simp: control_actor_def controls_alike_def resolve_request_def split: prod.splits)

lemma require_admin_alike:
  assumes "controls_alike cr c d"
  shows "fst (require_admin hash now cr c) = fst (require_admin hash now cr d)"
    and "controls_alike cr (snd (require_admin hash now cr c)) (snd (require_admin hash now cr d))"
  using control_actor_alike [OF assms, of hash now]
  by (auto simp: require_admin_def split: prod.splits sum.splits)

lemma shown_alike: "controls_alike cr c d \<Longrightarrow> shown c = shown d"
  by (auto simp: shown_def controls_alike_def secrets_alike_view)

text \<open>
  C13. The answers of the settings routes show of the master token and of the provider's client
  secret only whether they are set (and not blank): with other secrets the same request, unless it
  presents the master token, gets the same answer, reading or changing the settings.
\<close>

theorem secret_settings_hidden:
  assumes "controls_alike cr c d" "distinct (map fst req)"
  shows "fst (get_settings hash now cr c) = fst (get_settings hash now cr d) \<and>
    fst (put_settings hash now cr req c) = fst (put_settings hash now cr req d)"
proof
  obtain e c1 where c1: "require_admin hash now cr c = (e, c1)" by fastforce
  obtain d1 where d1: "require_admin hash now cr d = (e, d1)"
    using require_admin_alike(1) [OF assms(1), of hash now] c1 by (metis fst_conv prod.collapse)
  have alike1: "controls_alike cr c1 d1"
    using require_admin_alike(2) [OF assms(1), of hash now] by (simp add: c1 d1)
  show "fst (get_settings hash now cr c) = fst (get_settings hash now cr d)"
    using shown_alike [OF alike1] by (simp add: get_settings_def c1 d1 split: option.split)
  define c2 d2 where cd: "c2 = snd (control_actor hash now cr c1)" "d2 = snd (control_actor hash now cr d1)"
  have alike2: "controls_alike cr c2 d2"
    using control_actor_alike(2) [OF alike1] by (simp add: cd)
  show "fst (put_settings hash now cr req c) = fst (put_settings hash now cr req d)"
  proof (cases "e = None \<and> all_known req")
    case True
    let ?m = "requested req (cs_settings c2)" and ?n = "requested req (cs_settings d2)"
    have "secrets_alike ?m ?n"
      using alike2 by (intro secrets_alike_requested) (simp add: controls_alike_def)
    then have "settings_view ?m = settings_view ?n"
      "applied_oidc (effective_settings (cs_boot c2) ?m) = None \<longleftrightarrow> applied_oidc (effective_settings (cs_boot d2) ?n) = None"
      using secrets_alike_view applied_oidc_alike alike2 unfolding controls_alike_def by metis+
    then show ?thesis
      using True store_settings_known [OF _ assms(2)]
      by (simp add: put_settings_def c1 d1 flip: cd) (simp add: shown_def apply_settings_def Let_def)
  next
    case False
    show ?thesis
    proof (cases e)
      case None
      then have "\<not> all_known req" using False by simp
      from store_settings_unknown_same [OF this] obtain k where
        "\<And>m. \<exists>m'. store_settings req m = (Some (Unknown_Setting k), m')" by blast
      then obtain m n where "store_settings req (cs_settings c2) = (Some (Unknown_Setting k), m)"
        "store_settings req (cs_settings d2) = (Some (Unknown_Setting k), n)" by meson
      then show ?thesis
        using None by (simp add: put_settings_def c1 d1 flip: cd)
    qed (simp add: put_settings_def c1 d1)
  qed
qed

subsection \<open>A concrete control\<close>

definition sample_control :: "settings \<Rightarrow> control" where
  "sample_control stored = start_control ''boot'' [''https://a''] None sample_store stored"

definition put_sample :: "(string \<times> string option) list \<Rightarrow> control \<Rightarrow> (setting_error + settings_answer) \<times> control" where
  "put_sample = put_settings ((@) ''#'') 9 cookie_request"

definition sample_store_used :: store where
  "sample_store_used = extend_session ''#tok'' (9 + session_ttl) sample_store"

lemma cookie_no_token [simp]: "\<not> master_token_given t cookie_request"
  by (simp add: master_token_given_def cookie_request_def trim_prefix_def Let_def)

lemma sample_actor:
  "resolve_request ((@) ''#'') 9 [] cookie_request sample_store = (Inr sample_admin, sample_store_used)"
  "resolve_request ((@) ''#'') 9 [] cookie_request sample_store_used = (Inr sample_admin, sample_store_used)"
  by code_simp+

lemma resolve_cookie: "resolve_request hash now t cookie_request s = resolve_request hash now [] cookie_request s"
  by (simp add: resolve_request_def)

lemma sample_is_admin: "is_admin sample_admin"
  by (simp add: is_admin_def sample_admin_def)

lemma put_sample_eq:
  assumes "cs_accounts c \<in> {sample_store, sample_store_used}"
  shows "put_sample req c =
    (case store_settings req (cs_settings c) of
       (Some e, m) \<Rightarrow> (Inl e, c \<lparr>cs_accounts := sample_store_used, cs_settings := m\<rparr>)
     | (None, m) \<Rightarrow>
         let c3 = c \<lparr>cs_accounts := sample_store_used, cs_settings := m, cs_running := apply_settings (cs_boot c) m (cs_running c),
               cs_audit := cs_audit c @ [Settings_Updated (set (map fst req))]\<rparr> in
         (Inr (shown c3), c3))"
proof -
  define c1 where "c1 = c \<lparr>cs_accounts := sample_store_used\<rparr>"
  have "require_admin ((@) ''#'') 9 cookie_request c = (None, c1)"
    unfolding c1_def using assms sample_actor by (auto simp: require_admin_def control_actor_def resolve_cookie [of _ _ "rn_token _"] sample_is_admin)
  moreover have "control_actor ((@) ''#'') 9 cookie_request c1 = (Inr sample_admin, c1)"
    unfolding c1_def using sample_actor by (simp add: control_actor_def resolve_cookie [of _ _ "rn_token _"])
  moreover obtain e m where "store_settings req (cs_settings c) = (e, m)" by fastforce
  ultimately show ?thesis
    by (cases e) (simp_all add: put_sample_def put_settings_def c1_def Let_def)
qed

lemma sample_control_simps [simp]:
  "cs_accounts (sample_control stored) = sample_store"
  "cs_settings (sample_control stored) = stored"
  "cs_boot (sample_control stored) = boot_defaults ''boot'' [''https://a''] None"
  "cs_running (sample_control stored) = apply_settings (boot_defaults ''boot'' [''https://a''] None) stored
     \<lparr>rn_token = ''boot'', rn_origins = [''https://a''], rn_oidc = None, rn_cache = new_result_cache\<rparr>"
  by (simp_all add: sample_control_def start_control_def enable_meta_def Let_def)

lemma rn_token_applied: "rn_token (apply_settings (boot_defaults t os oidc) m r) = (if blank (setting m set_admin_token) then t else setting m set_admin_token)"
  by (simp add: apply_settings_def Let_def effective_in_effect in_effect_def boot_values)

lemma known_samples: "is_known_setting set_admin_token" "is_known_setting set_cache_ttl" "\<not> is_known_setting ''nope''"
    "\<not> blank ''new''" "\<not> blank ''live''"
  by code_simp+

lemmas put_sample_simps = put_sample_eq Let_def apply_setting_def set_setting_def delete_setting_def known_samples rn_token_applied


theorem deleted_settings_restore_flags_witness:
  "rn_token (cs_running (sample_control [set_admin_token \<mapsto> ''live''])) = ''live'' \<and>
   rn_token (cs_running (snd (put_sample [(set_admin_token, None)] (sample_control [set_admin_token \<mapsto> ''live''])))) = ''boot''"
proof
  let ?stored = "[set_admin_token \<mapsto> ''live'']" and ?req = "[(set_admin_token, None)]"
  obtain a c' where p: "put_sample ?req (sample_control ?stored) = (Inr a, c')"
    by (simp add: put_sample_simps)
  have "flag_origins [''https://a'']"
    by code_simp
  then have "rn_token (cs_running c') = ''boot''"
    using deleted_settings_restore_flags [of "[''https://a'']" None "(@) ''#''" "''boot''" sample_store ?stored "sample_control ?stored"
        9 cookie_request ?req a c'] p
    by (simp add: put_sample_def flip: sample_control_def)
  then show "rn_token (cs_running (snd (put_sample ?req (sample_control ?stored)))) = ''boot''"
    by (simp add: p)
qed (simp add: rn_token_applied setting_def known_samples)

theorem secret_settings_hidden_witness:
  "fst (put_sample [] (sample_control [set_oidc_secret \<mapsto> ''one''])) = fst (put_sample [] (sample_control [set_oidc_secret \<mapsto> ''two'']))"
proof -
  have secret: "is_secret_setting set_oidc_secret" "\<not> blank ''one''" "\<not> blank ''two''"
    by code_simp+
  have "rn_oidc (cs_running (sample_control [set_oidc_secret \<mapsto> v])) = None" for v
    by (simp add: apply_settings_def applied_oidc_def Let_def effective_in_effect in_effect_def boot_values)
       (simp add: setting_def setting_names)
  then have "controls_alike cookie_request (sample_control [set_oidc_secret \<mapsto> ''one'']) (sample_control [set_oidc_secret \<mapsto> ''two''])"
    using secret by (simp add: controls_alike_def secrets_alike_def setting_def same_shape_def)
  then show ?thesis
    using secret_settings_hidden [of cookie_request _ _ "[]" "(@) ''#''" 9] by (simp add: put_sample_def)
qed

text \<open>
  The help text of the master token says that leaving it empty disables it. An empty stored value
  does not: the flag's token stays in effect.
\<close>

lemma blank_token_keeps_flag:
  "blank v \<Longrightarrow> rn_token (apply_settings (boot_defaults t os oidc) (stored (set_admin_token \<mapsto> v)) r) = t"
  by (simp add: rn_token_applied) (simp add: setting_def)

text \<open>
  A request with an unknown key is refused, but keys before it in the iteration are stored, not in
  effect and not audited; the next accepted request (here an empty one) puts them in effect.
\<close>

lemma refused_change_is_stored:
  assumes "c = snd (put_sample [(set_admin_token, Some ''new''), (''nope'', Some ''v'')] (sample_control Map.empty))"
  shows "fst (put_sample [(set_admin_token, Some ''new''), (''nope'', Some ''v'')] (sample_control Map.empty)) = Inl (Unknown_Setting ''nope'')"
    "cs_audit c = []" "rn_token (cs_running c) = ''boot''" "rn_token (cs_running (snd (put_sample [] c))) = ''new''"
  using assms by (simp_all add: put_sample_simps) (simp_all add: setting_def known_samples sample_control_def start_control_def enable_meta_def Let_def)

text \<open>
  Only the key of a setting is checked: a cache lifetime that is no number is accepted and stored,
  and leaves the lifetime as it was.
\<close>

lemma invalid_lifetime_accepted:
  "\<exists>a. fst (put_sample [(set_cache_ttl, Some ''soon'')] (sample_control stored)) = Inr a"
  "rn_cache (cs_running (snd (put_sample [(set_cache_ttl, Some ''soon'')] (sample_control stored)))) =
   rn_cache (cs_running (sample_control stored))"
proof -
  have soon: "\<not> blank ''soon''" "trim_space ''soon'' \<noteq> []" "atoi (trim_space ''soon'') = None"
    by code_simp+
  show "\<exists>a. fst (put_sample [(set_cache_ttl, Some ''soon'')] (sample_control stored)) = Inr a"
    by (simp add: put_sample_simps)
  have "setting (stored(set_cache_ttl \<mapsto> ''soon'')) set_cache_ttl = ''soon''"
    by (simp add: setting_def)
  then show "rn_cache (cs_running (snd (put_sample [(set_cache_ttl, Some ''soon'')] (sample_control stored)))) =
      rn_cache (cs_running (sample_control stored))"
    by (simp add: put_sample_simps) (simp add: apply_settings_def Let_def effective_in_effect in_effect_def soon applied_cache_def)
qed

end
