(* ===== verification/Key_Routes.thy ===== *)
theory Key_Routes
  imports Admin_Settings "HOL-Library.Word"
begin

text \<open>
  The routes \<open>/api/mcp-keys\<close> (\<open>internal/mcp/authapi.go\<close>): listing, issuing, rotating and revoking MCP
  keys, on the accounts and the running options of \<open>control\<close>. The random key and its id are
  inputs, the decoded request an argument; the keys of a store stand in the order of their creation,
  which the listing reverses. Creation times and the fixed notes of the answers are left out.

  The lemmas show that without an administrator nobody sees or changes another account's keys, that
  a fresh key works for exactly the hours asked for (and where the 64-bit product of hours and
  nanoseconds wraps), and that every key has an owner among the accounts.
\<close>

subsection \<open>The routes\<close>

datatype key_error = Key_Login auth_error | Other_Users_Keys | No_Such_User | Master_Owns_No_Keys | No_Such_Key | Not_Your_Key

record key_view =
  kv_id :: string
  kv_user :: string
  kv_name :: string
  kv_prefix :: string
  kv_status :: key_status
  kv_expires :: "int option"
  kv_last_used :: "int option"
  kv_revoked :: "int option"
  kv_rotated_from :: string

definition view_of_key :: "int \<Rightarrow> mcp_key \<Rightarrow> key_view" where
  "view_of_key now k =
     \<lparr>kv_id = ky_id k, kv_user = ky_user k, kv_name = ky_name k, kv_prefix = ky_prefix k,
      kv_status = key_status_of now k, kv_expires = ky_expires k, kv_last_used = ky_last_used k,
      kv_revoked = ky_revoked k, kv_rotated_from = ky_rotated_from k\<rparr>"

text \<open>\<open>ListKeys\<close>; an empty user means all.\<close>

definition list_keys :: "string \<Rightarrow> store \<Rightarrow> mcp_key list" where
  "list_keys user s = rev (filter (\<lambda>k. user = [] \<or> ky_user k = user) (st_keys s))"

datatype key_answer = Keys_Listed "key_view list" | Key_Issued string key_view | Key_Gone string

definition handle_list_keys :: "(string \<Rightarrow> string) \<Rightarrow> int \<Rightarrow> credentials \<Rightarrow> string \<Rightarrow> bool \<Rightarrow> control \<Rightarrow>
    (key_error + key_answer) \<times> control" where
  "handle_list_keys hash now cr user all_users c =
     (case control_actor hash now cr c of
        (Inl e, c1) \<Rightarrow> (Inl (Key_Login e), c1)
      | (Inr u, c1) \<Rightarrow>
          let asked = user \<noteq> [] \<or> all_users in
          if asked \<and> \<not> is_admin u then (Inl Other_Users_Keys, c1)
          else (Inr (Keys_Listed (map (view_of_key now) (list_keys (if asked then user else ac_id u) (cs_accounts c1)))), c1))"

text \<open>\<open>time.Duration(hours) * time.Hour\<close>: a product of 64-bit integers.\<close>

definition key_ttl :: "int \<Rightarrow> int" where
  "key_ttl hours = sint (word_of_int hours * word_of_int 3600000000000 :: 64 word)"

text \<open>The account that a new key is for.\<close>

definition key_target :: "account \<Rightarrow> string \<Rightarrow> store \<Rightarrow> key_error + string" where
  "key_target u user s =
     (if user \<noteq> [] \<and> user \<noteq> ac_id u
      then if \<not> is_admin u then Inl Other_Users_Keys
        else if get_user_by_id user s = None then Inl No_Such_User else Inr user
      else Inr (ac_id u))"

definition handle_create_key :: "(string \<Rightarrow> string) \<Rightarrow> int \<Rightarrow> string \<Rightarrow> string \<Rightarrow> credentials \<Rightarrow> string \<Rightarrow> int \<Rightarrow> string \<Rightarrow>
    control \<Rightarrow> (key_error + key_answer) \<times> control" where
  "handle_create_key hash now raw new_id cr name hours user c =
     (case control_actor hash now cr c of
        (Inl e, c1) \<Rightarrow> (Inl (Key_Login e), c1)
      | (Inr u, c1) \<Rightarrow>
          (case key_target u user (cs_accounts c1) of
             Inl e \<Rightarrow> (Inl e, c1)
           | Inr target \<Rightarrow>
               if target = ''master'' then (Inl Master_Owns_No_Keys, c1)
               else (case create_key hash now raw new_id target name (key_ttl hours) [] (cs_accounts c1) of
                   (k, accounts) \<Rightarrow>
                     (Inr (Key_Issued raw (view_of_key now k)),
                      c1 \<lparr>cs_accounts := accounts, cs_audit := cs_audit c1 @ [Key_Event ''mcp_key_create'' (ky_prefix k)]\<rparr>))))"

text \<open>\<open>requireKeyAccess\<close>: the owner or an administrator.\<close>

definition require_key_access :: "(string \<Rightarrow> string) \<Rightarrow> int \<Rightarrow> credentials \<Rightarrow> string \<Rightarrow> control \<Rightarrow>
    (key_error + account \<times> mcp_key) \<times> control" where
  "require_key_access hash now cr i c =
     (case control_actor hash now cr c of
        (Inl e, c1) \<Rightarrow> (Inl (Key_Login e), c1)
      | (Inr u, c1) \<Rightarrow>
          (case get_key_by_id (cs_accounts c1) i of
             None \<Rightarrow> (Inl No_Such_Key, c1)
           | Some k \<Rightarrow> (if \<not> is_admin u \<and> ky_user k \<noteq> ac_id u then Inl Not_Your_Key else Inr (u, k), c1)))"

definition handle_rotate_key :: "(string \<Rightarrow> string) \<Rightarrow> int \<Rightarrow> string \<Rightarrow> string \<Rightarrow> credentials \<Rightarrow> string \<Rightarrow> control \<Rightarrow>
    (key_error + key_answer) \<times> control" where
  "handle_rotate_key hash now raw new_id cr i c =
     (case require_key_access hash now cr i c of
        (Inl e, c1) \<Rightarrow> (Inl e, c1)
      | (Inr (u, k), c1) \<Rightarrow>
          (case rotate_key hash now raw new_id (ky_id k) (cs_accounts c1) of
             (Inl e, accounts) \<Rightarrow> (Inl (Key_Login e), c1 \<lparr>cs_accounts := accounts\<rparr>)
           | (Inr nk, accounts) \<Rightarrow>
               (Inr (Key_Issued raw (view_of_key now nk)),
                c1 \<lparr>cs_accounts := accounts,
                   cs_audit := cs_audit c1 @ [Key_Event ''mcp_key_rotate''
                     (ky_prefix k @ '' -> '' @ ky_prefix nk @ '' by '' @ ac_username u)]\<rparr>)))"

definition handle_revoke_key :: "(string \<Rightarrow> string) \<Rightarrow> int \<Rightarrow> credentials \<Rightarrow> string \<Rightarrow> control \<Rightarrow>
    (key_error + key_answer) \<times> control" where
  "handle_revoke_key hash now cr i c =
     (case require_key_access hash now cr i c of
        (Inl e, c1) \<Rightarrow> (Inl e, c1)
      | (Inr (u, k), c1) \<Rightarrow>
          (Inr (Key_Gone (ky_id k)),
           c1 \<lparr>cs_accounts := revoke_key now (ky_id k) (cs_accounts c1),
              cs_audit := cs_audit c1 @ [Key_Event ''mcp_key_revoke'' (ky_prefix k @ '' by '' @ ac_username u)]\<rparr>))"

text \<open>Which handler serves a request.\<close>

datatype key_request = List_Keys string bool | Issue_Key string int string | Rotate_Key_Id string | Revoke_Key_Id string

fun key_routes :: "(string \<Rightarrow> string) \<Rightarrow> int \<Rightarrow> string \<Rightarrow> string \<Rightarrow> credentials \<Rightarrow> key_request \<Rightarrow> control \<Rightarrow>
    (key_error + key_answer) \<times> control" where
  "key_routes hash now raw new_id cr (List_Keys user all_users) c = handle_list_keys hash now cr user all_users c"
| "key_routes hash now raw new_id cr (Issue_Key name hours user) c = handle_create_key hash now raw new_id cr name hours user c"
| "key_routes hash now raw new_id cr (Rotate_Key_Id i) c = handle_rotate_key hash now raw new_id cr i c"
| "key_routes hash now raw new_id cr (Revoke_Key_Id i) c = handle_revoke_key hash now cr i c"

subsection \<open>The keys of one account\<close>

definition user_keys :: "string \<Rightarrow> store \<Rightarrow> mcp_key list" where
  "user_keys owner s = filter (\<lambda>k. ky_user k = owner) (st_keys s)"

definition distinct_key_ids :: "store \<Rightarrow> bool" where
  "distinct_key_ids s \<longleftrightarrow> distinct (map ky_id (st_keys s))"

lemma filter_map_away:
  assumes "\<And>x. x \<in> set xs \<Longrightarrow> f x = x \<or> (\<not> P x \<and> \<not> P (f x))"
  shows "filter P (map f xs) = filter P xs"
  using assms
proof (induction xs)
  case (Cons x xs)
  then have "f x = x \<or> (\<not> P x \<and> \<not> P (f x))" "filter P (map f xs) = filter P xs"
    by simp_all
  then show ?case by auto
qed simp

lemma user_keys_update:
  assumes "distinct_key_ids s" "k \<in> set (st_keys s)" "ky_id k = i" "ky_user k \<noteq> owner" "\<And>x. ky_user (f x) = ky_user x"
  shows "user_keys owner (update_key i f s) = user_keys owner s"
proof -
  have "x = k" if "x \<in> set (st_keys s)" "ky_id x = i" for x
    using assms(1-3) that by (auto simp: distinct_key_ids_def distinct_map dest: inj_onD)
  then show ?thesis
    unfolding user_keys_def update_key_def
    by simp (rule filter_map_away, use assms(4,5) in auto)
qed

lemma distinct_key_ids_update: "(\<And>x. ky_id (f x) = ky_id x) \<Longrightarrow> distinct_key_ids (update_key i f s) = distinct_key_ids s"
  by (simp add: distinct_key_ids_def update_key_def comp_def if_distrib [of ky_id] cong: if_cong)

lemma fresh_key_update:
  "(\<And>x. ky_id (f x) = ky_id x) \<Longrightarrow> (\<And>x. ky_hash (f x) = ky_hash x) \<Longrightarrow> fresh_key hash raw j (update_key i f s) = fresh_key hash raw j s"
  by (simp add: fresh_key_def update_key_image)

lemma create_key_keys:
  assumes "fresh_key hash raw i s"
  shows "st_keys (snd (create_key hash now raw i user n ttl from s)) = st_keys s @ [fst (create_key hash now raw i user n ttl from s)]"
    and "ky_user (fst (create_key hash now raw i user n ttl from s)) = user"
    and "ky_id (fst (create_key hash now raw i user n ttl from s)) = i"
proof -
  have "filter (\<lambda>x. ky_id x \<noteq> i) (st_keys s) = st_keys s"
    using assms by (auto simp: fresh_key_def filter_id_conv image_iff)
  then show "st_keys (snd (create_key hash now raw i user n ttl from s)) = st_keys s @ [fst (create_key hash now raw i user n ttl from s)]"
    by (simp add: create_key_def store_key_def Let_def)
qed (simp_all add: create_key_def Let_def)

lemma user_keys_create:
  assumes "fresh_key hash raw i s" "user \<noteq> owner"
  shows "user_keys owner (snd (create_key hash now raw i user n ttl from s)) = user_keys owner s"
    and "distinct_key_ids s \<Longrightarrow> distinct_key_ids (snd (create_key hash now raw i user n ttl from s))"
  using create_key_keys [OF assms(1)] assms by (auto simp: user_keys_def distinct_key_ids_def fresh_key_def)

lemma authenticate_key_touch:
  assumes "authenticate_key hash now raw s = (x, s')"
  shows "s' = s \<or> (\<exists>u k. x = Inr (u, k) \<and> k \<in> set (st_keys s) \<and> ky_user k = ac_id u \<and> s' = touch_key now (ky_id k) s)"
  using assms
  by (auto simp: authenticate_key_def Let_def get_key_by_hash_def get_user_by_id_def find_Some_iff
      split: if_splits option.splits key_status.splits)

lemma resolve_request_keys:
  assumes "resolve_request hash now t cr s = (x, s')"
  shows "st_keys s' = st_keys s \<or>
    (\<exists>u k s1. x = Inr u \<and> st_keys s1 = st_keys s \<and> k \<in> set (st_keys s) \<and> ky_user k = ac_id u \<and> s' = touch_key now (ky_id k) s1)"
proof -
  have resolve: "st_keys s2 = st_keys s1 \<or>
      (\<exists>u k. y = Inr u \<and> k \<in> set (st_keys s1) \<and> ky_user k = ac_id u \<and> s2 = touch_key now (ky_id k) s1)"
    if "resolve_key hash now cr s1 = (y, s2)" for y s1 s2
    using that by (auto simp: resolve_key_def dest: authenticate_key_touch split: if_splits prod.splits sum.splits)
  obtain y s1 where a: "authenticate hash now (cr_cookie cr) s = (y, s1)" by fastforce
  have keys: "st_keys s1 = st_keys s"
    using authenticate_frame(1) [of hash now "cr_cookie cr" s] a by simp
  show ?thesis
    using assms resolve [of s x s'] resolve [of s1 x s'] keys
    by (auto simp: resolve_request_def a split: if_splits sum.splits)
qed

lemma touch_key_keeps: "st_keys s1 = st_keys s \<Longrightarrow> distinct_key_ids (touch_key now i s1) = distinct_key_ids s \<and>
    fresh_key hash raw j (touch_key now i s1) = fresh_key hash raw j s"
  by (simp add: touch_key_def distinct_key_ids_update fresh_key_update) (simp add: distinct_key_ids_def fresh_key_def)

lemma user_keys_touch:
  assumes "distinct_key_ids s" "st_keys s1 = st_keys s" "k \<in> set (st_keys s)" "ky_user k \<noteq> owner"
  shows "user_keys owner (touch_key now (ky_id k) s1) = user_keys owner s"
proof -
  have "user_keys owner (touch_key now (ky_id k) s1) = user_keys owner s1"
    unfolding touch_key_def by (rule user_keys_update [of _ k]) (use assms in \<open>simp_all add: distinct_key_ids_def\<close>)
  then show ?thesis
    by (simp add: user_keys_def assms(2))
qed

text \<open>Resolving a request touches the keys of the actor only.\<close>

lemma control_actor_keys:
  assumes "control_actor hash now cr c = (x, c1)" "distinct_key_ids (cs_accounts c)"
  shows "distinct_key_ids (cs_accounts c1)"
    and "fresh_key hash raw i (cs_accounts c1) = fresh_key hash raw i (cs_accounts c)"
    and "(\<And>u. x = Inr u \<Longrightarrow> ac_id u \<noteq> owner) \<Longrightarrow> user_keys owner (cs_accounts c1) = user_keys owner (cs_accounts c)"
proof -
  obtain s' where r: "resolve_request hash now (rn_token (cs_running c)) cr (cs_accounts c) = (x, s')" "cs_accounts c1 = s'"
    using assms(1) by (auto simp: control_actor_def split: prod.splits)
  consider "st_keys s' = st_keys (cs_accounts c)"
    | u k s1 where "x = Inr u" "st_keys s1 = st_keys (cs_accounts c)" "k \<in> set (st_keys (cs_accounts c))" "ky_user k = ac_id u"
        "s' = touch_key now (ky_id k) s1"
    using resolve_request_keys [OF r(1)] by blast
  then have "distinct_key_ids s' \<and> fresh_key hash raw i s' = fresh_key hash raw i (cs_accounts c) \<and>
      ((\<forall>u. x = Inr u \<longrightarrow> ac_id u \<noteq> owner) \<longrightarrow> user_keys owner s' = user_keys owner (cs_accounts c))"
  proof cases
    case 1
    then show ?thesis
      using assms(2) by (simp add: distinct_key_ids_def fresh_key_def user_keys_def)
  next
    case 2
    then show ?thesis
      using touch_key_keeps [of s1 "cs_accounts c"] user_keys_touch [of "cs_accounts c" s1 k] assms(2) by simp
  qed
  then show "distinct_key_ids (cs_accounts c1)" "fresh_key hash raw i (cs_accounts c1) = fresh_key hash raw i (cs_accounts c)"
    "(\<And>u. x = Inr u \<Longrightarrow> ac_id u \<noteq> owner) \<Longrightarrow> user_keys owner (cs_accounts c1) = user_keys owner (cs_accounts c)"
    using r(2) by auto
qed

subsection \<open>Other accounts' keys\<close>

text \<open>The answer shows a key of the account.\<close>

definition reveals :: "string \<Rightarrow> key_error + key_answer \<Rightarrow> bool" where
  "reveals owner x \<longleftrightarrow>
     (case x of
        Inl _ \<Rightarrow> False
      | Inr (Keys_Listed vs) \<Rightarrow> owner \<in> kv_user ` set vs
      | Inr (Key_Issued _ v) \<Rightarrow> kv_user v = owner
      | Inr (Key_Gone _) \<Rightarrow> False)"

lemma reveals_simps [simp]:
  "\<not> reveals owner (Inl e)"
  "reveals owner (Inr (Keys_Listed vs)) \<longleftrightarrow> owner \<in> kv_user ` set vs"
  "reveals owner (Inr (Key_Issued r v)) \<longleftrightarrow> kv_user v = owner"
  "\<not> reveals owner (Inr (Key_Gone j))"
  by (simp_all add: reveals_def)

text \<open>
  The request is of an account that is neither the owner nor an administrator, or of nobody. (Ids of
  accounts are random and not empty.)
\<close>

definition foreign_actor :: "(string \<Rightarrow> string) \<Rightarrow> int \<Rightarrow> credentials \<Rightarrow> string \<Rightarrow> control \<Rightarrow> bool" where
  "foreign_actor hash now cr owner c \<longleftrightarrow> (\<forall>u. live_actor hash now cr c u \<longrightarrow> \<not> is_admin u \<and> ac_id u \<noteq> owner \<and> ac_id u \<noteq> [])"

definition confined :: "string \<Rightarrow> store \<Rightarrow> (key_error + key_answer) \<times> control \<Rightarrow> bool" where
  "confined owner s r \<longleftrightarrow>
     distinct_key_ids (cs_accounts (snd r)) \<and> user_keys owner (cs_accounts (snd r)) = user_keys owner s \<and> \<not> reveals owner (fst r)"

lemma foreign_control_actor:
  assumes "control_actor hash now cr c = (y, c1)" "distinct_key_ids (cs_accounts c)" "fresh_key hash raw i (cs_accounts c)"
    and "foreign_actor hash now cr owner c"
  shows "distinct_key_ids (cs_accounts c1)" "user_keys owner (cs_accounts c1) = user_keys owner (cs_accounts c)"
    and "fresh_key hash raw i (cs_accounts c1)" "\<And>u. y = Inr u \<Longrightarrow> \<not> is_admin u \<and> ac_id u \<noteq> owner \<and> ac_id u \<noteq> []"
proof -
  show "\<not> is_admin u \<and> ac_id u \<noteq> owner \<and> ac_id u \<noteq> []" if "y = Inr u" for u
    using assms(1,4) that control_actor_live by (auto simp: foreign_actor_def)
  then show "distinct_key_ids (cs_accounts c1)" "user_keys owner (cs_accounts c1) = user_keys owner (cs_accounts c)"
    "fresh_key hash raw i (cs_accounts c1)"
    using control_actor_keys [OF assms(1,2)] assms(3) by auto
qed

lemma key_target_own: "key_target u user s = Inr t \<Longrightarrow> \<not> is_admin u \<Longrightarrow> t = ac_id u"
  by (auto simp: key_target_def split: if_splits)

lemma key_access_own:
  assumes "require_key_access hash now cr j c = (y, c1)" "distinct_key_ids (cs_accounts c)" "fresh_key hash raw i (cs_accounts c)"
    and "foreign_actor hash now cr owner c"
  shows "distinct_key_ids (cs_accounts c1)" "user_keys owner (cs_accounts c1) = user_keys owner (cs_accounts c)"
    and "fresh_key hash raw i (cs_accounts c1)"
    and "\<And>u k. y = Inr (u, k) \<Longrightarrow> get_key_by_id (cs_accounts c1) (ky_id k) = Some k \<and> k \<in> set (st_keys (cs_accounts c1)) \<and> ky_user k \<noteq> owner"
proof -
  obtain z c2 where a: "control_actor hash now cr c = (z, c2)" by fastforce
  have c2: "c2 = c1"
    using assms(1) a by (auto simp: require_key_access_def split: sum.splits option.splits)
  note actor = foreign_control_actor [OF a assms(2-4)]
  show "distinct_key_ids (cs_accounts c1)" "user_keys owner (cs_accounts c1) = user_keys owner (cs_accounts c)"
    "fresh_key hash raw i (cs_accounts c1)"
    using actor c2 by simp_all
  show "get_key_by_id (cs_accounts c1) (ky_id k) = Some k \<and> k \<in> set (st_keys (cs_accounts c1)) \<and> ky_user k \<noteq> owner"
    if "y = Inr (u, k)" for u k
  proof -
    have "get_key_by_id (cs_accounts c1) j = Some k" "ky_user k = ac_id u" "z = Inr u"
      using assms(1) a c2 that actor(4) by (auto simp: require_key_access_def split: sum.splits option.splits if_splits)
    moreover from this have "k \<in> set (st_keys (cs_accounts c1))" "ky_id k = j"
      by (auto simp: get_key_by_id_def find_Some_iff)
    ultimately show ?thesis
      using actor(4) by auto
  qed
qed

lemma user_keys_revoke:
  assumes "distinct_key_ids s" "k \<in> set (st_keys s)" "ky_user k \<noteq> owner"
  shows "user_keys owner (revoke_key now (ky_id k) s) = user_keys owner s" "distinct_key_ids (revoke_key now (ky_id k) s)"
  unfolding revoke_key_def
  by (rule user_keys_update [OF assms(1,2) refl assms(3)], simp) (simp add: distinct_key_ids_update assms(1))

lemma confined_list:
  assumes "distinct_key_ids (cs_accounts c)" "fresh_key hash raw i (cs_accounts c)" "foreign_actor hash now cr owner c"
  shows "confined owner (cs_accounts c) (handle_list_keys hash now cr user all_users c)"
proof -
  obtain y c1 where a: "control_actor hash now cr c = (y, c1)" by fastforce
  note actor = foreign_control_actor [OF a assms]
  show ?thesis
    using actor
    by (cases y) (auto simp: confined_def handle_list_keys_def a Let_def list_keys_def view_of_key_def)
qed

lemma confined_create:
  assumes "distinct_key_ids (cs_accounts c)" "fresh_key hash raw i (cs_accounts c)" "foreign_actor hash now cr owner c"
  shows "confined owner (cs_accounts c) (handle_create_key hash now raw i cr name hours user c)"
proof -
  obtain y c1 where a: "control_actor hash now cr c = (y, c1)" by fastforce
  note actor = foreign_control_actor [OF a assms]
  show ?thesis
  proof (cases "\<exists>u. y = Inr u \<and> key_target u user (cs_accounts c1) = Inr (ac_id u) \<and> ac_id u \<noteq> ''master''")
    case True
    then obtain u where u: "y = Inr u" "key_target u user (cs_accounts c1) = Inr (ac_id u)" "ac_id u \<noteq> ''master''" by blast
    moreover obtain k s where k: "create_key hash now raw i (ac_id u) name (key_ttl hours) [] (cs_accounts c1) = (k, s)" by fastforce
    ultimately show ?thesis
      using user_keys_create [OF actor(3), of "ac_id u" owner now name "key_ttl hours" "[]"] actor
        create_key_keys(2) [OF actor(3), of now "ac_id u" name "key_ttl hours" "[]"]
      by (simp add: confined_def handle_create_key_def a view_of_key_def)
  next
    case False
    then have "(\<exists>e. fst (handle_create_key hash now raw i cr name hours user c) = Inl e) \<and>
        snd (handle_create_key hash now raw i cr name hours user c) = c1"
    proof (cases y)
      case (Inr u)
      show ?thesis
      proof (cases "key_target u user (cs_accounts c1)")
        case (Inr t)
        then have "t = ''master''"
          using key_target_own [OF Inr] actor(4) \<open>y = Inr u\<close> False by auto
        then show ?thesis
          using \<open>y = Inr u\<close> Inr by (simp add: handle_create_key_def a)
      qed (simp add: handle_create_key_def a Inr)
    qed (simp add: handle_create_key_def a)
    then show ?thesis
      using actor by (auto simp: confined_def)
  qed
qed

lemma confined_revoke:
  assumes "distinct_key_ids (cs_accounts c)" "fresh_key hash raw i (cs_accounts c)" "foreign_actor hash now cr owner c"
  shows "confined owner (cs_accounts c) (handle_revoke_key hash now cr j c)"
proof -
  obtain y c1 where a: "require_key_access hash now cr j c = (y, c1)" by fastforce
  note access = key_access_own [OF a assms]
  show ?thesis
  proof (cases y)
    case (Inr p)
    then obtain u k where "y = Inr (u, k)" by (cases p) auto
    then show ?thesis
      using access user_keys_revoke [OF access(1), of k owner now] by (simp add: confined_def handle_revoke_key_def a)
  qed (use access in \<open>simp add: confined_def handle_revoke_key_def a\<close>)
qed

lemma rotate_key_stored:
  assumes "get_key_by_id s j = Some old"
  obtains ttl where "rotate_key hash now raw i j s =
    map_prod Inr id (create_key hash now raw i (ky_user old) (ky_name old) ttl (ky_id old) (revoke_key now (ky_id old) s))"
  using assms by (simp add: rotate_key_def Let_def case_prod_beta map_prod_def)

lemma confined_rotate:
  assumes "distinct_key_ids (cs_accounts c)" "fresh_key hash raw i (cs_accounts c)" "foreign_actor hash now cr owner c"
  shows "confined owner (cs_accounts c) (handle_rotate_key hash now raw i cr j c)"
proof -
  obtain y c1 where a: "require_key_access hash now cr j c = (y, c1)" by fastforce
  note access = key_access_own [OF a assms]
  show ?thesis
  proof (cases y)
    case (Inr p)
    then obtain u k where y: "y = Inr (u, k)" by (cases p) auto
    then have k: "get_key_by_id (cs_accounts c1) (ky_id k) = Some k" "k \<in> set (st_keys (cs_accounts c1))" "ky_user k \<noteq> owner"
      using access(4) by auto
    let ?s = "revoke_key now (ky_id k) (cs_accounts c1)"
    obtain ttl where r: "rotate_key hash now raw i (ky_id k) (cs_accounts c1) =
        map_prod Inr id (create_key hash now raw i (ky_user k) (ky_name k) ttl (ky_id k) ?s)"
      by (rule rotate_key_stored [OF k(1)])
    have s: "distinct_key_ids ?s" "user_keys owner ?s = user_keys owner (cs_accounts c)" "fresh_key hash raw i ?s"
      using user_keys_revoke [OF access(1) k(2,3)] access by (simp_all add: fresh_key_revoke)
    obtain nk s2 where n: "create_key hash now raw i (ky_user k) (ky_name k) ttl (ky_id k) ?s = (nk, s2)" by fastforce
    have "distinct_key_ids s2 \<and> user_keys owner s2 = user_keys owner (cs_accounts c) \<and> ky_user nk = ky_user k"
      using user_keys_create [OF s(3) k(3), of now "ky_name k" ttl "ky_id k"] create_key_keys(2) [OF s(3), of now "ky_user k" "ky_name k" ttl "ky_id k"] s n
      by simp
    then show ?thesis
      using k(3) by (simp add: confined_def handle_rotate_key_def a y r n view_of_key_def)
  qed (use access in \<open>simp add: confined_def handle_rotate_key_def a\<close>)
qed

lemma key_routes_confined:
  assumes "distinct_key_ids (cs_accounts c)" "fresh_key hash raw i (cs_accounts c)" "foreign_actor hash now cr owner c"
  shows "confined owner (cs_accounts c) (key_routes hash now raw i cr req c)"
  using confined_list confined_create confined_rotate confined_revoke assms by (cases req) auto

text \<open>Steps of the server in which neither the owner nor an administrator asks for keys.\<close>

inductive foreign_step :: "(string \<Rightarrow> string) \<Rightarrow> string \<Rightarrow> control \<Rightarrow> control \<Rightarrow> bool" for hash owner where
  Key_Request: "foreign_actor hash now cr owner c \<Longrightarrow> fresh_key hash raw i (cs_accounts c) \<Longrightarrow>
    foreign_step hash owner c (snd (key_routes hash now raw i cr req c))"
| Other: "st_keys (cs_accounts c') = st_keys (cs_accounts c) \<Longrightarrow> foreign_step hash owner c c'"

lemma foreign_run_keys:
  "(foreign_step hash owner)\<^sup>*\<^sup>* c0 c \<Longrightarrow> distinct_key_ids (cs_accounts c0) \<Longrightarrow>
    distinct_key_ids (cs_accounts c) \<and> user_keys owner (cs_accounts c) = user_keys owner (cs_accounts c0)"
proof (induction rule: rtranclp_induct)
  case (step c c')
  from step.hyps(2) show ?case
  proof cases
    case (Key_Request now cr raw i req)
    then show ?thesis
      using key_routes_confined [of c hash raw i now cr owner req] step by (simp add: confined_def)
  next
    case Other
    then show ?thesis
      using step by (simp add: distinct_key_ids_def user_keys_def)
  qed
qed simp

text \<open>
  C11. Whatever key requests other accounts make, none of them an administrator's, and whatever else
  happens that leaves the keys alone, the keys of an account stay exactly as they are, none is added,
  and no answer to such a request shows one of them.
\<close>

theorem keys_stay_with_owner:
  assumes "(foreign_step hash owner)\<^sup>*\<^sup>* c0 c" "distinct_key_ids (cs_accounts c0)"
  shows "user_keys owner (cs_accounts c) = user_keys owner (cs_accounts c0) \<and>
    (foreign_actor hash now cr owner c \<and> fresh_key hash raw i (cs_accounts c) \<longrightarrow>
      \<not> reveals owner (fst (key_routes hash now raw i cr req c)))"
  using foreign_run_keys [OF assms] key_routes_confined [of c hash raw i now cr owner req]
  by (simp add: confined_def)

subsection \<open>How long a fresh key works\<close>

text \<open>The hours for which the product fits: about 292 years.\<close>

definition max_hours :: int where "max_hours = 2562047"

lemma key_ttl_exact: "- max_hours \<le> hours \<Longrightarrow> hours \<le> max_hours \<Longrightarrow> key_ttl hours = hours * 3600000000000"
proof -
  assume h: "- max_hours \<le> hours" "hours \<le> max_hours"
  have "key_ttl hours = signed_take_bit (LENGTH(64) - 1) (hours * 3600000000000)"
    by (simp only: key_ttl_def wi_hom_mult sint_sbintrunc')
  also have "\<dots> = hours * 3600000000000"
    using h by (intro signed_take_bit_int_eq_self) (simp_all add: max_hours_def)
  finally show ?thesis .
qed

lemma create_key_lookup_new:
  assumes "fresh_key hash raw i s" "create_key hash now raw i user n ttl from s = (k, s')"
  shows "get_key_by_hash s' (hash raw) = Some k" "st_users s' = st_users s"
proof -
  have "st_keys s' = st_keys s @ [k]" "ky_hash k = hash raw"
    using create_key_keys(1) [OF assms(1), of now user n ttl "from"] assms(2) by (auto simp: create_key_def Let_def)
  moreover from this have "find (\<lambda>k. ky_hash k = hash raw) (st_keys s) = None"
    using assms(1) unfolding fresh_key_def find_None_iff image_iff by metis
  ultimately show "get_key_by_hash s' (hash raw) = Some k"
    by (simp add: get_key_by_hash_def find_append)
  show "st_users s' = st_users s"
    using assms(2) by (auto simp: create_key_def store_key_def Let_def)
qed

text \<open>
  C28. A key issued for a number of hours (at most 292 years) works for its owner exactly until then,
  and afterwards the server answers that it has expired.
\<close>

theorem issued_key_lifetime:
  assumes "handle_create_key hash now raw i cr name hours user c = (Inr (Key_Issued r v), c')"
    and "distinct_key_ids (cs_accounts c)" "fresh_key hash raw i (cs_accounts c)"
    and "0 < hours" "hours \<le> max_hours" "has_prefix raw key_magic" "trim_space raw = raw"
    and "get_user_by_id (kv_user v) (cs_accounts c') = Some u" "ac_active u"
  shows "r = raw \<and> kv_expires v = Some (now + hours * 3600000000000) \<and>
    (\<exists>k. ky_id k = kv_id v \<and> (\<forall>t. fst (authenticate_key hash t raw (cs_accounts c')) =
      (if t \<le> now + hours * 3600000000000 then Inr (u, k) else Inl Expired)))"
proof -
  obtain y c1 where a: "control_actor hash now cr c = (y, c1)" by fastforce
  obtain u0 where y: "y = Inr u0"
    using assms(1) by (cases y) (simp_all add: handle_create_key_def a)
  obtain target where target: "key_target u0 user (cs_accounts c1) = Inr target" "target \<noteq> ''master''"
    using assms(1) by (cases "key_target u0 user (cs_accounts c1)") (auto simp: handle_create_key_def a y split: if_splits)
  obtain k s where k: "create_key hash now raw i target name (key_ttl hours) [] (cs_accounts c1) = (k, s)" by fastforce
  then have out: "r = raw" "v = view_of_key now k" "cs_accounts c' = s"
    using assms(1) target by (auto simp: handle_create_key_def a y)
  have "fresh_key hash raw i (cs_accounts c1)"
    using control_actor_keys(2) [OF a assms(2)] assms(3) by simp
  then have found: "get_key_by_hash s (hash raw) = Some k"
    using create_key_lookup_new(1) k by blast
  have "key_ttl hours = hours * 3600000000000"
    using assms(4,5) by (intro key_ttl_exact) (simp_all add: max_hours_def)
  then have fields: "ky_hash k = hash raw" "ky_revoked k = None" "ky_expires k = Some (now + hours * 3600000000000)"
    using k assms(4) by (auto simp: create_key_def Let_def)
  then have "fst (authenticate_key hash t raw s) = (if t \<le> now + hours * 3600000000000 then Inr (u, k) else Inl Expired)" for t
    using assms(6-9) found out by (simp add: authenticate_key_def key_status_of_def view_of_key_def)
  then show ?thesis
    using out fields by (auto simp: view_of_key_def)
qed

text \<open>One hour more, and the product wraps to a negative number: the key never expires.\<close>

lemma long_lifetime_never_expires:
  "key_ttl (max_hours + 1) < 0"
  "ky_expires (fst (create_key hash now raw i user name (key_ttl (max_hours + 1)) [] s)) = None"
proof -
  show "key_ttl (max_hours + 1) < 0"
    by code_simp
  then show "ky_expires (fst (create_key hash now raw i user name (key_ttl (max_hours + 1)) [] s)) = None"
    by (simp add: create_key_def Let_def)
qed

subsection \<open>Every key has an owner\<close>

definition keys_owned :: "store \<Rightarrow> bool" where
  "keys_owned s \<longleftrightarrow> (\<forall>k \<in> set (st_keys s). get_user_by_id (ky_user k) s \<noteq> None)"

lemma resolve_request_users: "resolve_request hash now t cr s = (x, s') \<Longrightarrow> st_users s' = st_users s"
proof -
  have auth: "st_users (snd (authenticate hash now token s)) = st_users s" for token s
    by (auto simp: authenticate_def extend_session_def update_session_def split: option.split)
  have key: "st_users s2 = st_users s1" if "resolve_key hash now cr s1 = (y, s2)" for y s1 s2
    using that authenticate_key_touch [of hash now "request_key cr" s1]
    by (auto simp: resolve_key_def touch_key_def update_key_def split: if_splits prod.splits sum.splits)
  obtain y s1 where a: "authenticate hash now (cr_cookie cr) s = (y, s1)" by fastforce
  show "resolve_request hash now t cr s = (x, s') \<Longrightarrow> st_users s' = st_users s"
    using auth [of "cr_cookie cr" s] key
    by (auto simp: resolve_request_def a split: if_splits sum.splits)
qed

lemma live_actor_stored:
  assumes "live_actor hash now cr c u" "u \<noteq> master_user"
  shows "get_user_by_id (ac_id u) (cs_accounts c) \<noteq> None"
proof -
  obtain i where "get_user_by_id i (cs_accounts c) = Some u"
    using assms by (auto simp: live_actor_def live_credential_def)
  then have "u \<in> set (st_users (cs_accounts c))"
    by (auto simp: get_user_by_id_def find_Some_iff)
  then show ?thesis
    by (auto simp: get_user_by_id_def find_None_iff)
qed

lemma keys_owned_by:
  assumes "keys_owned s" "st_users s' = st_users s" "ky_user ` set (st_keys s') \<subseteq> insert t (ky_user ` set (st_keys s))"
    and "get_user_by_id t s \<noteq> None"
  shows "keys_owned s'"
proof -
  have users: "get_user_by_id j s' = get_user_by_id j s" for j
    by (simp add: get_user_by_id_def assms(2))
  have "get_user_by_id (ky_user k) s \<noteq> None" if "k \<in> set (st_keys s')" for k
  proof -
    have "ky_user k = t \<or> ky_user k \<in> ky_user ` set (st_keys s)"
      using assms(3) that by blast
    then show ?thesis
      using assms(1,4) by (auto simp: keys_owned_def)
  qed
  then show ?thesis
    by (simp add: keys_owned_def users)
qed

lemma keys_owned_cong:
  assumes "st_users s' = st_users s" "ky_user ` set (st_keys s') = ky_user ` set (st_keys s)"
  shows "keys_owned s' = keys_owned s"
proof -
  have owned: "keys_owned x \<longleftrightarrow> (\<forall>j \<in> ky_user ` set (st_keys x). get_user_by_id j x \<noteq> None)" for x
    by (simp add: keys_owned_def)
  show ?thesis
    by (simp add: owned assms(2)) (simp add: get_user_by_id_def assms(1))
qed

lemma control_actor_owned:
  assumes "control_actor hash now cr c = (y, c1)" "keys_owned (cs_accounts c)"
  shows "keys_owned (cs_accounts c1)" "\<And>u. y = Inr u \<Longrightarrow> u \<noteq> master_user \<Longrightarrow> get_user_by_id (ac_id u) (cs_accounts c1) \<noteq> None"
proof -
  obtain s' where r: "resolve_request hash now (rn_token (cs_running c)) cr (cs_accounts c) = (y, s')" "cs_accounts c1 = s'"
    using assms(1) by (auto simp: control_actor_def split: prod.splits)
  have users: "st_users s' = st_users (cs_accounts c)"
    by (rule resolve_request_users [OF r(1)])
  have touch: "ky_user ` set (st_keys (touch_key now j s1)) = ky_user ` set (st_keys s1)" for j s1
    by (simp add: touch_key_def update_key_image)
  have "ky_user ` set (st_keys s') = ky_user ` set (st_keys (cs_accounts c))"
    using resolve_request_keys [OF r(1)]
  proof (elim disjE exE conjE)
    fix u k s1
    assume "st_keys s1 = st_keys (cs_accounts c)" "s' = touch_key now (ky_id k) s1"
    then show ?thesis
      by (simp only: touch)
  qed simp
  then show "keys_owned (cs_accounts c1)"
    using keys_owned_cong [OF users] assms(2) r(2) by simp
  show "get_user_by_id (ac_id u) (cs_accounts c1) \<noteq> None" if "y = Inr u" "u \<noteq> master_user" for u
  proof -
    have "live_actor hash now cr c u"
      using assms(1) that(1) by (intro control_actor_live) simp
    from live_actor_stored [OF this that(2)] show ?thesis
      by (simp add: get_user_by_id_def users r(2))
  qed
qed

lemma require_key_access_owned:
  assumes "require_key_access hash now cr j c = (y, c1)" "keys_owned (cs_accounts c)"
  shows "keys_owned (cs_accounts c1)"
    and "\<And>u k. y = Inr (u, k) \<Longrightarrow> get_key_by_id (cs_accounts c1) (ky_id k) = Some k \<and> get_user_by_id (ky_user k) (cs_accounts c1) \<noteq> None"
proof -
  obtain z where a: "control_actor hash now cr c = (z, c1)"
    using assms(1) by (cases "control_actor hash now cr c") (auto simp: require_key_access_def split: sum.splits option.splits)
  show owned: "keys_owned (cs_accounts c1)"
    by (rule control_actor_owned(1) [OF a assms(2)])
  show "get_key_by_id (cs_accounts c1) (ky_id k) = Some k \<and> get_user_by_id (ky_user k) (cs_accounts c1) \<noteq> None"
    if "y = Inr (u, k)" for u k
  proof -
    have j: "get_key_by_id (cs_accounts c1) j = Some k"
      using assms(1) a that by (auto simp: require_key_access_def split: sum.splits option.splits if_splits)
    then have "k \<in> set (st_keys (cs_accounts c1))" "ky_id k = j"
      by (auto simp: get_key_by_id_def find_Some_iff)
    then show ?thesis
      using owned j by (simp add: keys_owned_def)
  qed
qed

lemma create_key_owned:
  assumes "keys_owned s" "fresh_key hash raw i s" "get_user_by_id user s \<noteq> None"
  shows "keys_owned (snd (create_key hash now raw i user n ttl from s))"
  by (rule keys_owned_by [OF assms(1) _ _ assms(3)])
     (use create_key_keys [OF assms(2), of now user n ttl "from"] in \<open>auto simp: create_key_def store_key_def Let_def\<close>)

lemma revoke_key_owned: "keys_owned s \<Longrightarrow> keys_owned (revoke_key now j s)"
proof -
  have "ky_user ` set (st_keys (revoke_key now j s)) = ky_user ` set (st_keys s)"
    by (simp add: revoke_key_def update_key_image)
  then have "keys_owned (revoke_key now j s) = keys_owned s"
    by (intro keys_owned_cong) (simp_all add: revoke_key_def update_key_def)
  then show "keys_owned s \<Longrightarrow> keys_owned (revoke_key now j s)"
    by simp
qed

text \<open>The routes keep that every key belongs to a stored account: the master token gets none.\<close>

lemma key_routes_owned:
  assumes "keys_owned (cs_accounts c)" "distinct_key_ids (cs_accounts c)" "fresh_key hash raw i (cs_accounts c)"
  shows "keys_owned (cs_accounts (snd (key_routes hash now raw i cr req c)))"
proof (cases req)
  case (List_Keys user all_users)
  then show ?thesis
    using control_actor_owned(1) [OF _ assms(1)] by (auto simp: handle_list_keys_def Let_def split: prod.split sum.split)
next
  case (Issue_Key name hours user)
  obtain y c1 where a: "control_actor hash now cr c = (y, c1)" by fastforce
  note owned = control_actor_owned [OF a assms(1)]
  have fresh: "fresh_key hash raw i (cs_accounts c1)"
    using control_actor_keys(2) [OF a assms(2)] assms(3) by simp
  have target: "get_user_by_id t (cs_accounts c1) \<noteq> None"
    if "y = Inr u" "key_target u user (cs_accounts c1) = Inr t" "t \<noteq> ''master''" for u t
  proof -
    have "u \<noteq> master_user" if "ac_id u \<noteq> ''master''"
      using that by (auto simp: master_user_def)
    then show ?thesis
      using that owned(2) [of u] by (auto simp: key_target_def split: if_splits)
  qed
  show ?thesis
  proof (cases "\<exists>u t. y = Inr u \<and> key_target u user (cs_accounts c1) = Inr t \<and> t \<noteq> ''master''")
    case True
    then obtain u t where "y = Inr u" "key_target u user (cs_accounts c1) = Inr t" "t \<noteq> ''master''" by blast
    then show ?thesis
      using create_key_owned [OF owned(1) fresh target, of u t now name "key_ttl hours" "[]"]
      by (auto simp: Issue_Key handle_create_key_def a split: prod.split)
  next
    case False
    then show ?thesis
      using owned(1) by (auto simp: Issue_Key handle_create_key_def a split: sum.split)
  qed
next
  case (Rotate_Key_Id j)
  obtain y c1 where a: "require_key_access hash now cr j c = (y, c1)" by fastforce
  note owned = require_key_access_owned [OF a assms(1)]
  show ?thesis
  proof (cases y)
    case (Inr p)
    then obtain u k where y: "y = Inr (u, k)" by (cases p) auto
    let ?s = "revoke_key now (ky_id k) (cs_accounts c1)"
    obtain ttl where r: "rotate_key hash now raw i (ky_id k) (cs_accounts c1) =
        map_prod Inr id (create_key hash now raw i (ky_user k) (ky_name k) ttl (ky_id k) ?s)"
      using rotate_key_stored owned(2) y by blast
    have "fresh_key hash raw i (cs_accounts c1)"
      using a control_actor_keys(2) [OF _ assms(2)] assms(3)
      by (cases "control_actor hash now cr c") (auto simp: require_key_access_def split: sum.splits option.splits)
    moreover have "get_user_by_id (ky_user k) ?s \<noteq> None"
      using owned(2) y by (simp add: get_user_by_id_def revoke_key_def update_key_def)
    ultimately have "keys_owned (snd (create_key hash now raw i (ky_user k) (ky_name k) ttl (ky_id k) ?s))"
      by (intro create_key_owned revoke_key_owned owned(1)) (simp_all add: fresh_key_revoke)
    then show ?thesis
      by (cases "create_key hash now raw i (ky_user k) (ky_name k) ttl (ky_id k) ?s")
         (simp add: Rotate_Key_Id handle_rotate_key_def a y r)
  qed (use owned in \<open>simp add: Rotate_Key_Id handle_rotate_key_def a\<close>)
next
  case (Revoke_Key_Id j)
  obtain y c1 where a: "require_key_access hash now cr j c = (y, c1)" by fastforce
  then show ?thesis
    using require_key_access_owned(1) [OF a assms(1)] revoke_key_owned
    by (auto simp: Revoke_Key_Id handle_revoke_key_def split: sum.split)
qed

subsection \<open>Two accounts\<close>

definition two_accounts :: store where
  "two_accounts = sample_store \<lparr>st_users := [sample_admin, plain_user ''2''],
     st_sessions := [\<lparr>se_hash = ''#tok'', se_user = ''2'', se_expires = 100, se_revoked = None\<rparr>]\<rparr>"

definition two_control :: control where
  "two_control = (sample_control Map.empty) \<lparr>cs_accounts := two_accounts\<rparr>"

lemma two_control_actor:
  assumes "live_actor ((@) ''#'') 9 cookie_request two_control u"
  shows "u = plain_user ''2''"
proof -
  have no_key: "get_key_by_hash two_accounts (''#'' @ trim_space (request_key cookie_request)) = None"
    by code_simp
  have "get_session two_accounts (''#'' @ cr_cookie cookie_request) =
      Some \<lparr>se_hash = ''#tok'', se_user = ''2'', se_expires = 100, se_revoked = None\<rparr>"
    by (simp add: get_session_def two_accounts_def cookie_request_def)
  moreover have "get_user_by_id ''2'' two_accounts = Some (plain_user ''2'')"
    by (simp add: get_user_by_id_def two_accounts_def sample_admin_def plain_user_def)
  ultimately show ?thesis
    using assms no_key by (auto simp: live_actor_def live_credential_def two_control_def)
qed

theorem keys_stay_with_owner_witness:
  "user_keys ''1'' (cs_accounts (snd (key_routes ((@) ''#'') 9 ''jsk_b'' ''k2'' cookie_request (Revoke_Key_Id ''k1'') two_control))) =
   st_keys sample_store"
proof -
  have actor: "foreign_actor ((@) ''#'') 9 cookie_request ''1'' two_control"
    by (auto simp: foreign_actor_def is_admin_def plain_user_def dest!: two_control_actor)
  have "fresh_key ((@) ''#'') ''jsk_b'' ''k2'' (cs_accounts two_control)" "distinct_key_ids (cs_accounts two_control)"
    by (simp_all add: fresh_key_def distinct_key_ids_def two_control_def two_accounts_def sample_store_def)
  moreover from this actor have
    "(foreign_step ((@) ''#'') ''1'')\<^sup>*\<^sup>* two_control (snd (key_routes ((@) ''#'') 9 ''jsk_b'' ''k2'' cookie_request (Revoke_Key_Id ''k1'') two_control))"
    by (intro r_into_rtranclp foreign_step.Key_Request)
  ultimately show ?thesis
    using keys_stay_with_owner [of "(@) ''#''" "''1''" two_control]
    by (simp add: user_keys_def two_control_def two_accounts_def sample_store_def)
qed

theorem issued_key_lifetime_witness:
  "\<exists>c'. snd (handle_create_key ((@) ''#'') 9 ''jsk_b'' ''k2'' cookie_request ''n'' 1 [] (sample_control Map.empty)) = c' \<and>
     fst (authenticate_key ((@) ''#'') 3600000000010 ''jsk_b'' (cs_accounts c')) = Inl Expired"
proof -
  let ?c = "sample_control Map.empty"
  have "control_actor ((@) ''#'') 9 cookie_request ?c = (Inr sample_admin, ?c \<lparr>cs_accounts := sample_store_used\<rparr>)"
    by (simp add: control_actor_def resolve_cookie [of _ _ "rn_token _"] sample_actor)
  then obtain v c' where c': "handle_create_key ((@) ''#'') 9 ''jsk_b'' ''k2'' cookie_request ''n'' 1 [] ?c = (Inr (Key_Issued ''jsk_b'' v), c')"
    "kv_user v = ''1''" "st_users (cs_accounts c') = [sample_admin]"
    by (simp add: handle_create_key_def key_target_def sample_admin_def create_key_def store_key_def view_of_key_def Let_def
        sample_store_used_def extend_session_def update_session_def sample_store_def)
  have "distinct_key_ids (cs_accounts ?c)" "fresh_key ((@) ''#'') ''jsk_b'' ''k2'' (cs_accounts ?c)" "max_hours \<ge> 1"
    "has_prefix ''jsk_b'' key_magic" "trim_space ''jsk_b'' = ''jsk_b''"
    by (simp_all add: distinct_key_ids_def fresh_key_def sample_store_def max_hours_def) code_simp+
  moreover have "get_user_by_id (kv_user v) (cs_accounts c') = Some sample_admin" "ac_active sample_admin"
    using c' by (simp_all add: get_user_by_id_def sample_admin_def)
  ultimately show ?thesis
    using issued_key_lifetime [OF c'(1)] c'(1) by fastforce
qed

end
