(* ===== verification/Spec2Isabelle.thy ===== *)
theory Spec2Isabelle
  imports Sql_Guard Web_Dialogs Web_Docs Table_Refs Executor Join_Graph Schema_Diff Audit_Chain Async_Jobs Dba_Console Mcp_Query Predicate_Policy Key_Routes
begin

text \<open>
  \<^bold>\<open>jamypg.\<close> The program is an MCP server in Go that lets language-model clients and people query
  company databases read-only, with a web console in plain JavaScript and a documentation site.
  A request arrives over HTTP, is resolved to an account (\<open>Auth_Service\<close>), picks a connection
  profile (\<open>Profiles\<close>), and its SQL passes a keyword guard (\<open>Sql_Guard\<close>), a syntax-tree guard
  (\<open>Ast_Guard\<close>), a circuit breaker and a plan gate (\<open>Plan_Risk\<close>) before the connection manager
  (\<open>Executor\<close>) sends anything to a database; every call is appended to the chained audit log
  (\<open>Audit_Chain\<close>). Beside the executor stand the catalog, whose join graph (\<open>Join_Graph\<close>) tells
  clients how to join tables, and the metadata synchronisation, which compares snapshots of a
  database's schema (\<open>Schema_Diff\<close>). The console's pages load one shared script (\<open>Web_Markdown\<close>,
  \<open>Web_Texts\<close>, \<open>Web_Shell\<close>, \<open>Web_Mount\<close>, \<open>Web_Dialogs\<close>), the documentation pages another (\<open>Web_Docs\<close>).

  \<^bold>\<open>Theories and code.\<close> Definitions keep the names of the code in snake case.

  \<^item> \<open>Prelude\<close>: what the Go code uses of the packages \<open>strings\<close>, \<open>sort\<close> and \<open>strconv\<close> on byte
    strings, errors as sums (\<open>bind_err\<close>), and the locale \<open>strict_weak\<close> for comparison functions.
  \<^item> \<open>Sql_Guard\<close>: \<open>internal/dbconn/sqlguard.go\<close>. \<open>strip_sql\<close> is \<open>stripSQL\<close>, its three flags a
    \<open>strip_mode\<close>; \<open>validate_read_only_sql\<close> is \<open>ValidateReadOnlySQL\<close>.
  \<^item> \<open>Dialect\<close>: \<open>internal/dbconn/dialect.go\<close>; the wrappers for LIMIT and COUNT.
  \<^item> \<open>Json\<close>: decoded JSON values.
  \<^item> \<open>Ast_Guard\<close> and \<open>Table_Refs\<close>: \<open>astguard.go\<close> and \<open>tables.go\<close>, the walks over the parse trees
    of pg_query (JSON) and of the TiDB parser (a tree of node kinds).
  \<^item> \<open>Profiles\<close>: \<open>profile.go\<close> and the configuration block of \<open>admin.go\<close>: defaults, validation,
    password references, masking, the file store and the data source.
  \<^item> \<open>Plan_Risk\<close>: \<open>explain.go\<close> and the cost ceiling of \<open>manager.go\<close>.
  \<^item> \<open>Executor\<close>: \<open>manager.go\<close>. The record \<open>manager\<close> holds pools, breakers, running executions,
    history and counters, and the list of the statements sent; \<open>exec_env\<close> holds the answers of what
    the manager calls. The locale \<open>profile_source\<close> is the contract of the profile store, which the
    file store of \<open>Profiles\<close> fulfils.
  \<^item> \<open>Predicate_Core\<close>, \<open>Predicate_Pg\<close>, \<open>Predicate_My\<close>, \<open>Predicate_Policy\<close>: \<open>predicate_policy.go\<close>,
    \<open>predicate_policy_pg.go\<close> and \<open>predicate_policy_mysql.go\<close>, the row predicates that a query must
    contain. Both kinds of parse tree are the datatype \<open>syn\<close>.
  \<^item> \<open>Join_Graph\<close>: \<open>internal/catalog/join.go\<close>, with the relations and table resolution of \<open>load.go\<close> and
    \<open>search.go\<close> and the forbidden joins of \<open>overrides.go\<close>.
  \<^item> \<open>Schema_Diff\<close>: \<open>internal/metasync/diff.go\<close>, with the structural hash of \<open>collector.go\<close>.
  \<^item> \<open>Audit_Chain\<close>: \<open>internal/mcp/audit.go\<close>.
  \<^item> \<open>Auth_Service\<close>: \<open>internal/meta/auth.go\<close> on the store of \<open>mem.go\<close>, the request resolution and the
    account handlers of \<open>internal/mcp/auth.go\<close>, and the account update of \<open>authapi.go\<close>. The relation
    \<open>auth_step\<close> is one call of the service; the locale \<open>credential_store\<close> says that a dead credential
    stays dead, and is interpreted for sessions and for keys.
  \<^item> \<open>Result_Cache\<close>: \<open>internal/mcp/execguard.go\<close>. The record \<open>server\<close> is the connection manager with the
    result cache; \<open>execute_guarded\<close> is \<open>executeGuarded\<close>, which masks personal columns.
  \<^item> \<open>Async_Jobs\<close>: \<open>internal/mcp/asyncquery.go\<close>. The record \<open>workbench\<close> is the server with its job table;
    in \<open>job_step\<close> submissions, ends of jobs, cancellations and everything else interleave.
  \<^item> \<open>Profile_Access\<close>: profile records and grants (\<open>internal/meta/mem.go\<close>, \<open>types.go\<close>), the handlers that
    change them, and the query handler of \<open>internal/mcp/dbapi.go\<close>. The record \<open>site\<close> joins accounts,
    profiles and server; the profile store of the accounts mode is a second \<open>profile_source\<close>.
  \<^item> \<open>Profile_Router\<close>: \<open>internal/dbconn/router.go\<close>. The record \<open>router\<close> is the connection manager with
    the table inventories; \<open>route_profile\<close> scores the given profiles and decides.
  \<^item> \<open>Mcp_Query\<close>: the tools \<open>run_sql_safely\<close> (\<open>internal/mcp/server.go\<close>) and \<open>execute_with_repair\<close>
    (\<open>repair.go\<close>), with the open questions of a session and the routing among the usable profiles. The
    record \<open>mcp\<close> joins the site, the inventories and the questions.
  \<^item> \<open>Admin_Settings\<close>: \<open>internal/meta/settings.go\<close> and of \<open>internal/mcp/authapi.go\<close> the settings' routes,
    \<open>EnableMeta\<close> and \<open>ApplySettings\<close>. The record \<open>control\<close> has the accounts, the stored settings, the
    flags' values and what is in effect. \<open>Key_Routes\<close>: the routes for MCP keys on it.
  \<^item> \<open>Dba_Pool\<close>: \<open>internal/dbconn/sysquery.go\<close> and the privileged path of \<open>admin.go\<close>. The record
    \<open>admin_state\<close> has the privileged pools and what was sent to which data source.
  \<^item> \<open>Dba_Console\<close>: \<open>internal/mcp/dbatools.go\<close>, \<open>dbaapi.go\<close> and the gates of the MCP tools. The record
    \<open>console\<close> is the privileged state with the audit entries; \<open>dba_route\<close> and \<open>dba_tool_call\<close> are the
    two ways in.
  \<^item> \<open>Web_Markdown\<close>, \<open>Web_Texts\<close>, \<open>Web_Shell\<close>, \<open>Web_Mount\<close>, \<open>Web_Dialogs\<close>:
    \<open>internal/mcp/webui/nav.js\<close>. Strings are lists of UTF-16 code units. The record \<open>shell\<close> is the
    page as \<open>mount\<close> sees it; \<open>dialog_page\<close> has the dialogs and all pending callbacks, each callback
    being one step of \<open>dialog_step\<close>.
  \<^item> \<open>Web_Docs\<close>: \<open>docs/assets/app.js\<close>; the record \<open>docs\<close> is the document.

  \<^bold>\<open>What the lemmas show.\<close>

  \<^item> The guards: the scanner refines a grammar of SQL text; an accepted statement is a single
    query without a denied keyword outside literals and comments; both tree walks accept exactly the
    trees without the denied constructs, in any order of their members.
  \<^item> The executor: nothing is sent that was not guarded, the cost ceiling holds whatever the
    options are, the row limits hold for every result, the breaker counts consecutive failures, and
    the counters and the history stay consistent in every reachable state. Every data source asks
    for a read-only session, and masked profiles do not show plain passwords.
  \<^item> Row predicates: when no predicate is missing, every row a block takes from the table satisfies
    the policy, as long as the block's names mean what the matcher takes them to mean.
  \<^item> The service: a request acts as an account only on a live credential, a revoked credential
    stays dead in every run, an active administrator remains. A query reaches the executor only for
    an account that may use the profile, profiles are changed only by those who manage them.
  \<^item> The administrators' routes: an accepted change of the settings is stored and in effect whatever
    its order, only administrators make one, the flags' values come back when everything stored is
    deleted, and answers do not show secrets. Keys are seen and changed by their owner and
    administrators only, and work for exactly the hours asked for.
  \<^item> The results: no answer shows a personal column, a cached answer is that of an earlier executed
    call, the job table keeps its limits, and a finished job can be fetched for ten minutes.
  \<^item> The tools: a query over MCP passes every gate, the two tools differ in their words only, and an
    automatic choice of a profile is sound and does not depend on the order of the profiles.
  \<^item> The DBA path: privileged statements need the role, the profile's opt-in and, to drop
    something, a confirmation; they use the DBA account, are read by PostgreSQL as they were meant,
    and have an audit entry that does not show the password.
  \<^item> The catalog and the synchronisation: the search finds a shortest join path whenever one exists
    within the limit, and ends; a change set does not depend on the iteration order of Go's maps.
  \<^item> The audit log: what was appended verifies, across failed writes and restarts, and the tip's
    hash determines the entries.
  \<^item> The console and the documentation site: nothing but escaped text and fixed tags reaches the
    page, an anonymous visitor is redirected before anything is built, each role sees its part of
    the navigation, forms report every outcome, and the widgets keep their exclusive choices.

  Where the code does not do what it says, a lemma shows a concrete case (\<open>backslash_quote_hides_keywords\<close>,
  \<open>comment_swallows_limit\<close>, \<open>cte_hides_its_own_table\<close>, \<open>no_cost_no_ceiling\<close>, \<open>explain_success_resets_breaker\<close>,
  \<open>path_over_forbidden_join\<close>, \<open>constraint_change_is_lost\<close>, \<open>comment_change_is_skipped\<close>,
  \<open>truncated_log_verifies\<close>, \<open>long_line_hides_rest\<close>, \<open>unstable_entry_breaks\<close>, \<open>rotate_revives\<close>,
  \<open>other_binds_get_old_result\<close>, \<open>manage_grantee_unshares\<close>, \<open>catalog_route_open\<close>,
  \<open>mysql_password_ends_early\<close>, \<open>parameter_with_two_names\<close>, \<open>console_route_hides_account\<close>,
  \<open>alias_named_like_table_counts\<close>, \<open>cte_hides_policy_table\<close>, \<open>quoted_column_counts\<close>,
  \<open>blank_token_keeps_flag\<close>, \<open>refused_change_is_stored\<close>, \<open>invalid_lifetime_accepted\<close>,
  \<open>long_lifetime_never_expires\<close>, \<open>unfit_profile_makes_a_winner\<close>, \<open>flood_opens_the_gate\<close>, \<open>route_without_account\<close>,
  \<open>md_link_keeps_javascript_scheme\<close>, \<open>onboarding_fills_other_guide\<close>, \<open>second_toast_cut_short\<close>).

  \<^bold>\<open>Bounds.\<close> Every function is total. The one loop with fuel is the join search: \<open>find_join_path\<close>
  gives it one step for each of the at most \<open>2 * length rs\<close> tables of the relations and one for
  the start, which \<open>join_search_terminates\<close> shows to be enough. Integers are unbounded where the
  code's values stay far from the limits (counters, costs of a planner, times in nanoseconds).
  Text is compared bytewise; case folding is ASCII, so names that differ only in the case of
  other letters are different here.

  \<^bold>\<open>Not modelled.\<close> Parameters stand for what the sources only call: the SQL parsers, the database
  drivers, \<open>net/url\<close>, \<open>encoding/json\<close>, SHA-256, bcrypt, random values, the clock, file access,
  and in the browser the network and the clipboard. Left out are: the HTTP and MCP plumbing
  (\<open>server.go\<close>, \<open>openapi.go\<close>, the handlers that only read), the
  PostgreSQL store (\<open>pg.go\<close>), the search, validation, evaluation and learning parts of the
  catalog, the collectors' queries, the
  OpenMetadata client, the command line programs, and the pages' own inline scripts. Messages that
  only inform are constructors or are dropped; the mutexes make each operation atomic.
\<close>

end
